(* ===== verification/Prelude.thy ===== *)
theory Prelude
  imports Main "HOL-Library.Word"
begin

text \<open>
  Shared vocabulary of the development: the collections of rewrite rules that the component
  theories fill, the names of the types that occur everywhere, and the facts on lists of rows
  that every table of the database model uses.

  A Go \<open>string\<close> is a sequence of bytes; it is modelled by HOL's \<open>string\<close>, whose
  characters are the 256 byte values. A \<open>uuid.UUID\<close> is a 16-byte array, a 128-bit word. Times
  (\<open>time.Time\<close>) and durations (\<open>time.Duration\<close>) are integers counting nanoseconds.
\<close>

named_theorems go_runtime "rules for the call-and-return combinators"
named_theorems db_rules "rules for the statements on the database"
named_theorems http_rules "rules for the response writer and the middleware"

type_synonym uuid = "128 word"
type_synonym time = int
type_synonym duration = int

definition second :: duration where
  "second = 1000000000"

definition minute :: duration where
  "minute = 60 * second"

definition hour :: duration where
  "hour = 60 * minute"

lemmas duration_units = second_def minute_def hour_def

subsection \<open>Rows with a key\<close>

text \<open>
  A table is a list of rows in insertion order. The locale states the one law an UPDATE on a
  keyed table relies on, that the rewritten row keeps its key, and derives from it how the rows
  are found afterwards. Every table of the database model interprets it.
\<close>

locale row_update =
  fixes key :: "'row \<Rightarrow> 'k" and upd :: "'row \<Rightarrow> 'row"
  assumes key_upd: "key (upd r) = key r"
begin

lemma map_key_upd: "map key (map upd rows) = map key rows"
  by (simp add: key_upd)

lemma find_upd:
  "find (\<lambda>r. key r = k) (map upd rows) = map_option upd (find (\<lambda>r. key r = k) rows)"
  by (induction rows) (auto simp: key_upd)

lemma image_key_upd: "key ` upd ` R = key ` R"
  by (simp add: image_image key_upd)

end

lemma find_append:
  "find P (xs @ ys) = (case find P xs of Some x \<Rightarrow> Some x | None \<Rightarrow> find P ys)"
  by (induction xs) auto

lemma find_SomeD: "find P xs = Some x \<Longrightarrow> x \<in> set xs \<and> P x"
  by (induction xs) (auto split: if_splits)

lemma find_distinct_key:
  assumes "distinct (map key rows)" and "r \<in> set rows" and "key r = k"
  shows "find (\<lambda>x. key x = k) rows = Some r"
  using assms by (induction rows) force+

lemma find_key_None: "find (\<lambda>x. key x = k) rows = None \<longleftrightarrow> k \<notin> key ` set rows"
  by (auto simp: find_None_iff)

lemma distinct_map_key_unique:
  "distinct (map key rows) \<Longrightarrow> r \<in> set rows \<Longrightarrow> s \<in> set rows \<Longrightarrow> key r = key s \<Longrightarrow> r = s"
  by (induction rows) (auto simp: rev_image_eqI)

lemma distinct_map_append1:
  "distinct (map f (xs @ [x])) \<longleftrightarrow> distinct (map f xs) \<and> f x \<notin> f ` set xs"
  by auto

lemma list_ex_image: "list_ex (\<lambda>x. f x = y) xs \<longleftrightarrow> y \<in> f ` set xs"
  by (auto simp: list_ex_iff)

end
