(* ===== verification/GoStrings.thy ===== *)
theory GoStrings
  imports Prelude
begin

text \<open>
  The parts of Go's standard library that the program applies to strings: decoding of UTF-8
  (the \<open>range\<close> loop of the language, \<open>unicode/utf8\<close>), \<open>strings.TrimSpace\<close>,
  \<open>strings.ToLower\<close>, \<open>strings.Split\<close>, \<open>strings.SplitN\<close>,
  \<open>strings.EqualFold\<close>, the classes of \<open>unicode\<close>, \<open>encoding/hex\<close>,
  \<open>html.EscapeString\<close> and \<open>strconv.Itoa\<close>.

  A rune is a natural number. The Unicode tables are fixed here up to U+00FF, as in the array
  \<open>unicode.properties\<close>; the part of the tables above that is a record of functions,
  \<open>unicode_tables\<close>, over which every definition and theorem is generic.
\<close>

type_synonym rune = nat

record unicode_tables =
  tab_lower :: "rune \<Rightarrow> rune"
  tab_is_upper :: "rune \<Rightarrow> bool"
  tab_is_lower :: "rune \<Rightarrow> bool"
  tab_is_digit :: "rune \<Rightarrow> bool"

definition rune_error :: rune where
  "rune_error = 65533"

definition is_ascii :: "string \<Rightarrow> bool" where
  "is_ascii s = list_all (\<lambda>c. (of_char c :: nat) < 128) s"

lemma is_ascii_simps [simp]: "is_ascii []" "is_ascii (c # cs) \<longleftrightarrow> (of_char c :: nat) < 128 \<and> is_ascii cs"
  by (simp_all add: is_ascii_def)

subsection \<open>UTF-8\<close>

definition in_range :: "nat \<Rightarrow> nat \<Rightarrow> nat \<Rightarrow> bool" where
  "in_range lo hi b \<longleftrightarrow> lo \<le> b \<and> b \<le> hi"

text \<open>\<open>utf8.DecodeRuneInString\<close> on the byte values: the rune and the number of bytes.\<close>

definition decode_bytes :: "nat list \<Rightarrow> rune \<times> nat" where
  "decode_bytes bs = (case bs of
     [] \<Rightarrow> (rune_error, 0)
   | b0 # r \<Rightarrow>
       if b0 < 128 then (b0, 1)
       else if in_range 194 223 b0 then
         (case r of
            b1 # _ \<Rightarrow> if in_range 128 191 b1 then ((b0 mod 32) * 64 + b1 mod 64, 2)
                      else (rune_error, 1)
          | [] \<Rightarrow> (rune_error, 1))
       else if in_range 224 239 b0 then
         (case r of
            b1 # b2 # _ \<Rightarrow>
              if in_range (if b0 = 224 then 160 else 128) (if b0 = 237 then 159 else 191) b1
                 \<and> in_range 128 191 b2
              then ((b0 mod 16) * 4096 + (b1 mod 64) * 64 + b2 mod 64, 3)
              else (rune_error, 1)
          | _ \<Rightarrow> (rune_error, 1))
       else if in_range 240 244 b0 then
         (case r of
            b1 # b2 # b3 # _ \<Rightarrow>
              if in_range (if b0 = 240 then 144 else 128) (if b0 = 244 then 143 else 191) b1
                 \<and> in_range 128 191 b2 \<and> in_range 128 191 b3
              then ((b0 mod 8) * 262144 + (b1 mod 64) * 4096 + (b2 mod 64) * 64 + b3 mod 64, 4)
              else (rune_error, 1)
          | _ \<Rightarrow> (rune_error, 1))
       else (rune_error, 1))"

definition decode_rune :: "string \<Rightarrow> rune \<times> nat" where
  "decode_rune s = decode_bytes (map of_char (take 4 s))"

text \<open>\<open>utf8.AppendRune\<close>: surrogates and values above U+10FFFF are written as U+FFFD.\<close>

definition encode_rune :: "rune \<Rightarrow> string" where
  "encode_rune r0 =
     (let r = (if in_range 55296 57343 r0 \<or> r0 > 1114111 then rune_error else r0)
      in map char_of
        (if r < 128 then [r]
         else if r < 2048 then [192 + r div 64, 128 + r mod 64]
         else if r < 65536 then [224 + r div 4096, 128 + (r div 64) mod 64, 128 + r mod 64]
         else [240 + r div 262144, 128 + (r div 4096) mod 64, 128 + (r div 64) mod 64,
               128 + r mod 64]))"

text \<open>
  The runes of a string with the bytes each was decoded from: the iteration of
  \<open>for _, r := range s\<close>, which steps over one byte where the encoding is invalid.
\<close>

lemma decode_bytes_size_pos: "bs \<noteq> [] \<Longrightarrow> 0 < snd (decode_bytes bs)"
  by (auto simp: decode_bytes_def split: list.splits)

lemma decode_rune_size_pos: "0 < snd (decode_rune (c # cs))"
  by (simp add: decode_rune_def decode_bytes_size_pos)

function segments :: "string \<Rightarrow> (rune \<times> string) list" where
  "segments [] = []"
| "segments (c # cs) =
     (let (r, n) = decode_rune (c # cs)
      in (r, take n (c # cs)) # segments (drop n (c # cs)))"
  by pat_completeness auto
termination
  by (relation "measure length")
     (simp, use decode_rune_size_pos in \<open>force simp: prod_eq_iff\<close>)

declare segments.simps(2) [simp del]

definition runes :: "string \<Rightarrow> rune list" where
  "runes s = map fst (segments s)"

lemma decode_rune_ascii: "(of_char c :: nat) < 128 \<Longrightarrow> decode_rune (c # cs) = (of_char c, 1)"
  by (simp add: decode_rune_def decode_bytes_def)

lemma segments_ascii: "is_ascii s \<Longrightarrow> segments s = map (\<lambda>c. (of_char c, [c])) s"
  by (induction s) (auto simp: segments.simps decode_rune_ascii)

lemma runes_ascii: "is_ascii s \<Longrightarrow> runes s = map of_char s"
  by (simp add: runes_def segments_ascii)

subsection \<open>Character classes\<close>

definition is_space_rune :: "rune \<Rightarrow> bool" where
  "is_space_rune r \<longleftrightarrow>
     r \<in> set [9, 10, 11, 12, 13, 32, 133, 160, 5760, 8232, 8233, 8239, 8287, 12288]
     \<or> in_range 8192 8202 r"

definition is_upper_rune :: "unicode_tables \<Rightarrow> rune \<Rightarrow> bool" where
  "is_upper_rune u r =
     (if r \<le> 255 then in_range 65 90 r \<or> (in_range 192 222 r \<and> r \<noteq> 215) else tab_is_upper u r)"

definition is_lower_rune :: "unicode_tables \<Rightarrow> rune \<Rightarrow> bool" where
  "is_lower_rune u r =
     (if r \<le> 255 then in_range 97 122 r \<or> r = 181 \<or> (in_range 223 255 r \<and> r \<noteq> 247)
      else tab_is_lower u r)"

definition is_digit_rune :: "unicode_tables \<Rightarrow> rune \<Rightarrow> bool" where
  "is_digit_rune u r = (if r \<le> 255 then in_range 48 57 r else tab_is_digit u r)"

definition lower_rune :: "unicode_tables \<Rightarrow> rune \<Rightarrow> rune" where
  "lower_rune u r =
     (if r \<le> 255 then (if in_range 65 90 r \<or> (in_range 192 222 r \<and> r \<noteq> 215) then r + 32 else r)
      else tab_lower u r)"

definition lower_byte :: "char \<Rightarrow> char" where
  "lower_byte c = (if in_range 65 90 (of_char c) then char_of (of_char c + 32 :: nat) else c)"

lemma is_ascii_lower_byte: "(of_char c :: nat) < 128 \<Longrightarrow> (of_char (lower_byte c) :: nat) < 128"
  by (auto simp: lower_byte_def in_range_def)

lemma lower_byte_idem [simp]: "lower_byte (lower_byte c) = lower_byte c"
  by (auto simp: lower_byte_def in_range_def)

lemma lower_byte_space:
  "is_space_rune (of_char (lower_byte c)) \<longleftrightarrow> is_space_rune (of_char c)"
  by (auto simp: lower_byte_def in_range_def is_space_rune_def)

subsection \<open>The functions of package strings\<close>

definition trim_segments :: "(rune \<times> string) list \<Rightarrow> (rune \<times> string) list" where
  "trim_segments sg =
     rev (dropWhile (\<lambda>p. is_space_rune (fst p))
       (rev (dropWhile (\<lambda>p. is_space_rune (fst p)) sg)))"

definition trim_space :: "string \<Rightarrow> string" where
  "trim_space s = concat (map snd (trim_segments (segments s)))"

text \<open>The ASCII path of \<open>strings.ToLower\<close>, and \<open>strings.Map(unicode.ToLower, s)\<close>.\<close>

definition to_lower :: "unicode_tables \<Rightarrow> string \<Rightarrow> string" where
  "to_lower u s =
     (if is_ascii s then map lower_byte s
      else concat (map (\<lambda>r. encode_rune (lower_rune u r)) (runes s)))"

fun split_on :: "char \<Rightarrow> string \<Rightarrow> string list" where
  "split_on sep [] = [[]]"
| "split_on sep (c # cs) =
     (if c = sep then [] # split_on sep cs
      else (case split_on sep cs of [] \<Rightarrow> [[c]] | p # ps \<Rightarrow> (c # p) # ps))"

text \<open>\<open>strings.SplitN(s, sep, 2)\<close> and \<open>strings.Cut\<close>, for a separator of one byte.\<close>

definition split_n2 :: "char \<Rightarrow> string \<Rightarrow> string list" where
  "split_n2 sep s =
     (let pre = takeWhile (\<lambda>c. c \<noteq> sep) s; rest = dropWhile (\<lambda>c. c \<noteq> sep) s
      in case rest of [] \<Rightarrow> [s] | _ # post \<Rightarrow> [pre, post])"

text \<open>
  \<open>strings.EqualFold(s, t)\<close> for a \<open>t\<close> of ASCII letters other than k and s, the
  only two with a case variant outside ASCII: equality up to the case of ASCII letters.
\<close>

definition equal_fold :: "string \<Rightarrow> string \<Rightarrow> bool" where
  "equal_fold s t = (map lower_byte s = map lower_byte t)"

definition has_prefix :: "string \<Rightarrow> string \<Rightarrow> bool" where
  "has_prefix s p = (take (length p) s = p)"

fun join_with :: "string \<Rightarrow> string list \<Rightarrow> string" where
  "join_with sep [] = []"
| "join_with sep [s] = s"
| "join_with sep (s # t # ss) = s @ sep @ join_with sep (t # ss)"

subsection \<open>Rendering\<close>

definition hex_digit :: "nat \<Rightarrow> char" where
  "hex_digit n = ''0123456789abcdef'' ! n"

definition hex_encode :: "string \<Rightarrow> string" where
  "hex_encode s =
     concat (map (\<lambda>c. [hex_digit (of_char c div 16), hex_digit (of_char c mod 16)]) s)"

fun decimal :: "nat \<Rightarrow> string" where
  "decimal n = (if n < 10 then [char_of (48 + n)] else decimal (n div 10) @ [char_of (48 + n mod 10)])"

declare decimal.simps [simp del]

text \<open>Evaluation on ASCII literals.\<close>

lemmas eval_strings =
  segments_ascii runes_ascii trim_space_def trim_segments_def is_space_rune_def in_range_def
  to_lower_def lower_byte_def

definition html_escape_char :: "char \<Rightarrow> string" where
  "html_escape_char c =
     (if c = CHR ''&'' then ''&amp;''
      else if c = CHR 0x27 then ''&#39;''
      else if c = CHR ''<'' then ''&lt;''
      else if c = CHR ''>'' then ''&gt;''
      else if c = CHR 0x22 then ''&#34;''
      else [c])"

definition html_escape :: "string \<Rightarrow> string" where
  "html_escape s = concat (map html_escape_char s)"

end
