(* ===== verification/Runtime.thy ===== *)
theory Runtime
  imports GoStrings
begin

text \<open>
  What every component runs on: Go's error values, the parameters that stand for code outside
  the repository, the state the program shares, and calls that return a value or an error.
\<close>

subsection \<open>Errors\<close>

text \<open>
  One constructor per sentinel error of \<open>internal/auth/service.go\<close> and per source of
  foreign errors. \<open>ErrWrap msg e\<close> is \<open>fmt.Errorf("...%w", e)\<close>.
\<close>

datatype err =
    ErrEmailExists | ErrInvalidEmail | ErrInvalidCredentials | ErrInvalidOrgSelection
  | ErrInvalidToken | ErrOrgSelectionRequired | ErrWeakPassword | ErrWrongPassword
  | ErrMissingOrgID
  | ErrNoRows | ErrPg string | ErrConn
  | ErrCacheNil | ErrCacheType
  | ErrBcrypt | ErrRand | ErrUuid | ErrJwt string
  | ErrSend
  | ErrServerClosed | ErrDeadline
  | ErrText string
  | ErrWrap string err

fun errors_is :: "err \<Rightarrow> err \<Rightarrow> bool" where
  "errors_is (ErrWrap m e) t = (ErrWrap m e = t \<or> errors_is e t)"
| "errors_is e t = (e = t)"

text \<open>\<open>errors.As(err, &pgErr)\<close>: the SQLSTATE of the first Postgres error of the chain.\<close>

fun errors_as_pg :: "err \<Rightarrow> string option" where
  "errors_as_pg (ErrPg code) = Some code"
| "errors_as_pg (ErrWrap m e) = errors_as_pg e"
| "errors_as_pg _ = None"

subsection \<open>Code outside the repository\<close>

record claims =
  cl_org_id :: string
  cl_role :: string
  cl_token_version :: int
  cl_id :: string
  cl_subject :: string
  cl_issuer :: string
  cl_audience :: "string list"
  cl_issued_at :: int
  cl_expires_at :: int

text \<open>
  The functions of third-party packages the program calls, as parameters:
  \<open>golang.org/x/crypto/bcrypt\<close> (salt, password, cost; and the comparison),
  \<open>github.com/google/uuid\<close> (\<open>Parse\<close> and \<open>String\<close>),
  \<open>golang-jwt/jwt\<close> (\<open>SignedString\<close>; \<open>ParseWithClaims\<close> with its clock,
  key function, issuer and audience options; \<open>NewNumericDate\<close>), Postgres's
  \<open>LOWER\<close>, the digest of \<open>crypto/sha256\<close>, and what the vectors of
  \<open>prometheus/client_golang\<close> take as the value of a label. The key function gets whether the
  token's method is HMAC.
\<close>

record ext =
  unicode :: unicode_tables
  bcrypt_generate :: "string \<Rightarrow> string \<Rightarrow> nat \<Rightarrow> string option"
  bcrypt_compare :: "string \<Rightarrow> string \<Rightarrow> bool"
  uuid_parse :: "string \<Rightarrow> uuid option"
  uuid_string :: "uuid \<Rightarrow> string"
  jwt_sign :: "string \<Rightarrow> claims \<Rightarrow> string option"
  jwt_parse :: "time \<Rightarrow> (bool \<Rightarrow> string option) \<Rightarrow> string \<Rightarrow> string \<Rightarrow> string \<Rightarrow> (claims \<times> bool) option"
  jwt_numeric_date :: "time \<Rightarrow> int"
  pg_lower :: "string \<Rightarrow> string"
  sha256 :: "string \<Rightarrow> string"
  label_value_ok :: "string \<Rightarrow> bool"

subsection \<open>The tables\<close>

record user =
  us_id :: uuid
  us_email :: string
  us_password_hash :: string
  us_full_name :: string
  us_created_at :: time
  us_updated_at :: time
  us_token_version :: int

record org =
  or_id :: uuid
  or_name :: string
  or_created_at :: time

record org_membership =
  om_id :: uuid
  om_user_id :: uuid
  om_org_id :: uuid
  om_role :: string
  om_created_at :: time

record refresh_token =
  rt_token :: string
  rt_user_id :: uuid
  rt_expires_at :: time
  rt_revoked :: bool
  rt_created_at :: time
  rt_org_id :: uuid

record database =
  users :: "user list"
  orgs :: "org list"
  org_memberships :: "org_membership list"
  refresh_tokens :: "refresh_token list"

subsection \<open>The world\<close>

text \<open>
  A value of the Redis keyspace is a string or a counter, with the time it expires at, if any.
\<close>

datatype redis_value = RStr string | RInt int

type_synonym keyspace = "string \<rightharpoonup> redis_value \<times> time option"

text \<open>
  A call to a remote system can fail before it took effect or after. Which calls fail is an
  oracle of the world, as are the results of the random source and of
  \<open>gen_random_uuid()\<close>; each has a position that the call advances. The three clocks are
  the process's, the database server's and the Redis server's.
\<close>

datatype fault = NoFault | FailBefore | FailAfter

record email_message =
  em_from :: string
  em_to :: "string list"
  em_subject :: string
  em_html :: string
  em_reply_to :: "string list"

record world =
  db :: database
  cache :: keyspace
  outbox :: "email_message list"
  app_now :: time
  db_now :: time
  redis_now :: time
  faults :: "nat \<Rightarrow> fault"
  fault_pos :: nat
  rand_src :: "nat \<Rightarrow> string option"
  rand_pos :: nat
  uuid_src :: "nat \<Rightarrow> uuid"
  uuid_pos :: nat

subsection \<open>Calls\<close>

text \<open>
  An operation takes the world and gives its result and the new world. \<open>call m k\<close> is
  Go's \<open>x, err := m()\<close> followed by \<open>k\<close>, which sees the result whether it is a
  value or an error.
\<close>

type_synonym 'a op = "world \<Rightarrow> (err + 'a) \<times> world"

definition ret :: "'a \<Rightarrow> 'a op" where
  "ret a = (\<lambda>w. (Inr a, w))"

definition fail :: "err \<Rightarrow> 'a op" where
  "fail e = (\<lambda>w. (Inl e, w))"

definition call :: "'a op \<Rightarrow> ((err + 'a) \<Rightarrow> 'b op) \<Rightarrow> 'b op" where
  "call m k = (\<lambda>w. case m w of (r, w') \<Rightarrow> k r w')"

text \<open>The common form \<open>if err != nil { return err }\<close>.\<close>

definition attempt :: "'a op \<Rightarrow> ('a \<Rightarrow> 'b op) \<Rightarrow> 'b op" where
  "attempt m k = call m (\<lambda>r. case r of Inl e \<Rightarrow> fail e | Inr a \<Rightarrow> k a)"

definition lift :: "err + 'a \<Rightarrow> 'a op" where
  "lift r = (\<lambda>w. (r, w))"

definition read_world :: "(world \<Rightarrow> 'a) \<Rightarrow> 'a op" where
  "read_world f = (\<lambda>w. (Inr (f w), w))"

lemmas call_defs = ret_def fail_def call_def attempt_def lift_def read_world_def

lemma call_ret [go_runtime]: "call (ret a) k = k (Inr a)"
  by (simp add: call_defs)

lemma call_fail [go_runtime]: "call (fail e) k = k (Inl e)"
  by (simp add: call_defs)

lemma attempt_ret [go_runtime]: "attempt (ret a) k = k a"
  by (simp add: call_defs)

lemma attempt_fail [go_runtime]: "attempt (fail e) k = fail e"
  by (simp add: call_defs)

lemma call_assoc: "call (call m k) l = call m (\<lambda>r. call (k r) l)"
  by (simp add: call_defs fun_eq_iff split: prod.splits)

lemma attempt_apply:
  "attempt m k w = (case m w of (Inl e, w') \<Rightarrow> (Inl e, w') | (Inr a, w') \<Rightarrow> k a w')"
  by (auto simp: call_defs split: prod.splits sum.splits)

lemma call_apply: "call m k w = (case m w of (r, w') \<Rightarrow> k r w')"
  by (simp add: call_def)

lemma call_step: "m w = (r, w') \<Longrightarrow> call m k w = k r w'"
  by (simp add: call_def)

lemma attempt_step: "m w = (Inr a, w') \<Longrightarrow> attempt m k w = k a w'"
  and attempt_stop: "m w = (Inl e, w') \<Longrightarrow> attempt m k w = (Inl e, w')"
  by (simp_all add: attempt_apply)

lemma attempt_okD:
  assumes "attempt m k w = (Inr b, w')"
  obtains a w1 where "m w = (Inr a, w1)" and "k a w1 = (Inr b, w')"
  using assms by (auto simp: attempt_apply split: prod.splits sum.splits)

subsection \<open>The oracles\<close>

definition take_fault :: "fault op" where
  "take_fault = (\<lambda>w. (Inr (faults w (fault_pos w)), w\<lparr>fault_pos := Suc (fault_pos w)\<rparr>))"

text \<open>\<open>rand.Read\<close>: the next block of random bytes, or an error.\<close>

definition rand_read :: "string op" where
  "rand_read = (\<lambda>w.
     (case rand_src w (rand_pos w) of None \<Rightarrow> Inl ErrRand | Some b \<Rightarrow> Inr b,
      w\<lparr>rand_pos := Suc (rand_pos w)\<rparr>))"

definition gen_random_uuid :: "uuid op" where
  "gen_random_uuid = (\<lambda>w. (Inr (uuid_src w (uuid_pos w)), w\<lparr>uuid_pos := Suc (uuid_pos w)\<rparr>))"

subsection \<open>Preservation\<close>

text \<open>
  \<open>preserves P m\<close>: whatever \<open>m\<close> returns, and also when it fails, it leads from worlds
  with \<open>P\<close> to worlds with \<open>P\<close>. \<open>evolves R m\<close> is the relational form. Both are
  compositional over the combinators, so an operation is treated call by call.
\<close>

definition preserves :: "(world \<Rightarrow> bool) \<Rightarrow> 'a op \<Rightarrow> bool" where
  "preserves P m \<longleftrightarrow> (\<forall>w. P w \<longrightarrow> P (snd (m w)))"

definition evolves :: "(world \<Rightarrow> world \<Rightarrow> bool) \<Rightarrow> 'a op \<Rightarrow> bool" where
  "evolves R m \<longleftrightarrow> (\<forall>w. R w (snd (m w)))"

lemma preservesD: "preserves P m \<Longrightarrow> P w \<Longrightarrow> P (snd (m w))"
  by (simp add: preserves_def)

lemma preserves_ret [intro!]: "preserves P (ret a)"
  and preserves_fail [intro!]: "preserves P (fail e)"
  and preserves_lift [intro!]: "preserves P (lift r)"
  and preserves_read [intro!]: "preserves P (read_world f)"
  by (simp_all add: preserves_def call_defs)

lemma preserves_call:
  "preserves P m \<Longrightarrow> (\<And>r. preserves P (k r)) \<Longrightarrow> preserves P (call m k)"
  by (simp add: preserves_def call_def split: prod.splits) (metis snd_conv)

lemma preserves_attempt:
  "preserves P m \<Longrightarrow> (\<And>a. preserves P (k a)) \<Longrightarrow> preserves P (attempt m k)"
  by (auto simp: attempt_def intro!: preserves_call split: sum.splits)

text \<open>
  A preorder on worlds that relates each world to what an operation makes of it: the locale
  gives the rules for the combinators. A component interprets it on the relation its operations
  respect.
\<close>

locale world_order =
  fixes R :: "world \<Rightarrow> world \<Rightarrow> bool"
  assumes refl: "R w w"
    and trans: "R u v \<Longrightarrow> R v w \<Longrightarrow> R u w"
begin

lemma evolves_ret: "evolves R (ret a)"
  and evolves_fail: "evolves R (fail e)"
  and evolves_lift: "evolves R (lift r)"
  and evolves_read: "evolves R (read_world f)"
  by (simp_all add: evolves_def call_defs refl)

lemma evolves_call:
  assumes "evolves R m" and "\<And>r. evolves R (k r)"
  shows "evolves R (call m k)"
proof -
  have "R w (snd (call m k w))" for w
  proof (cases "m w")
    case (Pair r w')
    with assms(1) have "R w w'" by (metis evolves_def snd_conv)
    moreover have "R w' (snd (k r w'))" using assms(2) by (simp add: evolves_def)
    ultimately show ?thesis using Pair by (simp add: call_def trans)
  qed
  then show ?thesis by (simp add: evolves_def)
qed

lemma evolves_attempt:
  assumes "evolves R m" and "\<And>a. evolves R (k a)"
  shows "evolves R (attempt m k)"
  unfolding attempt_def
  by (rule evolves_call [OF assms(1)]) (auto simp: assms(2) evolves_fail split: sum.splits)

lemmas evolves_intros = evolves_ret evolves_fail evolves_lift evolves_read evolves_call evolves_attempt

end

end
