(* ===== verification/Db.thy ===== *)
theory Db
  imports Runtime
begin

text \<open>
  The Postgres tables of \<open>db/migrations\<close>, the queries of \<open>db/gen/auth.sql.go\<close> and the
  transactions of \<open>internal/platform/database/tx.go\<close>.

  Each query is a statement on the four tables: \<open>INSERT\<close> checks the constraints the
  migrations declare (primary keys, the unique index on the lower-cased e-mail, one membership
  for a user and an org, the role check, foreign keys) and gives the SQLSTATE where one fails;
  \<open>UPDATE ... WHERE\<close> rewrites the rows that match. \<open>exec\<close> runs a statement as one
  call to the server, which the fault oracle can make fail before or after its effect.
\<close>

subsection \<open>Statements\<close>

type_synonym 'a stmt = "database \<Rightarrow> (err + 'a) \<times> database"

definition exec :: "'a stmt \<Rightarrow> 'a op" where
  "exec s = call take_fault (\<lambda>f w.
     (case f of
        Inr NoFault \<Rightarrow> (case s (db w) of (r, d) \<Rightarrow> (r, w\<lparr>db := d\<rparr>))
      | Inr FailAfter \<Rightarrow> (Inl ErrConn, w\<lparr>db := snd (s (db w))\<rparr>)
      | _ \<Rightarrow> (Inl ErrConn, w)))"

definition unique_violation :: err where "unique_violation = ErrPg ''23505''"
definition foreign_key_violation :: err where "foreign_key_violation = ErrPg ''23503''"
definition check_violation :: err where "check_violation = ErrPg ''23514''"
definition integer_out_of_range :: err where "integer_out_of_range = ErrPg ''22003''"

lemmas pg_errors =
  unique_violation_def foreign_key_violation_def check_violation_def integer_out_of_range_def

definition one_row :: "'a option \<Rightarrow> err + 'a" where
  "one_row r = (case r of None \<Rightarrow> Inl ErrNoRows | Some x \<Rightarrow> Inr x)"

definition find_user :: "uuid \<Rightarrow> database \<Rightarrow> user option" where
  "find_user i d = find (\<lambda>u. us_id u = i) (users d)"

definition find_user_email :: "ext \<Rightarrow> string \<Rightarrow> database \<Rightarrow> user option" where
  "find_user_email x e d = find (\<lambda>u. pg_lower x (us_email u) = pg_lower x e) (users d)"

definition find_org :: "uuid \<Rightarrow> database \<Rightarrow> org option" where
  "find_org i d = find (\<lambda>r. or_id r = i) (orgs d)"

definition find_membership :: "uuid \<Rightarrow> uuid \<Rightarrow> database \<Rightarrow> org_membership option" where
  "find_membership u i d =
     find (\<lambda>m. om_user_id m = u \<and> om_org_id m = i) (org_memberships d)"

definition find_token :: "string \<Rightarrow> database \<Rightarrow> refresh_token option" where
  "find_token t d = find (\<lambda>r. rt_token r = t) (refresh_tokens d)"

definition insert_user :: "ext \<Rightarrow> time \<Rightarrow> uuid \<Rightarrow> string \<Rightarrow> string \<Rightarrow> string \<Rightarrow> user stmt" where
  "insert_user x now i email hash name d =
     (if list_ex (\<lambda>u. us_id u = i) (users d)
         \<or> list_ex (\<lambda>u. us_email u = email) (users d)
         \<or> list_ex (\<lambda>u. pg_lower x (us_email u) = pg_lower x email) (users d)
      then (Inl unique_violation, d)
      else let u = \<lparr>us_id = i, us_email = email, us_password_hash = hash, us_full_name = name,
                    us_created_at = now, us_updated_at = now, us_token_version = 0\<rparr>
           in (Inr u, d\<lparr>users := users d @ [u]\<rparr>))"

definition insert_org :: "time \<Rightarrow> uuid \<Rightarrow> string \<Rightarrow> org stmt" where
  "insert_org now i name d =
     (if list_ex (\<lambda>r. or_id r = i) (orgs d) then (Inl unique_violation, d)
      else let r = \<lparr>or_id = i, or_name = name, or_created_at = now\<rparr>
           in (Inr r, d\<lparr>orgs := orgs d @ [r]\<rparr>))"

definition insert_membership ::
    "time \<Rightarrow> uuid \<Rightarrow> uuid \<Rightarrow> uuid \<Rightarrow> string \<Rightarrow> org_membership stmt" where
  "insert_membership now i u r role d =
     (if role \<notin> {''admin'', ''member''} then (Inl check_violation, d)
      else if list_ex (\<lambda>m. om_id m = i) (org_memberships d)
         \<or> list_ex (\<lambda>m. om_user_id m = u \<and> om_org_id m = r) (org_memberships d)
      then (Inl unique_violation, d)
      else if find_user u d = None \<or> find_org r d = None then (Inl foreign_key_violation, d)
      else let m = \<lparr>om_id = i, om_user_id = u, om_org_id = r, om_role = role, om_created_at = now\<rparr>
           in (Inr m, d\<lparr>org_memberships := org_memberships d @ [m]\<rparr>))"

definition insert_token ::
    "time \<Rightarrow> string \<Rightarrow> uuid \<Rightarrow> uuid \<Rightarrow> time \<Rightarrow> refresh_token stmt" where
  "insert_token now t u r expires d =
     (if list_ex (\<lambda>k. rt_token k = t) (refresh_tokens d) then (Inl unique_violation, d)
      else if find_user u d = None \<or> find_org r d = None then (Inl foreign_key_violation, d)
      else let k = \<lparr>rt_token = t, rt_user_id = u, rt_expires_at = expires, rt_revoked = False,
                    rt_created_at = now, rt_org_id = r\<rparr>
           in (Inr k, d\<lparr>refresh_tokens := refresh_tokens d @ [k]\<rparr>))"

text \<open>
  \<open>UPDATE refresh_tokens SET revoked = TRUE WHERE token = $1 AND revoked = FALSE AND
  expires_at > NOW() RETURNING ...\<close>: the row returned is the updated one.
\<close>

definition revoke_row :: "refresh_token \<Rightarrow> refresh_token" where
  "revoke_row k = k\<lparr>rt_revoked := True\<rparr>"

definition consumable :: "time \<Rightarrow> string \<Rightarrow> refresh_token \<Rightarrow> bool" where
  "consumable now t k \<longleftrightarrow> rt_token k = t \<and> \<not> rt_revoked k \<and> now < rt_expires_at k"

definition consume_token :: "time \<Rightarrow> string \<Rightarrow> refresh_token stmt" where
  "consume_token now t d =
     (one_row (map_option revoke_row (find (consumable now t) (refresh_tokens d))),
      d\<lparr>refresh_tokens :=
          map (\<lambda>k. if consumable now t k then revoke_row k else k) (refresh_tokens d)\<rparr>)"

definition revoke_token :: "string \<Rightarrow> unit stmt" where
  "revoke_token t d =
     (Inr (), d\<lparr>refresh_tokens :=
        map (\<lambda>k. if rt_token k = t then revoke_row k else k) (refresh_tokens d)\<rparr>)"

definition revoke_user_tokens :: "uuid \<Rightarrow> unit stmt" where
  "revoke_user_tokens u d =
     (Inr (), d\<lparr>refresh_tokens :=
        map (\<lambda>k. if rt_user_id k = u then revoke_row k else k) (refresh_tokens d)\<rparr>)"

text \<open>
  An update of \<open>users\<close> fires \<open>users_set_updated_at\<close>. \<open>token_version\<close> is an
  \<open>INTEGER\<close>: the increment of the largest value fails and changes nothing.
\<close>

definition max_int32 :: int where
  "max_int32 = 2147483647"

definition bump_row :: "time \<Rightarrow> uuid \<Rightarrow> user \<Rightarrow> user" where
  "bump_row now i u =
     (if us_id u = i then u\<lparr>us_token_version := us_token_version u + 1, us_updated_at := now\<rparr> else u)"

definition increment_version :: "time \<Rightarrow> uuid \<Rightarrow> unit stmt" where
  "increment_version now i d =
     (if list_ex (\<lambda>u. us_id u = i \<and> us_token_version u \<ge> max_int32) (users d)
      then (Inl integer_out_of_range, d)
      else (Inr (), d\<lparr>users := map (bump_row now i) (users d)\<rparr>))"

definition password_row :: "time \<Rightarrow> uuid \<Rightarrow> string \<Rightarrow> user \<Rightarrow> user" where
  "password_row now i hash u =
     (if us_id u = i then u\<lparr>us_password_hash := hash, us_updated_at := now\<rparr> else u)"

definition update_password :: "time \<Rightarrow> uuid \<Rightarrow> string \<Rightarrow> unit stmt" where
  "update_password now i hash d = (Inr (), d\<lparr>users := map (password_row now i hash) (users d)\<rparr>)"

subsection \<open>The queries\<close>

definition ConsumeRefreshToken :: "string \<Rightarrow> refresh_token op" where
  "ConsumeRefreshToken t = (\<lambda>w. exec (consume_token (db_now w) t) w)"

definition CreateOrg :: "string \<Rightarrow> org op" where
  "CreateOrg name = attempt gen_random_uuid (\<lambda>i w. exec (insert_org (db_now w) i name) w)"

definition CreateOrgMembership :: "uuid \<Rightarrow> uuid \<Rightarrow> string \<Rightarrow> org_membership op" where
  "CreateOrgMembership u r role =
     attempt gen_random_uuid (\<lambda>i w. exec (insert_membership (db_now w) i u r role) w)"

definition CreateRefreshToken :: "string \<Rightarrow> uuid \<Rightarrow> uuid \<Rightarrow> time \<Rightarrow> refresh_token op" where
  "CreateRefreshToken t u r expires = (\<lambda>w. exec (insert_token (db_now w) t u r expires) w)"

definition CreateUser :: "ext \<Rightarrow> string \<Rightarrow> string \<Rightarrow> string \<Rightarrow> user op" where
  "CreateUser x email hash name =
     attempt gen_random_uuid (\<lambda>i w. exec (insert_user x (db_now w) i email hash name) w)"

definition GetOrg :: "uuid \<Rightarrow> org op" where
  "GetOrg i = exec (\<lambda>d. (one_row (find_org i d), d))"

definition GetOrgMembershipByUser :: "uuid \<Rightarrow> uuid \<Rightarrow> org_membership op" where
  "GetOrgMembershipByUser u r = exec (\<lambda>d. (one_row (find_membership u r d), d))"

definition GetUserByEmail :: "ext \<Rightarrow> string \<Rightarrow> user op" where
  "GetUserByEmail x e = exec (\<lambda>d. (one_row (find_user_email x e d), d))"

definition GetUserByID :: "uuid \<Rightarrow> user op" where
  "GetUserByID i = exec (\<lambda>d. (one_row (find_user i d), d))"

definition IncrementUserTokenVersion :: "uuid \<Rightarrow> unit op" where
  "IncrementUserTokenVersion i = (\<lambda>w. exec (increment_version (db_now w) i) w)"

definition ListOrgMembershipsByUser :: "uuid \<Rightarrow> org_membership list op" where
  "ListOrgMembershipsByUser u =
     exec (\<lambda>d. (Inr (sort_key om_created_at (filter (\<lambda>m. om_user_id m = u) (org_memberships d))), d))"

definition RevokeAllUserRefreshTokens :: "uuid \<Rightarrow> unit op" where
  "RevokeAllUserRefreshTokens u = exec (revoke_user_tokens u)"

definition RevokeRefreshToken :: "string \<Rightarrow> unit op" where
  "RevokeRefreshToken t = exec (revoke_token t)"

definition UpdateUserPassword :: "uuid \<Rightarrow> string \<Rightarrow> unit op" where
  "UpdateUserPassword i hash = (\<lambda>w. exec (update_password (db_now w) i hash) w)"

lemmas query_defs =
  ConsumeRefreshToken_def CreateOrg_def CreateOrgMembership_def CreateRefreshToken_def
  CreateUser_def GetOrg_def GetOrgMembershipByUser_def GetUserByEmail_def GetUserByID_def
  IncrementUserTokenVersion_def ListOrgMembershipsByUser_def RevokeAllUserRefreshTokens_def
  RevokeRefreshToken_def UpdateUserPassword_def

subsection \<open>Transactions\<close>

text \<open>
  \<open>WithTx\<close>: begin, run, roll back on an error and commit otherwise. The server discards
  an unfinished transaction whose rollback does not arrive, so the tables are restored either
  way. A commit that fails after its effect leaves the changes in place and still reports an
  error. \<open>%v\<close> of the rollback error is text, \<open>%w\<close> wraps the original one.
\<close>

definition begin_tx :: "unit op" where
  "begin_tx = attempt take_fault (\<lambda>f. if f = NoFault then ret () else fail ErrConn)"

definition rollback_tx :: "database \<Rightarrow> unit op" where
  "rollback_tx snapshot = attempt take_fault (\<lambda>f w.
     ((if f = NoFault then Inr () else Inl ErrConn), w\<lparr>db := snapshot\<rparr>))"

definition commit_tx :: "database \<Rightarrow> unit op" where
  "commit_tx snapshot = attempt take_fault (\<lambda>f w.
     (case f of
        NoFault \<Rightarrow> (Inr (), w)
      | FailBefore \<Rightarrow> (Inl ErrConn, w\<lparr>db := snapshot\<rparr>)
      | FailAfter \<Rightarrow> (Inl ErrConn, w)))"

definition WithTx :: "'a op \<Rightarrow> 'a op" where
  "WithTx fn = call begin_tx (\<lambda>b. case b of
       Inl e \<Rightarrow> fail (ErrWrap ''begin transaction'' e)
     | Inr _ \<Rightarrow> attempt (read_world db) (\<lambda>snapshot.
         call fn (\<lambda>r. case r of
             Inl e \<Rightarrow> call (rollback_tx snapshot) (\<lambda>rb. case rb of
                 Inl _ \<Rightarrow> fail (ErrWrap ''rollback failed'' e)
               | Inr _ \<Rightarrow> fail e)
           | Inr a \<Rightarrow> call (commit_tx snapshot) (\<lambda>c. case c of
                 Inl e \<Rightarrow> fail (ErrWrap ''commit transaction'' e)
               | Inr _ \<Rightarrow> ret a))))"

definition WithTxQueries :: "'a op \<Rightarrow> 'a op" where
  "WithTxQueries fn = WithTx fn"

end
