(* ===== verification/DbProps.thy ===== *)
theory DbProps
  imports Db
begin

text \<open>
  What the statements promise: the integrity of the tables (\<open>db_ok\<close>) that every query
  keeps, and the order \<open>db_le\<close> along which the tables evolve: rows are never deleted, a
  revoked token stays revoked, a token version never decreases. Both are lifted to calls and
  to transactions.
\<close>

subsection \<open>Integrity\<close>

definition users_ok :: "ext \<Rightarrow> database \<Rightarrow> bool" where
  "users_ok x d \<longleftrightarrow>
     distinct (map us_id (users d))
     \<and> distinct (map (\<lambda>u. pg_lower x (us_email u)) (users d))
     \<and> (\<forall>u \<in> set (users d). 0 \<le> us_token_version u \<and> us_token_version u \<le> max_int32)"

definition memberships_ok :: "database \<Rightarrow> bool" where
  "memberships_ok d \<longleftrightarrow>
     distinct (map om_id (org_memberships d))
     \<and> distinct (map (\<lambda>m. (om_user_id m, om_org_id m)) (org_memberships d))
     \<and> (\<forall>m \<in> set (org_memberships d).
          om_user_id m \<in> us_id ` set (users d) \<and> om_org_id m \<in> or_id ` set (orgs d)
          \<and> om_role m \<in> {''admin'', ''member''})"

definition tokens_ok :: "database \<Rightarrow> bool" where
  "tokens_ok d \<longleftrightarrow>
     distinct (map rt_token (refresh_tokens d))
     \<and> (\<forall>k \<in> set (refresh_tokens d).
          rt_user_id k \<in> us_id ` set (users d) \<and> rt_org_id k \<in> or_id ` set (orgs d))"

definition db_ok :: "ext \<Rightarrow> database \<Rightarrow> bool" where
  "db_ok x d \<longleftrightarrow>
     users_ok x d \<and> distinct (map or_id (orgs d)) \<and> memberships_ok d \<and> tokens_ok d"

lemmas db_ok_defs = db_ok_def users_ok_def memberships_ok_def tokens_ok_def

lemma find_user_None_iff: "find_user i d = None \<longleftrightarrow> i \<notin> us_id ` set (users d)"
  by (auto simp: find_user_def find_None_iff)

lemma find_org_None_iff: "find_org i d = None \<longleftrightarrow> i \<notin> or_id ` set (orgs d)"
  by (auto simp: find_org_def find_None_iff)

lemma find_userD: "find_user i d = Some u \<Longrightarrow> u \<in> set (users d) \<and> us_id u = i"
  unfolding find_user_def by (drule find_SomeD) simp

lemma find_tokenD: "find_token t d = Some k \<Longrightarrow> k \<in> set (refresh_tokens d) \<and> rt_token k = t"
  unfolding find_token_def by (drule find_SomeD) simp

lemma find_membershipD:
  "find_membership u i d = Some m
   \<Longrightarrow> m \<in> set (org_memberships d) \<and> om_user_id m = u \<and> om_org_id m = i"
  unfolding find_membership_def by (drule find_SomeD) simp

subsection \<open>The row updates keep their keys\<close>

interpretation consume_row: row_update rt_token "\<lambda>k. if consumable now t k then revoke_row k else k" for now t
  by unfold_locales (simp add: revoke_row_def)

interpretation revoke_one: row_update rt_token "\<lambda>k. if rt_token k = t then revoke_row k else k" for t
  by unfold_locales (simp add: revoke_row_def)

interpretation revoke_all: row_update rt_token "\<lambda>k. if rt_user_id k = u then revoke_row k else k" for u
  by unfold_locales (simp add: revoke_row_def)

interpretation bump: row_update us_id "bump_row now i" for now i
  by unfold_locales (simp add: bump_row_def)

interpretation new_password: row_update us_id "password_row now i hash" for now i hash
  by unfold_locales (simp add: password_row_def)

lemmas find_after_update =
  consume_row.find_upd revoke_one.find_upd revoke_all.find_upd bump.find_upd new_password.find_upd

lemmas row_defs = revoke_row_def bump_row_def password_row_def

lemma row_frames [simp]:
  "us_email (bump_row now i u) = us_email u"
  "us_email (password_row now i h u) = us_email u"
  "us_id (bump_row now i u) = us_id u"
  "us_id (password_row now i h u) = us_id u"
  "us_token_version (password_row now i h u) = us_token_version u"
  "us_full_name (password_row now i h u) = us_full_name u"
  "us_full_name (bump_row now i u) = us_full_name u"
  "us_password_hash (bump_row now i u) = us_password_hash u"
  "rt_token (revoke_row k) = rt_token k"
  "rt_user_id (revoke_row k) = rt_user_id k"
  "rt_org_id (revoke_row k) = rt_org_id k"
  "rt_expires_at (revoke_row k) = rt_expires_at k"
  "rt_revoked (revoke_row k) = True"
  by (simp_all add: row_defs)

subsection \<open>Statements keep the tables intact\<close>

definition stmt_ok :: "ext \<Rightarrow> 'a stmt \<Rightarrow> bool" where
  "stmt_ok x s \<longleftrightarrow> (\<forall>d. db_ok x d \<longrightarrow> db_ok x (snd (s d)))"

lemma stmt_ok_query: "stmt_ok x (\<lambda>d. (f d, d))"
  by (simp add: stmt_ok_def)

lemma stmt_ok_insert_user: "stmt_ok x (insert_user x now i email hash name)"
  by (auto simp: stmt_ok_def insert_user_def Let_def db_ok_defs list_ex_iff max_int32_def)

lemma stmt_ok_insert_org: "stmt_ok x (insert_org now i name)"
  by (auto simp: stmt_ok_def insert_org_def Let_def db_ok_defs list_ex_iff)

lemma stmt_ok_insert_membership: "stmt_ok x (insert_membership now i u r role)"
  by (auto simp: stmt_ok_def insert_membership_def Let_def db_ok_defs list_ex_iff
      find_user_None_iff find_org_None_iff)

lemma stmt_ok_insert_token: "stmt_ok x (insert_token now t u r expires)"
  by (auto simp: stmt_ok_def insert_token_def Let_def db_ok_defs list_ex_iff
      find_user_None_iff find_org_None_iff)

lemma tokens_ok_map:
  assumes "tokens_ok d"
    and "\<And>k. rt_token (f k) = rt_token k" "\<And>k. rt_user_id (f k) = rt_user_id k"
      "\<And>k. rt_org_id (f k) = rt_org_id k"
  shows "tokens_ok (d\<lparr>refresh_tokens := map f (refresh_tokens d)\<rparr>)"
  using assms by (auto simp: tokens_ok_def o_def)

lemma db_ok_map_tokens:
  assumes "db_ok x d"
    and "\<And>k. rt_token (f k) = rt_token k" "\<And>k. rt_user_id (f k) = rt_user_id k"
      "\<And>k. rt_org_id (f k) = rt_org_id k"
  shows "db_ok x (d\<lparr>refresh_tokens := map f (refresh_tokens d)\<rparr>)"
  using assms tokens_ok_map [of d f] by (simp add: db_ok_def users_ok_def memberships_ok_def)

lemma stmt_ok_consume: "stmt_ok x (consume_token now t)"
  by (simp add: stmt_ok_def consume_token_def db_ok_map_tokens)

lemma stmt_ok_revoke: "stmt_ok x (revoke_token t)" "stmt_ok x (revoke_user_tokens u)"
  by (simp_all add: stmt_ok_def revoke_token_def revoke_user_tokens_def db_ok_map_tokens)

lemma db_ok_map_users:
  assumes "db_ok x d"
    and "\<And>u. us_id (f u) = us_id u" "\<And>u. us_email (f u) = us_email u"
    and "\<And>u. u \<in> set (users d) \<Longrightarrow> 0 \<le> us_token_version (f u) \<and> us_token_version (f u) \<le> max_int32"
  shows "db_ok x (d\<lparr>users := map f (users d)\<rparr>)"
  using assms by (auto simp: db_ok_defs o_def image_image)

lemma version_bounds:
  "db_ok x d \<Longrightarrow> u \<in> set (users d) \<Longrightarrow> 0 \<le> us_token_version u \<and> us_token_version u \<le> max_int32"
  by (simp add: db_ok_def users_ok_def)

lemma stmt_ok_password: "stmt_ok x (update_password now i hash)"
  unfolding stmt_ok_def update_password_def snd_conv
  by (intro allI impI db_ok_map_users) (simp_all add: version_bounds)

lemma stmt_ok_increment: "stmt_ok x (increment_version now i)"
proof -
  have "db_ok x (snd (increment_version now i d))" if ok: "db_ok x d" for d
  proof (cases "list_ex (\<lambda>u. us_id u = i \<and> us_token_version u \<ge> max_int32) (users d)")
    case True
    with ok show ?thesis by (simp add: increment_version_def)
  next
    case False
    then have small: "us_id u = i \<Longrightarrow> us_token_version u < max_int32" if "u \<in> set (users d)" for u
      using that by (auto simp: list_ex_iff)
    have "db_ok x (d\<lparr>users := map (bump_row now i) (users d)\<rparr>)"
    proof (rule db_ok_map_users [OF ok])
      fix u
      assume u: "u \<in> set (users d)"
      show "0 \<le> us_token_version (bump_row now i u) \<and> us_token_version (bump_row now i u) \<le> max_int32"
        using version_bounds [OF ok u] small [OF u] by (auto simp: bump_row_def)
    qed simp_all
    with False show ?thesis by (simp add: increment_version_def)
  qed
  then show ?thesis by (simp add: stmt_ok_def)
qed

lemmas stmt_ok_intros =
  stmt_ok_query stmt_ok_insert_user stmt_ok_insert_org stmt_ok_insert_membership
  stmt_ok_insert_token stmt_ok_consume stmt_ok_revoke stmt_ok_password stmt_ok_increment

subsection \<open>Evolution\<close>

definition user_le :: "user \<Rightarrow> user \<Rightarrow> bool" where
  "user_le u v \<longleftrightarrow> us_id v = us_id u \<and> us_email v = us_email u \<and> us_full_name v = us_full_name u
     \<and> us_token_version u \<le> us_token_version v"

definition token_le :: "refresh_token \<Rightarrow> refresh_token \<Rightarrow> bool" where
  "token_le k l \<longleftrightarrow> rt_token l = rt_token k \<and> rt_user_id l = rt_user_id k
     \<and> rt_org_id l = rt_org_id k \<and> rt_expires_at l = rt_expires_at k
     \<and> (rt_revoked k \<longrightarrow> rt_revoked l)"

definition db_le :: "database \<Rightarrow> database \<Rightarrow> bool" where
  "db_le d e \<longleftrightarrow>
     (\<forall>i u. find_user i d = Some u \<longrightarrow> (\<exists>v. find_user i e = Some v \<and> user_le u v))
     \<and> (\<forall>t k. find_token t d = Some k \<longrightarrow> (\<exists>l. find_token t e = Some l \<and> token_le k l))
     \<and> (\<forall>i r. find_org i d = Some r \<longrightarrow> find_org i e = Some r)
     \<and> (\<forall>u i m. find_membership u i d = Some m \<longrightarrow> find_membership u i e = Some m)"

lemma user_le_refl: "user_le u u" and token_le_refl: "token_le k k"
  by (simp_all add: user_le_def token_le_def)

lemma user_le_trans: "user_le u v \<Longrightarrow> user_le v w \<Longrightarrow> user_le u w"
  and token_le_trans: "token_le k l \<Longrightarrow> token_le l m \<Longrightarrow> token_le k m"
  by (auto simp: user_le_def token_le_def)

lemma db_le_refl: "db_le d d"
  by (auto simp: db_le_def user_le_refl token_le_refl)

lemma db_le_trans: "db_le d e \<Longrightarrow> db_le e f \<Longrightarrow> db_le d f"
  unfolding db_le_def by (meson user_le_trans token_le_trans)

definition world_le :: "world \<Rightarrow> world \<Rightarrow> bool" where
  "world_le v w \<longleftrightarrow> db_le (db v) (db w)"

interpretation evolution: world_order world_le
  by unfold_locales (auto simp: world_le_def db_le_refl intro: db_le_trans)

definition stmt_le :: "'a stmt \<Rightarrow> bool" where
  "stmt_le s \<longleftrightarrow> (\<forall>d. db_le d (snd (s d)))"

lemma stmt_le_query: "stmt_le (\<lambda>d. (f d, d))"
  by (simp add: stmt_le_def db_le_refl)

lemmas find_defs = find_user_def find_token_def find_org_def find_membership_def

lemma db_le_append:
  "db_le d (d\<lparr>users := users d @ us\<rparr>)"
  "db_le d (d\<lparr>orgs := orgs d @ rs\<rparr>)"
  "db_le d (d\<lparr>org_memberships := org_memberships d @ ms\<rparr>)"
  "db_le d (d\<lparr>refresh_tokens := refresh_tokens d @ ks\<rparr>)"
  by (auto simp: db_le_def find_defs find_append user_le_refl token_le_refl)

lemma stmt_le_inserts:
  "stmt_le (insert_user x now i email hash name)"
  "stmt_le (insert_org now i name)"
  "stmt_le (insert_membership now i u r role)"
  "stmt_le (insert_token now t u r expires)"
  by (simp_all add: stmt_le_def insert_user_def insert_org_def insert_membership_def
      insert_token_def Let_def db_le_append db_le_refl)

lemma db_le_map_tokens:
  assumes "\<And>k. token_le k (f k)"
  shows "db_le d (d\<lparr>refresh_tokens := map f (refresh_tokens d)\<rparr>)"
proof -
  from assms have "rt_token (f k) = rt_token k" for k by (simp add: token_le_def)
  then have "find_token t (d\<lparr>refresh_tokens := map f (refresh_tokens d)\<rparr>)
      = map_option f (find_token t d)" for t
    by (simp add: find_token_def row_update.find_upd row_update_def)
  with assms show ?thesis
    by (auto simp: db_le_def user_le_refl find_user_def find_org_def find_membership_def)
qed

lemma db_le_map_users:
  assumes "\<And>u. user_le u (f u)"
  shows "db_le d (d\<lparr>users := map f (users d)\<rparr>)"
proof -
  from assms have "us_id (f u) = us_id u" for u by (simp add: user_le_def)
  then have "find_user i (d\<lparr>users := map f (users d)\<rparr>) = map_option f (find_user i d)" for i
    by (simp add: find_user_def row_update.find_upd row_update_def)
  with assms show ?thesis
    by (auto simp: db_le_def token_le_refl find_token_def find_org_def find_membership_def)
qed

lemma stmt_le_updates:
  "stmt_le (consume_token now t)" "stmt_le (revoke_token t)" "stmt_le (revoke_user_tokens u)"
  "stmt_le (update_password now i hash)" "stmt_le (increment_version now i)"
  by (auto simp: stmt_le_def consume_token_def revoke_token_def revoke_user_tokens_def
      update_password_def increment_version_def db_le_refl token_le_def user_le_def row_defs
      intro!: db_le_map_tokens db_le_map_users)

lemmas stmt_le_intros = stmt_le_query stmt_le_inserts stmt_le_updates

subsection \<open>Calls\<close>

lemma exec_db:
  "db (snd (exec s w)) = db w \<or> db (snd (exec s w)) = snd (s (db w))"
  by (auto simp: exec_def call_apply take_fault_def split: fault.splits prod.splits)

definition on_db :: "(database \<Rightarrow> bool) \<Rightarrow> world \<Rightarrow> bool" where
  "on_db I w \<longleftrightarrow> I (db w)"

lemma exec_preserves:
  assumes "stmt_ok x s" and "on_db (db_ok x) w"
  shows "on_db (db_ok x) (snd (exec s w))"
  using exec_db [of s w] assms by (auto simp: stmt_ok_def on_db_def)

lemma exec_evolves: "stmt_le s \<Longrightarrow> world_le w (snd (exec s w))"
  using exec_db [of s w] by (auto simp: stmt_le_def world_le_def db_le_refl)

lemma preserves_oracles:
  "preserves (on_db I) take_fault" "preserves (on_db I) rand_read"
  "preserves (on_db I) gen_random_uuid"
  by (simp_all add: preserves_def take_fault_def rand_read_def gen_random_uuid_def on_db_def)

lemma evolves_oracles:
  "evolves world_le take_fault" "evolves world_le rand_read" "evolves world_le gen_random_uuid"
  by (simp_all add: evolves_def take_fault_def rand_read_def gen_random_uuid_def world_le_def
      db_le_refl)

lemma preserves_exec: "(\<And>w. stmt_ok x (s w)) \<Longrightarrow> preserves (on_db (db_ok x)) (\<lambda>w. exec (s w) w)"
  by (simp add: preserves_def exec_preserves)

lemma evolves_exec: "(\<And>w. stmt_le (s w)) \<Longrightarrow> evolves world_le (\<lambda>w. exec (s w) w)"
  by (simp add: evolves_def exec_evolves)

lemmas preserves_exec_plain = preserves_exec [where s = "\<lambda>_. s" for s]
lemmas evolves_exec_plain = evolves_exec [where s = "\<lambda>_. s" for s]

lemma queries_preserve [intro!]:
  "preserves (on_db (db_ok x)) (ConsumeRefreshToken t)"
  "preserves (on_db (db_ok x)) (CreateOrg name)"
  "preserves (on_db (db_ok x)) (CreateOrgMembership u r role)"
  "preserves (on_db (db_ok x)) (CreateRefreshToken t u r expires)"
  "preserves (on_db (db_ok x)) (CreateUser x email hash name)"
  "preserves (on_db (db_ok x)) (GetOrg i)"
  "preserves (on_db (db_ok x)) (GetOrgMembershipByUser u r)"
  "preserves (on_db (db_ok x)) (GetUserByEmail x email)"
  "preserves (on_db (db_ok x)) (GetUserByID i)"
  "preserves (on_db (db_ok x)) (IncrementUserTokenVersion i)"
  "preserves (on_db (db_ok x)) (ListOrgMembershipsByUser u)"
  "preserves (on_db (db_ok x)) (RevokeAllUserRefreshTokens u)"
  "preserves (on_db (db_ok x)) (RevokeRefreshToken t)"
  "preserves (on_db (db_ok x)) (UpdateUserPassword i hash)"
  unfolding query_defs
  by (intro preserves_exec preserves_exec_plain preserves_attempt preserves_oracles stmt_ok_intros)+

lemma queries_evolve [intro!]:
  "evolves world_le (ConsumeRefreshToken t)"
  "evolves world_le (CreateOrg name)"
  "evolves world_le (CreateOrgMembership u r role)"
  "evolves world_le (CreateRefreshToken t u r expires)"
  "evolves world_le (CreateUser x email hash name)"
  "evolves world_le (GetOrg i)"
  "evolves world_le (GetOrgMembershipByUser u r)"
  "evolves world_le (GetUserByEmail x email)"
  "evolves world_le (GetUserByID i)"
  "evolves world_le (IncrementUserTokenVersion i)"
  "evolves world_le (ListOrgMembershipsByUser u)"
  "evolves world_le (RevokeAllUserRefreshTokens u)"
  "evolves world_le (RevokeRefreshToken t)"
  "evolves world_le (UpdateUserPassword i hash)"
  unfolding query_defs
  by (intro evolves_exec evolves_exec_plain evolution.evolves_attempt evolves_oracles stmt_le_intros)+

end
