(* ===== verification/Transactions.thy ===== *)
theory Transactions
  imports DbProps
begin

text \<open>
  Transactions: a failed one leaves the tables as they were, unless the commit itself was
  reported as failed after the server had done it; a successful one is the run of its body.
  Integrity and evolution pass from the body to the transaction.
\<close>

definition next_fault :: "world \<Rightarrow> world" where
  "next_fault w = w\<lparr>fault_pos := Suc (fault_pos w)\<rparr>"

lemma next_fault_simps [simp]:
  "db (next_fault w) = db w" "cache (next_fault w) = cache w" "outbox (next_fault w) = outbox w"
  "app_now (next_fault w) = app_now w" "db_now (next_fault w) = db_now w"
  "redis_now (next_fault w) = redis_now w" "faults (next_fault w) = faults w"
  "rand_src (next_fault w) = rand_src w" "rand_pos (next_fault w) = rand_pos w"
  "uuid_src (next_fault w) = uuid_src w" "uuid_pos (next_fault w) = uuid_pos w"
  "fault_pos (next_fault w) = Suc (fault_pos w)"
  by (simp_all add: next_fault_def)

lemma take_fault_eq: "take_fault w = (Inr (faults w (fault_pos w)), next_fault w)"
  by (simp add: take_fault_def next_fault_def)

lemma exec_eq:
  "exec s w = (case faults w (fault_pos w) of
       NoFault \<Rightarrow> (fst (s (db w)), next_fault w\<lparr>db := snd (s (db w))\<rparr>)
     | FailBefore \<Rightarrow> (Inl ErrConn, next_fault w)
     | FailAfter \<Rightarrow> (Inl ErrConn, next_fault w\<lparr>db := snd (s (db w))\<rparr>))"
  by (simp add: exec_def call_apply take_fault_eq split: fault.splits prod.splits)

text \<open>The transaction, case by case.\<close>

lemma WithTx_eq:
  "WithTx fn w =
     (if faults w (fault_pos w) \<noteq> NoFault
      then (Inl (ErrWrap ''begin transaction'' ErrConn), next_fault w)
      else case fn (next_fault w) of
          (Inl e, w2) \<Rightarrow>
            (Inl (if faults w2 (fault_pos w2) = NoFault then e else ErrWrap ''rollback failed'' e),
             next_fault w2\<lparr>db := db w\<rparr>)
        | (Inr a, w2) \<Rightarrow>
            (case faults w2 (fault_pos w2) of
               NoFault \<Rightarrow> (Inr a, next_fault w2)
             | FailBefore \<Rightarrow>
                 (Inl (ErrWrap ''commit transaction'' ErrConn), next_fault w2\<lparr>db := db w\<rparr>)
             | FailAfter \<Rightarrow> (Inl (ErrWrap ''commit transaction'' ErrConn), next_fault w2)))"
  by (simp add: WithTx_def begin_tx_def rollback_tx_def commit_tx_def call_defs take_fault_eq
      split: prod.splits sum.splits fault.splits)

lemma WithTx_db:
  "db (snd (WithTx fn w)) = db w \<or> db (snd (WithTx fn w)) = db (snd (fn (next_fault w)))"
  by (auto simp: WithTx_eq split: prod.splits sum.splits fault.splits)

lemma WithTx_commit:
  assumes "WithTx fn w = (Inr a, w')"
  shows "\<exists>w2. fn (next_fault w) = (Inr a, w2) \<and> w' = next_fault w2"
  using assms by (auto simp: WithTx_eq split: prod.splits sum.splits fault.splits if_splits)

lemma WithTx_abort:
  assumes "WithTx fn w = (Inl e, w')"
  shows "db w' = db w \<or> e = ErrWrap ''commit transaction'' ErrConn"
  using assms by (auto simp: WithTx_eq split: prod.splits sum.splits fault.splits if_splits)

lemma preserves_WithTx:
  assumes "preserves (on_db I) fn"
  shows "preserves (on_db I) (WithTx fn)"
proof -
  have "on_db I (snd (WithTx fn w))" if "on_db I w" for w
    using WithTx_db [of fn w] preservesD [OF assms, of "next_fault w"] that
    by (auto simp: on_db_def)
  then show ?thesis by (simp add: preserves_def)
qed

lemma evolves_WithTx:
  assumes "evolves world_le fn"
  shows "evolves world_le (WithTx fn)"
proof -
  have "world_le w (snd (WithTx fn w))" for w
    using WithTx_db [of fn w] assms [unfolded evolves_def, rule_format, of "next_fault w"]
    by (auto simp: world_le_def db_le_refl)
  then show ?thesis by (simp add: evolves_def)
qed

lemma preserves_WithTxQueries:
  "preserves (on_db I) fn \<Longrightarrow> preserves (on_db I) (WithTxQueries fn)"
  by (simp add: WithTxQueries_def preserves_WithTx)

lemma evolves_WithTxQueries: "evolves world_le fn \<Longrightarrow> evolves world_le (WithTxQueries fn)"
  by (simp add: WithTxQueries_def evolves_WithTx)

text \<open>Without faults, calls are their statements.\<close>

definition healthy :: "world \<Rightarrow> bool" where
  "healthy w \<longleftrightarrow> (\<forall>n \<ge> fault_pos w. faults w n = NoFault)"

lemma healthyD [simp]: "healthy w \<Longrightarrow> faults w (fault_pos w) = NoFault"
  by (simp add: healthy_def)

lemma healthy_next [simp]: "healthy w \<Longrightarrow> healthy (next_fault w)"
  by (simp add: healthy_def)

lemma healthy_update [simp]:
  "healthy (w\<lparr>db := d\<rparr>) = healthy w" "healthy (w\<lparr>cache := c\<rparr>) = healthy w"
  "healthy (w\<lparr>rand_pos := r\<rparr>) = healthy w" "healthy (w\<lparr>uuid_pos := u\<rparr>) = healthy w"
  "healthy (w\<lparr>outbox := b\<rparr>) = healthy w"
  by (simp_all add: healthy_def)

lemma exec_healthy:
  "healthy w \<Longrightarrow> exec s w = (fst (s (db w)), next_fault w\<lparr>db := snd (s (db w))\<rparr>)"
  by (simp add: exec_eq)

lemma WithTx_healthy:
  assumes "healthy w" and "healthy (snd (fn (next_fault w)))"
  shows "WithTx fn w = (case fn (next_fault w) of
      (Inl e, w2) \<Rightarrow> (Inl e, next_fault w2\<lparr>db := db w\<rparr>)
    | (Inr a, w2) \<Rightarrow> (Inr a, next_fault w2))"
  using assms by (auto simp: WithTx_eq split: prod.splits sum.splits)

end
