(* ===== verification/Cache.thy ===== *)
theory Cache
  imports Transactions
begin

text \<open>
  The three ways the program uses Redis: \<open>SET\<close> with a lifetime and \<open>GETDEL\<close> for
  password resets (\<open>internal/auth/service.go\<close>), and the rate limiter's script
  (\<open>internal/middleware/ratelimit.go\<close>), which the server runs atomically. A key whose
  lifetime has passed is absent.
\<close>

definition live :: "time \<Rightarrow> keyspace \<Rightarrow> string \<Rightarrow> redis_value option" where
  "live now ks k = (case ks k of
     None \<Rightarrow> None
   | Some (v, None) \<Rightarrow> Some v
   | Some (v, Some t) \<Rightarrow> if now < t then Some v else None)"

definition int_text :: "int \<Rightarrow> string" where
  "int_text n = (if n < 0 then CHR ''-'' # decimal (nat (- n)) else decimal (nat n))"

definition redis_text :: "redis_value \<Rightarrow> string" where
  "redis_text v = (case v of RStr s \<Rightarrow> s | RInt n \<Rightarrow> int_text n)"

type_synonym 'a command = "time \<Rightarrow> keyspace \<Rightarrow> (err + 'a) \<times> keyspace"

definition redis_call :: "'a command \<Rightarrow> 'a op" where
  "redis_call c = call take_fault (\<lambda>f w.
     (case f of
        Inr NoFault \<Rightarrow> (case c (redis_now w) (cache w) of (r, ks) \<Rightarrow> (r, w\<lparr>cache := ks\<rparr>))
      | Inr FailAfter \<Rightarrow> (Inl ErrConn, w\<lparr>cache := snd (c (redis_now w) (cache w))\<rparr>)
      | _ \<Rightarrow> (Inl ErrConn, w)))"

definition set_command :: "string \<Rightarrow> string \<Rightarrow> duration \<Rightarrow> unit command" where
  "set_command k v ttl now ks = (Inr (), ks(k \<mapsto> (RStr v, Some (now + ttl))))"

definition getdel_command :: "string \<Rightarrow> string command" where
  "getdel_command k now ks =
     (case live now ks k of None \<Rightarrow> Inl ErrCacheNil | Some v \<Rightarrow> Inr (redis_text v), ks(k := None))"

text \<open>\<open>INCR\<close> of an absent key gives 1 without a lifetime and keeps the lifetime otherwise.\<close>

definition max_int64 :: int where
  "max_int64 = 9223372036854775807"

definition incr_command :: "string \<Rightarrow> int command" where
  "incr_command k now ks = (case live now ks k of
     None \<Rightarrow> (Inr 1, ks(k \<mapsto> (RInt 1, None)))
   | Some (RStr s) \<Rightarrow> (Inl ErrCacheType, ks)
   | Some (RInt n) \<Rightarrow>
       if n \<ge> max_int64 then (Inl ErrCacheType, ks)
       else (Inr (n + 1), ks(k \<mapsto> (RInt (n + 1), (case ks k of Some (_, t) \<Rightarrow> t | None \<Rightarrow> None)))))"

definition pexpire_command :: "string \<Rightarrow> duration \<Rightarrow> unit command" where
  "pexpire_command k ttl now ks =
     (Inr (), case ks k of None \<Rightarrow> ks | Some (v, _) \<Rightarrow> ks(k \<mapsto> (v, Some (now + ttl))))"

text \<open>
  \<open>local count = INCR KEYS[1]; if count == 1 then PEXPIRE KEYS[1] ARGV[1] end; return count\<close>
\<close>

definition rateLimitScript :: "string \<Rightarrow> duration \<Rightarrow> int command" where
  "rateLimitScript k window now ks = (case incr_command k now ks of
     (Inl e, ks1) \<Rightarrow> (Inl e, ks1)
   | (Inr count, ks1) \<Rightarrow>
       (Inr count, if count = 1 then snd (pexpire_command k window now ks1) else ks1))"

lemma redis_call_eq:
  "redis_call c w = (case faults w (fault_pos w) of
       NoFault \<Rightarrow> (fst (c (redis_now w) (cache w)),
                   next_fault w\<lparr>cache := snd (c (redis_now w) (cache w))\<rparr>)
     | FailBefore \<Rightarrow> (Inl ErrConn, next_fault w)
     | FailAfter \<Rightarrow> (Inl ErrConn, next_fault w\<lparr>cache := snd (c (redis_now w) (cache w))\<rparr>))"
  by (simp add: redis_call_def call_apply take_fault_eq split: fault.splits prod.splits)

lemma redis_call_healthy:
  "healthy w \<Longrightarrow> redis_call c w = (fst (c (redis_now w) (cache w)),
     next_fault w\<lparr>cache := snd (c (redis_now w) (cache w))\<rparr>)"
  by (simp add: redis_call_eq)

lemma redis_call_db [simp]: "db (snd (redis_call c w)) = db w"
  by (simp add: redis_call_eq split: fault.splits)

lemma redis_call_cache:
  "cache (snd (redis_call c w)) = cache w \<or> cache (snd (redis_call c w)) = snd (c (redis_now w) (cache w))"
  by (auto simp: redis_call_eq split: fault.splits)

lemma preserves_redis [intro!]: "preserves (on_db I) (redis_call c)"
  by (simp add: preserves_def on_db_def)

lemma evolves_redis [intro!]: "evolves world_le (redis_call c)"
  by (simp add: evolves_def world_le_def db_le_refl)

subsection \<open>The counter\<close>

text \<open>
  Between two expiries the script counts: the first call gives 1 and starts the window, later
  calls in the window give the successor and leave its end where it was.
\<close>

lemma script_first:
  "live now ks k = None
   \<Longrightarrow> rateLimitScript k window now ks = (Inr 1, ks(k \<mapsto> (RInt 1, Some (now + window))))"
  by (simp add: rateLimitScript_def incr_command_def pexpire_command_def)

lemma script_next:
  "ks k = Some (RInt n, Some t) \<Longrightarrow> now < t \<Longrightarrow> 1 \<le> n \<Longrightarrow> n < max_int64
   \<Longrightarrow> rateLimitScript k window now ks = (Inr (n + 1), ks(k \<mapsto> (RInt (n + 1), Some t)))"
  by (simp add: rateLimitScript_def incr_command_def live_def)

lemma script_other_key:
  "j \<noteq> k \<Longrightarrow> snd (rateLimitScript k window now ks) j = ks j"
  by (auto simp: rateLimitScript_def incr_command_def pexpire_command_def
      split: prod.splits option.splits redis_value.splits sum.splits if_splits)

end
