(* ===== verification/NetIP.thy ===== *)
theory NetIP
  imports GoStrings
begin

unbundle bit_operations_syntax

text \<open>
  The part of Go's package \<open>net\<close> that configuration and rate limiting use: addresses as
  16 bytes (an IPv4 address in its IPv4-mapped form), \<open>ParseIP\<close>, \<open>ParseCIDR\<close>,
  \<open>IPNet.Contains\<close> and \<open>SplitHostPort\<close>.
\<close>

type_synonym ip = "8 word list"

definition is_digit :: "char \<Rightarrow> bool" where
  "is_digit c \<longleftrightarrow> in_range 48 57 (of_char c)"

definition digits_value :: "string \<Rightarrow> nat" where
  "digits_value s = foldl (\<lambda>v c. v * 10 + (of_char c - 48)) 0 s"

subsection \<open>IPv4\<close>

text \<open>One octet: decimal digits without a leading zero, at most 255.\<close>

definition parse_octet :: "string \<Rightarrow> 8 word option" where
  "parse_octet s =
     (if s = [] \<or> length s > 3 \<or> \<not> list_all is_digit s \<or> (length s > 1 \<and> hd s = CHR ''0'')
         \<or> digits_value s > 255
      then None else Some (of_nat (digits_value s)))"

definition parse_v4_fields :: "string \<Rightarrow> ip option" where
  "parse_v4_fields s = (case split_on CHR ''.'' s of
     [a, b, c, d] \<Rightarrow>
       (case (parse_octet a, parse_octet b, parse_octet c, parse_octet d) of
          (Some p, Some q, Some r, Some t) \<Rightarrow> Some [p, q, r, t]
        | _ \<Rightarrow> None)
   | _ \<Rightarrow> None)"

definition v4_in_v6_prefix :: ip where
  "v4_in_v6_prefix = replicate 10 0 @ [255, 255]"

subsection \<open>IPv6\<close>

definition hex_value :: "char \<Rightarrow> nat option" where
  "hex_value c = (let n = of_char c in
     if in_range 48 57 n then Some (n - 48)
     else if in_range 97 102 n then Some (n - 87)
     else if in_range 65 70 n then Some (n - 55)
     else None)"

definition hex_group :: "string \<Rightarrow> nat" where
  "hex_group s = foldl (\<lambda>v c. v * 16 + (case hex_value c of Some d \<Rightarrow> d | None \<Rightarrow> 0)) 0 s"

text \<open>
  The loop of \<open>netip.parseIPv6\<close>. \<open>bs\<close> are the bytes read so far, \<open>ell\<close> the position
  of the ellipsis. The loop reads two bytes a round and stops at sixteen, so eight rounds are
  all there can be. Nothing is left of the text in a successful result.
\<close>

fun v6_loop :: "nat \<Rightarrow> string \<Rightarrow> ip \<Rightarrow> nat option \<Rightarrow> (ip \<times> nat option) option" where
  "v6_loop 0 s bs ell = (if s = [] then Some (bs, ell) else None)"
| "v6_loop (Suc n) s bs ell =
     (let h = takeWhile (\<lambda>c. hex_value c \<noteq> None) s; rest = dropWhile (\<lambda>c. hex_value c \<noteq> None) s
      in if h = [] \<or> length h > 4 then None
         else case rest of
             [] \<Rightarrow> Some (bs @ [of_nat (hex_group h div 256), of_nat (hex_group h mod 256)], ell)
           | c # rest' \<Rightarrow>
               if c = CHR ''.'' then
                 (if (ell = None \<and> length bs \<noteq> 12) \<or> length bs + 4 > 16 then None
                  else case parse_v4_fields s of None \<Rightarrow> None | Some q \<Rightarrow> Some (bs @ q, ell))
               else if c \<noteq> CHR '':'' \<or> rest' = [] then None
               else
                 (let bs' = bs @ [of_nat (hex_group h div 256), of_nat (hex_group h mod 256)]
                  in case rest' of
                      d # rest'' \<Rightarrow>
                        if d = CHR '':'' then
                          (if ell \<noteq> None then None
                           else if rest'' = [] then Some (bs', Some (length bs'))
                           else v6_loop n rest'' bs' (Some (length bs')))
                        else v6_loop n rest' bs' ell
                    | [] \<Rightarrow> None))"

definition expand_ellipsis :: "ip \<times> nat option \<Rightarrow> ip option" where
  "expand_ellipsis p = (case p of (bs, ell) \<Rightarrow>
     if length bs < 16 then
       (case ell of None \<Rightarrow> None
        | Some k \<Rightarrow> Some (take k bs @ replicate (16 - length bs) 0 @ drop k bs))
     else if ell = None then Some bs else None)"

definition parse_v6 :: "string \<Rightarrow> ip option" where
  "parse_v6 s =
     (if has_prefix s ''::'' then
        (if drop 2 s = [] then Some (replicate 16 0)
         else Option.bind (v6_loop 8 (drop 2 s) [] (Some 0)) expand_ellipsis)
      else Option.bind (v6_loop 8 s [] None) expand_ellipsis)"

subsection \<open>ParseIP, ParseCIDR, Contains\<close>

text \<open>
  \<open>netip.ParseAddr\<close>: the first of dot, colon and percent sign decides. A zone makes
  \<open>net.ParseIP\<close> and \<open>net.ParseCIDR\<close> fail, so texts with a percent sign have no
  address. The flag tells whether the address was written as IPv4 (\<open>BitLen\<close> 32).
\<close>

definition parse_addr :: "string \<Rightarrow> (bool \<times> ip) option" where
  "parse_addr s =
     (if CHR ''%'' \<in> set s then None
      else case dropWhile (\<lambda>c. c \<noteq> CHR ''.'' \<and> c \<noteq> CHR '':'') s of
          [] \<Rightarrow> None
        | c # _ \<Rightarrow>
            if c = CHR ''.'' then map_option (\<lambda>q. (True, v4_in_v6_prefix @ q)) (parse_v4_fields s)
            else map_option (Pair False) (parse_v6 s))"

definition parse_ip :: "string \<Rightarrow> ip option" where
  "parse_ip s = map_option snd (parse_addr s)"

text \<open>\<open>IP.To4\<close>.\<close>

definition to4 :: "ip \<Rightarrow> ip option" where
  "to4 a =
     (if length a = 4 then Some a
      else if length a = 16 \<and> take 12 a = v4_in_v6_prefix then Some (drop 12 a)
      else None)"

record ipnet =
  net_ip :: ip
  net_mask :: ip

definition mask_byte :: "nat \<Rightarrow> 8 word" where
  "mask_byte n = of_nat (256 - 2 ^ (8 - min n 8))"

definition cidr_mask :: "nat \<Rightarrow> nat \<Rightarrow> ip" where
  "cidr_mask ones bytes = map (\<lambda>i. mask_byte (ones - 8 * i)) [0..<bytes]"

definition apply_mask :: "ip \<Rightarrow> ip \<Rightarrow> ip" where
  "apply_mask a m = map2 (AND) a m"

definition parse_cidr :: "string \<Rightarrow> ipnet option" where
  "parse_cidr s = (case split_n2 CHR ''/'' s of
     [addr, bits] \<Rightarrow>
       (case parse_addr addr of
          None \<Rightarrow> None
        | Some (is4, a) \<Rightarrow>
            if bits = [] \<or> \<not> list_all is_digit bits
               \<or> digits_value bits > (if is4 then 32 else 128) then None
            else if is4 then
              (let m = cidr_mask (digits_value bits) 4
               in Some \<lparr>net_ip = apply_mask (drop 12 a) m, net_mask = m\<rparr>)
            else
              (let m = cidr_mask (digits_value bits) 16
               in Some \<lparr>net_ip = apply_mask a m, net_mask = m\<rparr>))
   | _ \<Rightarrow> None)"

text \<open>\<open>networkNumberAndMask\<close> and \<open>IPNet.Contains\<close>.\<close>

definition network_and_mask :: "ipnet \<Rightarrow> (ip \<times> ip) option" where
  "network_and_mask n =
     (let i = (case to4 (net_ip n) of Some q \<Rightarrow> q | None \<Rightarrow> net_ip n)
      in if length i \<noteq> 4 \<and> length i \<noteq> 16 then None
         else if length (net_mask n) = length i then Some (i, net_mask n)
         else if length (net_mask n) = 16 \<and> length i = 4 then Some (i, drop 12 (net_mask n))
         else None)"

definition contains :: "ipnet \<Rightarrow> ip \<Rightarrow> bool" where
  "contains n a = (case network_and_mask n of
     None \<Rightarrow> False
   | Some (nn, m) \<Rightarrow>
       (let b = (case to4 a of Some q \<Rightarrow> q | None \<Rightarrow> a)
        in length b = length nn \<and> apply_mask nn m = apply_mask b m))"

subsection \<open>SplitHostPort\<close>

text \<open>
  \<open>net.SplitHostPort\<close>: the host of \<open>host:port\<close> or \<open>[host]:port\<close>, \<open>None\<close> for an
  error. The port starts after the last colon.
\<close>

definition last_colon :: "string \<Rightarrow> (string \<times> string) option" where
  "last_colon s =
     (let r = rev s; port = takeWhile (\<lambda>c. c \<noteq> CHR '':'') r; rest = dropWhile (\<lambda>c. c \<noteq> CHR '':'') r
      in case rest of [] \<Rightarrow> None | _ # host \<Rightarrow> Some (rev host, rev port))"

definition split_host_port :: "string \<Rightarrow> string option" where
  "split_host_port s = (case last_colon s of
     None \<Rightarrow> None
   | Some (host, port) \<Rightarrow>
       if s \<noteq> [] \<and> hd s = CHR ''['' then
         (if \<not> CHR '']'' \<in> set s then None
          else let inner = takeWhile (\<lambda>c. c \<noteq> CHR '']'') (tl s);
                   after = tl (dropWhile (\<lambda>c. c \<noteq> CHR '']'') (tl s))
               in if after \<noteq> CHR '':'' # port then None
                  else if CHR ''['' \<in> set inner \<or> CHR ''['' \<in> set after \<or> CHR '']'' \<in> set after then None
                  else Some inner)
       else if CHR '':'' \<in> set host then None
       else if CHR ''['' \<in> set s \<or> CHR '']'' \<in> set s then None
       else Some host)"

end
