(* ===== verification/Security.thy ===== *)
theory Security
  imports Cache NetIP
begin

text \<open>
  \<open>internal/auth/security.go\<close>: normalisation of e-mail addresses, the password policy,
  the digest under which opaque tokens are stored. Of \<open>net/mail.ParseAddress\<close> the model
  has the form \<open>normalizeEmail\<close> can accept: an address specification with a dot-atom before
  the @ and a dot-atom or an address literal after it. Every other form (display name, quoted
  local part, comment, group, surrounding space) either fails to parse or yields an address
  shorter than the text, which differs from it.
\<close>

definition is_atext_rune :: "rune \<Rightarrow> bool" where
  "is_atext_rune r \<longleftrightarrow>
     r \<notin> set (map of_char ''()<>[]:;@,'') \<and> r \<noteq> 92 \<and> r \<noteq> 34
     \<and> (in_range 33 126 r \<or> 128 \<le> r)"

definition is_dtext_rune :: "rune \<Rightarrow> bool" where
  "is_dtext_rune r \<longleftrightarrow> r \<noteq> 91 \<and> r \<noteq> 93 \<and> r \<noteq> 92 \<and> (in_range 33 126 r \<or> 128 \<le> r)"

definition invalid_segment :: "rune \<times> string \<Rightarrow> bool" where
  "invalid_segment p \<longleftrightarrow> fst p = rune_error \<and> length (snd p) = 1"

fun double_dot :: "string \<Rightarrow> bool" where
  "double_dot (a # b # cs) = ((a = CHR ''.'' \<and> b = CHR ''.'') \<or> double_dot (b # cs))"
| "double_dot _ = False"

text \<open>\<open>consumeAtom(dot = true, permissive = false)\<close>: the atom and what is left.\<close>

definition consume_atom :: "(rune \<times> string) list \<Rightarrow> (string \<times> (rune \<times> string) list) option" where
  "consume_atom sg =
     (let ok = (\<lambda>p. \<not> invalid_segment p \<and> is_atext_rune (fst p));
          atom = concat (map snd (takeWhile ok sg));
          rest = dropWhile ok sg
      in if (case rest of p # _ \<Rightarrow> invalid_segment p | [] \<Rightarrow> False) then None
         else if atom = [] then None
         else if hd atom = CHR ''.'' \<or> double_dot atom \<or> last atom = CHR ''.'' then None
         else Some (atom, rest))"

definition consume_literal :: "(rune \<times> string) list \<Rightarrow> (string \<times> (rune \<times> string) list) option" where
  "consume_literal sg =
     (let ok = (\<lambda>p. \<not> invalid_segment p \<and> is_dtext_rune (fst p));
          dtext = concat (map snd (takeWhile ok sg))
      in case dropWhile ok sg of
           p # rest \<Rightarrow> if fst p = 93 \<and> parse_ip dtext \<noteq> None then Some (''['' @ dtext @ '']'', rest)
                       else None
         | [] \<Rightarrow> None)"

definition parse_address :: "string \<Rightarrow> string option" where
  "parse_address s = (case consume_atom (segments s) of
     Some (local_part, p # rest) \<Rightarrow>
       if fst p \<noteq> 64 then None
       else (case (case rest of
                     q # r \<Rightarrow> if fst q = 91 then consume_literal r else consume_atom rest
                   | [] \<Rightarrow> None) of
               Some (domain, []) \<Rightarrow> Some (local_part @ ''@'' @ domain)
             | _ \<Rightarrow> None)
   | _ \<Rightarrow> None)"

definition normalizeEmail :: "ext \<Rightarrow> string \<Rightarrow> err + string" where
  "normalizeEmail x email =
     (let normalized = to_lower (unicode x) (trim_space email)
      in if normalized = '''' then Inl ErrInvalidEmail
         else case parse_address normalized of
             None \<Rightarrow> Inl ErrInvalidEmail
           | Some addr \<Rightarrow> if addr \<noteq> normalized then Inl ErrInvalidEmail else Inr normalized)"

definition minPasswordLength :: nat where
  "minPasswordLength = 12"

text \<open>The loop over the runes with its three flags; a \<open>switch\<close> takes the first case.\<close>

fun scan_password :: "unicode_tables \<Rightarrow> rune list \<Rightarrow> bool \<times> bool \<times> bool \<Rightarrow> bool \<times> bool \<times> bool" where
  "scan_password u [] flags = flags"
| "scan_password u (r # rs) (up, low, dig) =
     scan_password u rs
       (if is_upper_rune u r then (True, low, dig)
        else if is_lower_rune u r then (up, True, dig)
        else if is_digit_rune u r then (up, low, True)
        else (up, low, dig))"

definition validatePassword :: "ext \<Rightarrow> string \<Rightarrow> err option" where
  "validatePassword x password =
     (if length password < minPasswordLength then Some ErrWeakPassword
      else case scan_password (unicode x) (runes password) (False, False, False) of
          (hasUpper, hasLower, hasDigit) \<Rightarrow>
            if \<not> hasUpper \<or> \<not> hasLower \<or> \<not> hasDigit then Some ErrWeakPassword else None)"

definition hashOpaqueToken :: "ext \<Rightarrow> string \<Rightarrow> string" where
  "hashOpaqueToken x token = hex_encode (sha256 x token)"

definition passwordResetCacheKey :: "ext \<Rightarrow> string \<Rightarrow> string" where
  "passwordResetCacheKey x token = ''pwreset:'' @ hashOpaqueToken x token"

end
