(* ===== verification/Tokens.thy ===== *)
theory Tokens
  imports Security
begin

text \<open>
  \<open>internal/auth/tokens.go\<close>: access tokens (signed JWTs) and opaque refresh tokens.
\<close>

subsection \<open>Operations\<close>

text \<open>\<open>GenerateRefreshToken\<close>: 32 random bytes in hexadecimal.\<close>

definition GenerateRefreshToken :: "string op" where
  "GenerateRefreshToken = attempt rand_read (\<lambda>b. ret (hex_encode b))"

definition GenerateAccessToken ::
    "ext \<Rightarrow> string \<Rightarrow> string \<Rightarrow> string \<Rightarrow> int \<Rightarrow> string \<Rightarrow> string \<Rightarrow> string \<Rightarrow> duration \<Rightarrow> string op" where
  "GenerateAccessToken x userID orgID role tokenVersion secret issuer audience expiry =
     (if secret = '''' then fail (ErrText ''auth: secret must not be empty'')
      else if issuer = '''' then fail (ErrText ''auth: issuer must not be empty'')
      else if audience = '''' then fail (ErrText ''auth: audience must not be empty'')
      else attempt GenerateRefreshToken (\<lambda>jti.
           attempt (read_world app_now) (\<lambda>now.
           case jwt_sign x secret
               \<lparr>cl_org_id = orgID, cl_role = role, cl_token_version = tokenVersion,
                cl_id = jti, cl_subject = userID, cl_issuer = issuer, cl_audience = [audience],
                cl_issued_at = jwt_numeric_date x now,
                cl_expires_at = jwt_numeric_date x (now + expiry)\<rparr> of
             None \<Rightarrow> fail (ErrJwt ''sign'')
           | Some t \<Rightarrow> ret t)))"

text \<open>The key function accepts HMAC methods only.\<close>

definition key_func :: "string \<Rightarrow> bool \<Rightarrow> string option" where
  "key_func secret hmac = (if hmac then Some secret else None)"

definition ValidateAccessToken ::
    "ext \<Rightarrow> time \<Rightarrow> string \<Rightarrow> string \<Rightarrow> string \<Rightarrow> string \<Rightarrow> err + claims" where
  "ValidateAccessToken x now tokenStr secret issuer audience =
     (case jwt_parse x now (key_func secret) issuer audience tokenStr of
        None \<Rightarrow> Inl (ErrJwt ''parse'')
      | Some (claims, valid) \<Rightarrow> if \<not> valid then Inl (ErrText ''invalid token'') else Inr claims)"

subsection \<open>What the JWT library is relied on for\<close>

text \<open>
  The documented behaviour of \<open>golang-jwt\<close> for tokens it signed itself with HS256: under
  the signing key, a token parses to the claims it was signed with, exactly when the issuer is
  the expected one, the expected audience is among the token's and the expiry (in seconds) has
  not been reached. A key function that refuses the method makes parsing fail.
\<close>

definition jwt_sound :: "ext \<Rightarrow> bool" where
  "jwt_sound x \<longleftrightarrow>
     (\<forall>secret c t now iss aud kf.
        jwt_sign x secret c = Some t \<longrightarrow> kf True = Some secret \<longrightarrow>
        jwt_parse x now kf iss aud t =
          (if cl_issuer c = iss \<and> aud \<in> set (cl_audience c) \<and> now < cl_expires_at c * second
           then Some (c, True) else None))"

text \<open>\<open>NewNumericDate\<close> cuts a time to whole seconds.\<close>

definition numeric_date_floor :: "ext \<Rightarrow> bool" where
  "numeric_date_floor x \<longleftrightarrow> (\<forall>t. jwt_numeric_date x t = t div second)"

text \<open>
  \<open>uuid.Parse\<close> reads back what \<open>String\<close> writes; bcrypt's comparison accepts the password a
  hash was made from, and bcrypt refuses passwords of more than 72 bytes.
\<close>

definition uuid_roundtrip :: "ext \<Rightarrow> bool" where
  "uuid_roundtrip x \<longleftrightarrow> (\<forall>u. uuid_parse x (uuid_string x u) = Some u)"

definition bcrypt_sound :: "ext \<Rightarrow> bool" where
  "bcrypt_sound x \<longleftrightarrow> (\<forall>salt p c h. bcrypt_generate x salt p c = Some h \<longrightarrow> bcrypt_compare x h p)"

definition bcrypt_limited :: "ext \<Rightarrow> bool" where
  "bcrypt_limited x \<longleftrightarrow> (\<forall>salt p c. 72 < length p \<longrightarrow> bcrypt_generate x salt p c = None)"

lemma GenerateRefreshToken_apply:
  "GenerateRefreshToken w = (case rand_src w (rand_pos w) of
     None \<Rightarrow> (Inl ErrRand, w\<lparr>rand_pos := Suc (rand_pos w)\<rparr>)
   | Some b \<Rightarrow> (Inr (hex_encode b), w\<lparr>rand_pos := Suc (rand_pos w)\<rparr>))"
  by (simp add: GenerateRefreshToken_def attempt_apply rand_read_def ret_def split: option.splits)

lemma preserves_GenerateRefreshToken [intro!]: "preserves (on_db I) GenerateRefreshToken"
  unfolding GenerateRefreshToken_def
  by (intro preserves_attempt preserves_oracles preserves_ret)

lemma evolves_GenerateRefreshToken [intro!]: "evolves world_le GenerateRefreshToken"
  unfolding GenerateRefreshToken_def
  by (intro evolution.evolves_intros evolves_oracles)

lemma preserves_GenerateAccessToken [intro!]:
  "preserves (on_db I) (GenerateAccessToken x u r role v secret iss aud expiry)"
  unfolding GenerateAccessToken_def
  by (auto intro!: preserves_attempt split: option.splits)

lemma evolves_GenerateAccessToken [intro!]:
  "evolves world_le (GenerateAccessToken x u r role v secret iss aud expiry)"
  unfolding GenerateAccessToken_def
  by (auto intro!: evolution.evolves_intros split: option.splits)

text \<open>
  The claims of an issued token, and what it takes to issue one.
\<close>

definition issued_claims ::
    "ext \<Rightarrow> string \<Rightarrow> string \<Rightarrow> string \<Rightarrow> int \<Rightarrow> string \<Rightarrow> string \<Rightarrow> string \<Rightarrow> time \<Rightarrow> duration \<Rightarrow> claims" where
  "issued_claims x u r role v jti iss aud now expiry =
     \<lparr>cl_org_id = r, cl_role = role, cl_token_version = v, cl_id = jti, cl_subject = u,
      cl_issuer = iss, cl_audience = [aud], cl_issued_at = jwt_numeric_date x now,
      cl_expires_at = jwt_numeric_date x (now + expiry)\<rparr>"

lemma GenerateAccessToken_ok:
  "GenerateAccessToken x u r role v secret iss aud expiry w = (Inr t, w') \<longleftrightarrow>
     secret \<noteq> '''' \<and> iss \<noteq> '''' \<and> aud \<noteq> '''' \<and> w' = w\<lparr>rand_pos := Suc (rand_pos w)\<rparr> \<and>
     (\<exists>b. rand_src w (rand_pos w) = Some b \<and>
       jwt_sign x secret (issued_claims x u r role v (hex_encode b) iss aud (app_now w) expiry) = Some t)"
  by (auto simp: GenerateAccessToken_def attempt_apply GenerateRefreshToken_apply call_defs
      issued_claims_def split: option.splits prod.splits sum.splits)

end
