(* ===== verification/Identity.thy ===== *)
theory Identity
  imports Tokens
begin

text \<open>
  \<open>internal/auth/context.go\<close>, \<open>roles.go\<close> and \<open>policy.go\<close>: the caller's identity in
  the request context, the roles and the access policy. A context is the list of the values
  stored in it, the newest first; its keys are the three pointers of the package.
\<close>

datatype context_key = userIDKey | orgIDKey | roleKey

type_synonym request_context = "(context_key \<times> string) list"

record identity =
  UserID :: string
  OrgID :: string
  Role :: string

definition with_value :: "request_context \<Rightarrow> context_key \<Rightarrow> string \<Rightarrow> request_context" where
  "with_value ctx k v = (k, v) # ctx"

definition ContextWithIdentity :: "request_context \<Rightarrow> string \<Rightarrow> string \<Rightarrow> string \<Rightarrow> request_context" where
  "ContextWithIdentity ctx userID orgID role =
     (let ctx1 = with_value ctx userIDKey userID;
          ctx2 = with_value ctx1 orgIDKey orgID
      in with_value ctx2 roleKey role)"

definition ContextWithClaims :: "request_context \<Rightarrow> claims option \<Rightarrow> request_context" where
  "ContextWithClaims ctx c = (case c of
     None \<Rightarrow> ctx
   | Some c \<Rightarrow> ContextWithIdentity ctx (cl_subject c) (cl_org_id c) (cl_role c))"

definition valueFromContext :: "request_context \<Rightarrow> context_key \<Rightarrow> string" where
  "valueFromContext ctx k = (case map_of ctx k of None \<Rightarrow> '''' | Some v \<Rightarrow> v)"

definition IdentityFromContext :: "request_context \<Rightarrow> identity option" where
  "IdentityFromContext ctx =
     (let identity = \<lparr>UserID = valueFromContext ctx userIDKey,
                      OrgID = valueFromContext ctx orgIDKey,
                      Role = valueFromContext ctx roleKey\<rparr>
      in if UserID identity = '''' \<or> OrgID identity = '''' \<or> Role identity = '''' then None
         else Some identity)"

definition RoleOwner :: string where "RoleOwner = ''owner''"
definition RoleAdmin :: string where "RoleAdmin = ''admin''"
definition RoleMember :: string where "RoleMember = ''member''"

lemmas role_defs = RoleOwner_def RoleAdmin_def RoleMember_def

definition IsOwnerRole :: "string \<Rightarrow> bool" where
  "IsOwnerRole role \<longleftrightarrow> role = RoleOwner"

definition IsAdminRole :: "string \<Rightarrow> bool" where
  "IsAdminRole role \<longleftrightarrow> role = RoleAdmin"

definition IsMemberRole :: "string \<Rightarrow> bool" where
  "IsMemberRole role \<longleftrightarrow> role = RoleMember"

definition CanAccessOrg :: "identity \<Rightarrow> string \<Rightarrow> bool" where
  "CanAccessOrg i orgID \<longleftrightarrow> UserID i \<noteq> '''' \<and> OrgID i \<noteq> '''' \<and> orgID \<noteq> '''' \<and> OrgID i = orgID"

definition HasRole :: "identity \<Rightarrow> string \<Rightarrow> bool" where
  "HasRole i role \<longleftrightarrow> UserID i \<noteq> '''' \<and> OrgID i \<noteq> '''' \<and> Role i = role"

fun HasAnyRole :: "identity \<Rightarrow> string list \<Rightarrow> bool" where
  "HasAnyRole i [] = False"
| "HasAnyRole i (role # roles) = (if HasRole i role then True else HasAnyRole i roles)"

subsection \<open>The identity of a context\<close>

lemma IdentityFromContext_WithIdentity:
  "IdentityFromContext (ContextWithIdentity ctx u r role) =
     (if u = '''' \<or> r = '''' \<or> role = '''' then None
      else Some \<lparr>UserID = u, OrgID = r, Role = role\<rparr>)"
  by (simp add: IdentityFromContext_def ContextWithIdentity_def with_value_def valueFromContext_def)

lemma IdentityFromContext_fields:
  "IdentityFromContext ctx = Some i \<Longrightarrow> UserID i \<noteq> '''' \<and> OrgID i \<noteq> '''' \<and> Role i \<noteq> ''''"
  by (auto simp: IdentityFromContext_def Let_def split: if_splits)

lemma HasAnyRole_iff:
  "HasAnyRole i roles \<longleftrightarrow> UserID i \<noteq> '''' \<and> OrgID i \<noteq> '''' \<and> Role i \<in> set roles"
  by (induction roles) (auto simp: HasRole_def)

end
