(* ===== verification/Notification.thy ===== *)
theory Notification
  imports Identity
begin

text \<open>
  \<open>internal/notification\<close>: the senders of password-reset e-mails. The Resend client is a
  remote call that records the message in the outbox of the world; the fault oracle decides
  whether it fails.
\<close>

record resend_sender =
  fromEmail :: string
  fromName :: string

datatype sender = NoopSender | ResendSender resend_sender

definition NewResendSender :: "string \<Rightarrow> string \<Rightarrow> string \<Rightarrow> err + sender" where
  "NewResendSender apiKey0 fromEmail0 fromName0 =
     (let apiKey = trim_space apiKey0; fEmail = trim_space fromEmail0; fName = trim_space fromName0
      in if apiKey = '''' then Inl (ErrText ''RESEND_API_KEY is required'')
         else if fEmail = '''' then Inl (ErrText ''EMAIL_FROM is required'')
         else if fName = '''' then Inl (ErrText ''EMAIL_FROM_NAME is required'')
         else Inr (ResendSender \<lparr>fromEmail = fEmail, fromName = fName\<rparr>))"

definition fromHeader :: "resend_sender \<Rightarrow> string" where
  "fromHeader s = fromName s @ '' <'' @ fromEmail s @ ''>''"

definition newline :: string where
  "newline = [CHR 0x0A]"

definition passwordResetHTML :: "string \<Rightarrow> string" where
  "passwordResetHTML resetURL =
     (let safeURL = html_escape resetURL
      in newline @ ''<p>You requested a password reset.</p>'' @ newline
         @ ''<p><a href='' @ [CHR 0x22] @ safeURL @ [CHR 0x22] @ ''>Reset your password</a></p>'' @ newline
         @ ''<p>This link expires in 1 hour. If you did not request this, you can ignore this email.</p>''
         @ newline)"

text \<open>The HTTP request of \<open>client.Emails.Send\<close>.\<close>

definition send_email :: "email_message \<Rightarrow> unit op" where
  "send_email m = call take_fault (\<lambda>f w.
     (case f of
        Inr NoFault \<Rightarrow> (Inr (), w\<lparr>outbox := outbox w @ [m]\<rparr>)
      | Inr FailAfter \<Rightarrow> (Inl ErrSend, w\<lparr>outbox := outbox w @ [m]\<rparr>)
      | _ \<Rightarrow> (Inl ErrSend, w)))"

definition reset_message :: "resend_sender \<Rightarrow> string \<Rightarrow> string \<Rightarrow> email_message" where
  "reset_message s recipient resetURL =
     \<lparr>em_from = fromHeader s, em_to = [trim_space recipient], em_subject = ''Reset your password'',
      em_html = passwordResetHTML resetURL, em_reply_to = [fromEmail s]\<rparr>"

fun SendPasswordReset :: "sender \<Rightarrow> string \<Rightarrow> string \<Rightarrow> unit op" where
  "SendPasswordReset NoopSender recipient resetURL = ret ()"
| "SendPasswordReset (ResendSender s) recipient resetURL = send_email (reset_message s recipient resetURL)"

lemma send_email_eq:
  "send_email m w = (case faults w (fault_pos w) of
       NoFault \<Rightarrow> (Inr (), next_fault w\<lparr>outbox := outbox w @ [m]\<rparr>)
     | FailBefore \<Rightarrow> (Inl ErrSend, next_fault w)
     | FailAfter \<Rightarrow> (Inl ErrSend, next_fault w\<lparr>outbox := outbox w @ [m]\<rparr>))"
  by (simp add: send_email_def call_apply take_fault_eq split: fault.splits)

subsection \<open>The contract of a sender\<close>

text \<open>
  The interface \<open>notification.Sender\<close>: what the service relies on is that sending touches
  neither the tables nor the cache.
\<close>

locale mail_sender =
  fixes send :: "string \<Rightarrow> string \<Rightarrow> unit op"
  assumes send_db: "db (snd (send recipient url w)) = db w"
    and send_cache: "cache (snd (send recipient url w)) = cache w"
begin

lemma send_preserves: "preserves (on_db I) (send recipient url)"
  by (simp add: preserves_def on_db_def send_db)

lemma send_evolves: "evolves world_le (send recipient url)"
  by (simp add: evolves_def world_le_def send_db db_le_refl)

end

interpretation any_sender: mail_sender "SendPasswordReset s" for s
proof
  fix recipient url w
  show "db (snd (SendPasswordReset s recipient url w)) = db w"
    by (cases s) (auto simp: ret_def send_email_eq split: fault.splits)
  show "cache (snd (SendPasswordReset s recipient url w)) = cache w"
    by (cases s) (auto simp: ret_def send_email_eq split: fault.splits)
qed

subsection \<open>The escaped link\<close>

lemma html_escape_char_safe:
  "d \<in> set (html_escape_char c) \<Longrightarrow> d \<noteq> CHR ''<'' \<and> d \<noteq> CHR ''>'' \<and> d \<noteq> CHR 0x22 \<and> d \<noteq> CHR 0x27"
  by (auto simp: html_escape_char_def split: if_splits)

lemma html_escape_safe:
  "d \<in> set (html_escape s) \<Longrightarrow> d \<noteq> CHR ''<'' \<and> d \<noteq> CHR ''>'' \<and> d \<noteq> CHR 0x22 \<and> d \<noteq> CHR 0x27"
  by (auto simp: html_escape_def dest: html_escape_char_safe)

end
