(* ===== verification/Service.thy ===== *)
theory Service
  imports Notification
begin

text \<open>
  \<open>internal/auth/service.go\<close>: the eight operations of the authentication service, every
  call and early return in the order of the source. Log lines are not modelled.
\<close>

record user_info =
  ui_id :: string
  ui_email :: string
  ui_full_name :: string

record auth_response =
  ar_access_token :: string
  ar_refresh_token :: string
  ar_user :: user_info
  ar_expires_in :: int

record refresh_response =
  rr_access_token :: string
  rr_refresh_token :: string
  rr_expires_in :: int

record me_response =
  me_id :: string
  me_email :: string
  me_full_name :: string
  me_org_id :: string
  me_org_name :: string
  me_role :: string

text \<open>The fields of \<open>Service\<close> besides its connections, which are the world.\<close>

record service =
  sender :: sender
  appBaseURL :: string
  jwtSecret :: string
  jwtIssuer :: string
  jwtAudience :: string
  jwtExpiry :: duration
  refreshExpiry :: duration

definition NewService ::
    "sender \<Rightarrow> string \<Rightarrow> string \<Rightarrow> string \<Rightarrow> string \<Rightarrow> duration \<Rightarrow> duration \<Rightarrow> service" where
  "NewService snd' secret baseURL issuer audience jwtExp refreshExp =
     \<lparr>sender = snd', appBaseURL = baseURL, jwtSecret = secret, jwtIssuer = issuer,
      jwtAudience = audience, jwtExpiry = jwtExp, refreshExpiry = refreshExp\<rparr>"

text \<open>\<open>int(d.Seconds())\<close>: whole seconds, rounded towards zero.\<close>

definition whole_seconds :: "duration \<Rightarrow> int" where
  "whole_seconds d = sgn d * (\<bar>d\<bar> div second)"

text \<open>\<open>bcrypt.GenerateFromPassword(password, 12)\<close> draws its salt from the random source.\<close>

definition generate_from_password :: "ext \<Rightarrow> string \<Rightarrow> nat \<Rightarrow> string op" where
  "generate_from_password x password cost =
     attempt rand_read (\<lambda>salt. case bcrypt_generate x salt password cost of
         None \<Rightarrow> fail ErrBcrypt
       | Some h \<Rightarrow> ret h)"

definition issueTokens :: "ext \<Rightarrow> service \<Rightarrow> user \<Rightarrow> uuid \<Rightarrow> string \<Rightarrow> auth_response op" where
  "issueTokens x s u orgID role =
     attempt (GenerateAccessToken x (uuid_string x (us_id u)) (uuid_string x orgID) role
            (us_token_version u) (jwtSecret s) (jwtIssuer s) (jwtAudience s) (jwtExpiry s))
     (\<lambda>accessToken. attempt GenerateRefreshToken
     (\<lambda>refreshToken. attempt (read_world app_now)
     (\<lambda>now. attempt (CreateRefreshToken (hashOpaqueToken x refreshToken) (us_id u) orgID
                   (now + refreshExpiry s))
     (\<lambda>_. ret \<lparr>ar_access_token = accessToken, ar_refresh_token = refreshToken,
              ar_user = \<lparr>ui_id = uuid_string x (us_id u), ui_email = us_email u,
                         ui_full_name = us_full_name u\<rparr>,
              ar_expires_in = whole_seconds (jwtExpiry s)\<rparr>))))"

definition isUniqueEmailViolation :: "err \<Rightarrow> bool" where
  "isUniqueEmailViolation e \<longleftrightarrow> errors_as_pg e = Some ''23505''"

definition selectMembership ::
    "ext \<Rightarrow> org_membership list \<Rightarrow> string \<Rightarrow> err + org_membership" where
  "selectMembership x memberships orgID =
     (if memberships = [] then Inl ErrInvalidCredentials
      else if orgID = '''' then
        (case memberships of [m] \<Rightarrow> Inr m | _ \<Rightarrow> Inl ErrOrgSelectionRequired)
      else case uuid_parse x orgID of
          None \<Rightarrow> Inl ErrInvalidOrgSelection
        | Some requestedOrgID \<Rightarrow>
            (case find (\<lambda>m. om_org_id m = requestedOrgID) memberships of
               Some m \<Rightarrow> Inr m
             | None \<Rightarrow> Inl ErrInvalidOrgSelection))"

subsection \<open>Register, Login\<close>

definition register_tx :: "ext \<Rightarrow> string \<Rightarrow> string \<Rightarrow> string \<Rightarrow> (user \<times> org) op" where
  "register_tx x email hash fullName =
     call (CreateUser x email hash fullName) (\<lambda>r. case r of
         Inl txErr \<Rightarrow> if isUniqueEmailViolation txErr then fail ErrEmailExists else fail txErr
       | Inr u \<Rightarrow>
           attempt (CreateOrg '''') (\<lambda>org.
           attempt (CreateOrgMembership (us_id u) (or_id org) RoleAdmin) (\<lambda>_. ret (u, org))))"

definition Register :: "ext \<Rightarrow> service \<Rightarrow> string \<Rightarrow> string \<Rightarrow> string \<Rightarrow> auth_response op" where
  "Register x s email0 password fullName =
     (case normalizeEmail x email0 of
        Inl e \<Rightarrow> fail e
      | Inr email \<Rightarrow>
          (case validatePassword x password of
             Some e \<Rightarrow> fail e
           | None \<Rightarrow>
               call (GetUserByEmail x email) (\<lambda>r. case r of
                   Inr _ \<Rightarrow> fail ErrEmailExists
                 | Inl e \<Rightarrow>
                     if \<not> errors_is e ErrNoRows then fail e
                     else
                       attempt (generate_from_password x password 12) (\<lambda>hash.
                       attempt (WithTxQueries (register_tx x email hash fullName)) (\<lambda>(u, org).
                       issueTokens x s u (or_id org) RoleAdmin)))))"

definition Login :: "ext \<Rightarrow> service \<Rightarrow> string \<Rightarrow> string \<Rightarrow> string \<Rightarrow> auth_response op" where
  "Login x s email0 password orgID =
     (case normalizeEmail x email0 of
        Inl _ \<Rightarrow> fail ErrInvalidCredentials
      | Inr email \<Rightarrow>
          call (GetUserByEmail x email) (\<lambda>r. case r of
              Inl e \<Rightarrow> if errors_is e ErrNoRows then fail ErrInvalidCredentials else fail e
            | Inr u \<Rightarrow>
                if \<not> bcrypt_compare x (us_password_hash u) password then fail ErrInvalidCredentials
                else
                  attempt (ListOrgMembershipsByUser (us_id u)) (\<lambda>memberships.
                    if memberships = [] then fail ErrInvalidCredentials
                    else
                      attempt (lift (selectMembership x memberships orgID)) (\<lambda>m.
                      issueTokens x s u (om_org_id m) (om_role m)))))"

subsection \<open>Refresh, Logout\<close>

definition no_rows_is_invalid_token :: "err \<Rightarrow> err" where
  "no_rows_is_invalid_token e = (if errors_is e ErrNoRows then ErrInvalidToken else e)"

text \<open>The transaction of \<open>Refresh\<close>, the part after the token has been consumed first.\<close>

definition refresh_consumed :: "ext \<Rightarrow> service \<Rightarrow> refresh_token \<Rightarrow> (user \<times> string \<times> org_membership) op" where
  "refresh_consumed x s rt =
     call (GetUserByID (rt_user_id rt)) (\<lambda>r. case r of
         Inl e \<Rightarrow> fail (no_rows_is_invalid_token e)
       | Inr u \<Rightarrow>
     call (GetOrgMembershipByUser (us_id u) (rt_org_id rt)) (\<lambda>r. case r of
         Inl e \<Rightarrow> fail (no_rows_is_invalid_token e)
       | Inr m \<Rightarrow>
     attempt GenerateRefreshToken (\<lambda>newRefreshToken.
     attempt (read_world app_now) (\<lambda>now.
     attempt (CreateRefreshToken (hashOpaqueToken x newRefreshToken) (us_id u) (om_org_id m)
            (now + refreshExpiry s)) (\<lambda>_.
     ret (u, newRefreshToken, m))))))"

definition refresh_tx :: "ext \<Rightarrow> service \<Rightarrow> string \<Rightarrow> (user \<times> string \<times> org_membership) op" where
  "refresh_tx x s refreshToken =
     call (ConsumeRefreshToken (hashOpaqueToken x refreshToken)) (\<lambda>r. case r of
         Inl e \<Rightarrow> fail (no_rows_is_invalid_token e)
       | Inr rt \<Rightarrow> refresh_consumed x s rt)"

definition Refresh :: "ext \<Rightarrow> service \<Rightarrow> string \<Rightarrow> refresh_response op" where
  "Refresh x s refreshToken =
     attempt (WithTxQueries (refresh_tx x s refreshToken)) (\<lambda>(u, newRefreshToken, m).
     attempt (GenerateAccessToken x (uuid_string x (us_id u)) (uuid_string x (om_org_id m)) (om_role m)
            (us_token_version u) (jwtSecret s) (jwtIssuer s) (jwtAudience s) (jwtExpiry s))
     (\<lambda>accessToken. ret \<lparr>rr_access_token = accessToken, rr_refresh_token = newRefreshToken,
                         rr_expires_in = whole_seconds (jwtExpiry s)\<rparr>))"

definition logout_tx :: "ext \<Rightarrow> string \<Rightarrow> unit op" where
  "logout_tx x refreshToken =
     call (ConsumeRefreshToken (hashOpaqueToken x refreshToken)) (\<lambda>r. case r of
         Inl e \<Rightarrow> if errors_is e ErrNoRows then ret () else fail e
       | Inr rt \<Rightarrow>
           attempt (IncrementUserTokenVersion (rt_user_id rt)) (\<lambda>_.
           RevokeAllUserRefreshTokens (rt_user_id rt)))"

definition Logout :: "ext \<Rightarrow> string \<Rightarrow> unit op" where
  "Logout x refreshToken = WithTxQueries (logout_tx x refreshToken)"

subsection \<open>Me\<close>

definition Me :: "ext \<Rightarrow> string \<Rightarrow> string \<Rightarrow> me_response op" where
  "Me x userID orgID =
     (case uuid_parse x userID of
        None \<Rightarrow> fail ErrInvalidToken
      | Some uid \<Rightarrow>
          (case uuid_parse x orgID of
             None \<Rightarrow> fail ErrInvalidToken
           | Some oid \<Rightarrow>
               attempt (GetUserByID uid) (\<lambda>u.
               attempt (GetOrg oid) (\<lambda>org.
               attempt (GetOrgMembershipByUser uid oid) (\<lambda>membership.
               ret \<lparr>me_id = uuid_string x (us_id u), me_email = us_email u,
                    me_full_name = us_full_name u, me_org_id = uuid_string x (or_id org),
                    me_org_name = or_name org, me_role = om_role membership\<rparr>)))))"

subsection \<open>Passwords\<close>

definition reset_url :: "service \<Rightarrow> string \<Rightarrow> string" where
  "reset_url s token = appBaseURL s @ ''/auth/reset-password?token='' @ token"

definition ForgotPassword :: "ext \<Rightarrow> service \<Rightarrow> string \<Rightarrow> unit op" where
  "ForgotPassword x s email0 =
     (case normalizeEmail x email0 of
        Inl _ \<Rightarrow> ret ()
      | Inr email \<Rightarrow>
          call (GetUserByEmail x email) (\<lambda>r. case r of
              Inl e \<Rightarrow> if errors_is e ErrNoRows then ret () else fail e
            | Inr u \<Rightarrow>
                attempt GenerateRefreshToken (\<lambda>token.
                attempt (redis_call (set_command (passwordResetCacheKey x token)
                                 (uuid_string x (us_id u)) hour)) (\<lambda>_.
                if appBaseURL s = '''' then ret ()
                else call (SendPasswordReset (sender s) (us_email u) (reset_url s token))
                       (\<lambda>_. ret ())))))"

definition set_password_tx :: "uuid \<Rightarrow> string \<Rightarrow> unit op" where
  "set_password_tx uid hash =
     attempt (UpdateUserPassword uid hash) (\<lambda>_.
     attempt (IncrementUserTokenVersion uid) (\<lambda>_.
     RevokeAllUserRefreshTokens uid))"

definition ResetPassword :: "ext \<Rightarrow> string \<Rightarrow> string \<Rightarrow> unit op" where
  "ResetPassword x token password =
     (case validatePassword x password of
        Some e \<Rightarrow> fail e
      | None \<Rightarrow>
          call (redis_call (getdel_command (passwordResetCacheKey x token))) (\<lambda>r. case r of
              Inl _ \<Rightarrow> fail ErrInvalidToken
            | Inr userIDStr \<Rightarrow>
                (case uuid_parse x userIDStr of
                   None \<Rightarrow> fail ErrInvalidToken
                 | Some uid \<Rightarrow>
                     attempt (generate_from_password x password 12) (\<lambda>hash.
                     WithTxQueries (set_password_tx uid hash)))))"

definition ChangePassword :: "ext \<Rightarrow> string \<Rightarrow> string \<Rightarrow> string \<Rightarrow> unit op" where
  "ChangePassword x userID currentPassword nextPassword =
     (case validatePassword x nextPassword of
        Some e \<Rightarrow> fail e
      | None \<Rightarrow>
          (case uuid_parse x userID of
             None \<Rightarrow> fail ErrInvalidToken
           | Some uid \<Rightarrow>
               attempt (GetUserByID uid) (\<lambda>u.
                 if \<not> bcrypt_compare x (us_password_hash u) currentPassword
                 then fail ErrWrongPassword
                 else
                   attempt (generate_from_password x nextPassword 12) (\<lambda>hash.
                   WithTxQueries (set_password_tx uid hash)))))"

end
