(* ===== verification/ServiceInv.thy ===== *)
theory ServiceInv
  imports Service
begin

text \<open>
  The service as a state machine: any sequence of its operations, with time passing in between.
  Integrity of the tables holds in every state it reaches, and the tables only evolve along
  \<open>db_le\<close>; both follow call by call from the facts about the queries.
\<close>

lemma preserves_if [intro!]:
  "preserves P m \<Longrightarrow> preserves P n \<Longrightarrow> preserves P (if b then m else n)"
  by simp

lemma evolves_if: "evolves R m \<Longrightarrow> evolves R n \<Longrightarrow> evolves R (if b then m else n)"
  by simp

lemma preserves_sum:
  "(\<And>e. preserves P (f e)) \<Longrightarrow> (\<And>a. preserves P (g a)) \<Longrightarrow> preserves P (case r of Inl e \<Rightarrow> f e | Inr a \<Rightarrow> g a)"
  by (simp split: sum.splits)

lemma preserves_option:
  "preserves P f \<Longrightarrow> (\<And>a. preserves P (g a)) \<Longrightarrow> preserves P (case r of None \<Rightarrow> f | Some a \<Rightarrow> g a)"
  by (simp split: option.splits)

lemma preserves_prod:
  "(\<And>a b. preserves P (f a b)) \<Longrightarrow> preserves P (case p of (a, b) \<Rightarrow> f a b)"
  by (simp split: prod.splits)

lemma evolves_sum:
  "(\<And>e. evolves R (f e)) \<Longrightarrow> (\<And>a. evolves R (g a)) \<Longrightarrow> evolves R (case r of Inl e \<Rightarrow> f e | Inr a \<Rightarrow> g a)"
  by (simp split: sum.splits)

lemma evolves_option:
  "evolves R f \<Longrightarrow> (\<And>a. evolves R (g a)) \<Longrightarrow> evolves R (case r of None \<Rightarrow> f | Some a \<Rightarrow> g a)"
  by (simp split: option.splits)

lemma evolves_prod:
  "(\<And>a b. evolves R (f a b)) \<Longrightarrow> evolves R (case p of (a, b) \<Rightarrow> f a b)"
  by (simp split: prod.splits)

lemmas preserves_rules =
  preserves_ret preserves_fail preserves_lift preserves_read preserves_call preserves_attempt
  preserves_sum preserves_option preserves_prod preserves_if preserves_WithTxQueries
  preserves_oracles preserves_redis any_sender.send_preserves queries_preserve
  preserves_GenerateRefreshToken preserves_GenerateAccessToken

lemmas evolves_rules =
  evolution.evolves_intros evolves_sum evolves_option evolves_prod evolves_if
  evolves_WithTxQueries evolves_oracles evolves_redis any_sender.send_evolves queries_evolve
  evolves_GenerateRefreshToken evolves_GenerateAccessToken

lemmas service_defs =
  Register_def Login_def Refresh_def Logout_def Me_def ForgotPassword_def ResetPassword_def
  ChangePassword_def register_tx_def refresh_tx_def refresh_consumed_def logout_tx_def set_password_tx_def
  issueTokens_def generate_from_password_def

lemma service_preserves:
  "preserves (on_db (db_ok x)) (Register x s email password fullName)"
  "preserves (on_db (db_ok x)) (Login x s email password orgID)"
  "preserves (on_db (db_ok x)) (Refresh x s token)"
  "preserves (on_db (db_ok x)) (Logout x token)"
  "preserves (on_db (db_ok x)) (Me x userID orgID)"
  "preserves (on_db (db_ok x)) (ForgotPassword x s email)"
  "preserves (on_db (db_ok x)) (ResetPassword x token password)"
  "preserves (on_db (db_ok x)) (ChangePassword x userID current_pw next_pw)"
  unfolding service_defs by (intro preserves_rules)+

lemma service_evolves:
  "evolves world_le (Register x s email password fullName)"
  "evolves world_le (Login x s email password orgID)"
  "evolves world_le (Refresh x s token)"
  "evolves world_le (Logout x token)"
  "evolves world_le (Me x userID orgID)"
  "evolves world_le (ForgotPassword x s email)"
  "evolves world_le (ResetPassword x token password)"
  "evolves world_le (ChangePassword x userID current_pw next_pw)"
  unfolding service_defs by (intro evolves_rules)+

subsection \<open>Runs\<close>

text \<open>
  A step is one operation, whatever its arguments and result, or the passing of time on the
  three clocks.
\<close>

inductive step :: "ext \<Rightarrow> service \<Rightarrow> world \<Rightarrow> world \<Rightarrow> bool" for x s where
  step_register: "step x s w (snd (Register x s email password fullName w))"
| step_login: "step x s w (snd (Login x s email password orgID w))"
| step_refresh: "step x s w (snd (Refresh x s token w))"
| step_logout: "step x s w (snd (Logout x token w))"
| step_me: "step x s w (snd (Me x userID orgID w))"
| step_forgot: "step x s w (snd (ForgotPassword x s email w))"
| step_reset: "step x s w (snd (ResetPassword x token password w))"
| step_change: "step x s w (snd (ChangePassword x userID current_pw next_pw w))"
| step_time: "app_now w \<le> a \<Longrightarrow> db_now w \<le> b \<Longrightarrow> redis_now w \<le> c
    \<Longrightarrow> step x s w (w\<lparr>app_now := a, db_now := b, redis_now := c\<rparr>)"

inductive steps :: "ext \<Rightarrow> service \<Rightarrow> world \<Rightarrow> world \<Rightarrow> bool" for x s where
  steps_refl: "steps x s w w"
| steps_step: "steps x s u v \<Longrightarrow> step x s v w \<Longrightarrow> steps x s u w"

inductive_cases step_cases: "step x s v w"
inductive_simps steps_from: "steps x s u w"

lemma step_keeps_db_ok: "step x s v w \<Longrightarrow> db_ok x (db v) \<Longrightarrow> db_ok x (db w)"
  by (induction rule: step.induct)
     (simp_all add: service_preserves [unfolded preserves_def on_db_def, rule_format])

lemma step_evolves: "step x s v w \<Longrightarrow> db_le (db v) (db w)"
  by (induction rule: step.induct)
     (use service_evolves in \<open>auto simp: evolves_def world_le_def db_le_refl\<close>)

lemma steps_keep_db_ok: "steps x s v w \<Longrightarrow> db_ok x (db v) \<Longrightarrow> db_ok x (db w)"
  by (induction rule: steps.induct) (auto intro: step_keeps_db_ok)

lemma steps_evolve: "steps x s v w \<Longrightarrow> db_le (db v) (db w)"
  by (induction rule: steps.induct) (auto intro: db_le_refl db_le_trans step_evolves)

lemma steps_trans: "steps x s u v \<Longrightarrow> steps x s v w \<Longrightarrow> steps x s u w"
  by (rotate_tac, induction rule: steps.induct) (auto intro: steps_step)

lemma step_imp_steps: "step x s u v \<Longrightarrow> steps x s u v"
  by (blast intro: steps_refl steps_step)

end
