(* ===== verification/Sessions.thy ===== *)
theory Sessions
  imports ServiceInv
begin

text \<open>
  The queries as they run without faults, the effect of a consumed refresh token, and the
  properties of sessions: rotation, single use, logout, and the failure of the version counter.
\<close>

subsection \<open>Queries without faults\<close>

lemma next_fault_db_self [simp]: "next_fault w\<lparr>db := db w\<rparr> = next_fault w"
  by (simp add: next_fault_def)

lemma attempt_exec_healthy:
  "healthy w \<Longrightarrow> attempt gen_random_uuid (\<lambda>i w. exec (s i w) w) w =
     exec (s (uuid_src w (uuid_pos w)) (w\<lparr>uuid_pos := Suc (uuid_pos w)\<rparr>))
       (w\<lparr>uuid_pos := Suc (uuid_pos w)\<rparr>)"
  by (simp add: attempt_apply gen_random_uuid_def)

lemma queries_healthy:
  assumes "healthy w"
  shows "GetUserByEmail x e w = (one_row (find_user_email x e (db w)), next_fault w)"
    and "GetUserByID i w = (one_row (find_user i (db w)), next_fault w)"
    and "GetOrg i w = (one_row (find_org i (db w)), next_fault w)"
    and "GetOrgMembershipByUser u r w = (one_row (find_membership u r (db w)), next_fault w)"
    and "ListOrgMembershipsByUser u w =
      (Inr (sort_key om_created_at (filter (\<lambda>m. om_user_id m = u) (org_memberships (db w)))), next_fault w)"
  using assms by (simp_all add: query_defs exec_healthy)

lemma updates_healthy:
  assumes "healthy w"
  shows "ConsumeRefreshToken t w = (fst (consume_token (db_now w) t (db w)),
      next_fault w\<lparr>db := snd (consume_token (db_now w) t (db w))\<rparr>)"
    and "CreateRefreshToken t u r expires w = (fst (insert_token (db_now w) t u r expires (db w)),
      next_fault w\<lparr>db := snd (insert_token (db_now w) t u r expires (db w))\<rparr>)"
    and "IncrementUserTokenVersion i w = (fst (increment_version (db_now w) i (db w)),
      next_fault w\<lparr>db := snd (increment_version (db_now w) i (db w))\<rparr>)"
    and "RevokeAllUserRefreshTokens i w = (Inr (), next_fault w\<lparr>db := snd (revoke_user_tokens i (db w))\<rparr>)"
    and "UpdateUserPassword i h w = (Inr (), next_fault w\<lparr>db := snd (update_password (db_now w) i h (db w))\<rparr>)"
  using assms by (simp_all add: query_defs exec_healthy revoke_user_tokens_def update_password_def)

subsection \<open>Consuming a refresh token\<close>

definition live_token :: "time \<Rightarrow> string \<Rightarrow> database \<Rightarrow> refresh_token option" where
  "live_token now t d = (case find_token t d of
     None \<Rightarrow> None
   | Some k \<Rightarrow> if rt_revoked k \<or> rt_expires_at k \<le> now then None else Some k)"

definition token_revoked :: "string \<Rightarrow> database \<Rightarrow> bool" where
  "token_revoked t d \<longleftrightarrow> (\<exists>k. find_token t d = Some k \<and> rt_revoked k)"

lemma db_le_revoked: "db_le d e \<Longrightarrow> token_revoked t d \<Longrightarrow> token_revoked t e"
  unfolding db_le_def token_revoked_def token_le_def by blast

lemma revoked_not_live: "token_revoked t d \<Longrightarrow> live_token now t d = None"
  by (auto simp: token_revoked_def live_token_def)

lemma find_consumable:
  assumes "distinct (map rt_token (refresh_tokens d))"
  shows "find (consumable now t) (refresh_tokens d) = live_token now t d"
  using assms unfolding live_token_def find_token_def
proof (induction "refresh_tokens d" arbitrary: d)
  case (Cons k ks)
  from Cons.hyps(2) [symmetric] Cons.prems have notin: "rt_token k \<notin> rt_token ` set ks"
    and dist: "distinct (map rt_token ks)" by simp_all
  have IH: "find (consumable now t) ks =
      (case find (\<lambda>r. rt_token r = t) ks of None \<Rightarrow> None
       | Some k \<Rightarrow> if rt_revoked k \<or> rt_expires_at k \<le> now then None else Some k)"
    using Cons.hyps(1) [of "d\<lparr>refresh_tokens := ks\<rparr>"] dist by simp
  have none: "find (\<lambda>r. rt_token r = rt_token k) ks = None"
    using notin by (simp add: find_key_None)
  show ?case
    using IH none by (auto simp: Cons.hyps(2) [symmetric] consumable_def not_less)
qed simp

lemma tokens_distinct: "db_ok x d \<Longrightarrow> distinct (map rt_token (refresh_tokens d))"
  by (simp add: db_ok_def tokens_ok_def)

lemma consume_token_eq:
  assumes "distinct (map rt_token (refresh_tokens d))"
  shows "fst (consume_token now t d) = one_row (map_option revoke_row (live_token now t d))"
  by (simp add: consume_token_def find_consumable [OF assms])

lemma find_token_consume:
  "find_token t (snd (consume_token now t' d)) =
     map_option (\<lambda>k. if consumable now t' k then revoke_row k else k) (find_token t d)"
  by (simp add: consume_token_def find_token_def consume_row.find_upd)

lemma consume_none:
  assumes "distinct (map rt_token (refresh_tokens d))" and "live_token now t d = None"
  shows "snd (consume_token now t d) = d"
proof -
  have "\<not> consumable now t k" if "k \<in> set (refresh_tokens d)" for k
    using assms that find_consumable [of d now t] by (auto simp: find_None_iff)
  then have "map (\<lambda>k. if consumable now t k then revoke_row k else k) (refresh_tokens d)
      = refresh_tokens d"
    by (auto intro: map_idI)
  then show ?thesis by (simp add: consume_token_def)
qed

lemma consume_revokes:
  assumes "fst (consume_token now t d) = Inr k" and "distinct (map rt_token (refresh_tokens d))"
  shows "token_revoked t (snd (consume_token now t d))"
proof -
  from assms obtain k' where k': "live_token now t d = Some k'"
    by (auto simp: consume_token_eq one_row_def split: option.splits)
  then have "find_token t d = Some k'" and "consumable now t k'"
    by (auto simp: live_token_def consumable_def dest: find_tokenD split: option.splits if_splits)
  then show ?thesis
    by (simp add: token_revoked_def find_token_consume)
qed

lemma ConsumeRefreshToken_ok:
  assumes "ConsumeRefreshToken t w = (Inr k, w')" and "db_ok x (db w)"
  shows "token_revoked t (db w') \<and> \<not> token_revoked t (db w)"
proof -
  from assms(1) have "fst (consume_token (db_now w) t (db w)) = Inr k"
    and "db w' = snd (consume_token (db_now w) t (db w))"
    by (auto simp: ConsumeRefreshToken_def exec_eq split: fault.splits)
  moreover from this(1) tokens_distinct [OF assms(2)] have "live_token (db_now w) t (db w) \<noteq> None"
    by (auto simp: consume_token_eq one_row_def split: option.splits)
  ultimately show ?thesis
    using consume_revokes tokens_distinct [OF assms(2)] revoked_not_live by metis
qed

lemma ConsumeRefreshToken_revoked:
  assumes "token_revoked t (db w)" and "db_ok x (db w)"
  shows "\<exists>e. fst (ConsumeRefreshToken t w) = Inl e \<and> (healthy w \<longrightarrow> e = ErrNoRows)"
proof -
  have "fst (consume_token (db_now w) t (db w)) = Inl ErrNoRows"
    using revoked_not_live [OF assms(1)] tokens_distinct [OF assms(2)]
    by (simp add: consume_token_eq one_row_def)
  then show ?thesis
    by (auto simp: ConsumeRefreshToken_def exec_eq split: fault.splits)
qed

subsection \<open>Refresh\<close>

lemma refresh_tx_ok:
  assumes "refresh_tx x s t w = (Inr r, w')" and "db_ok x (db w)"
  shows "token_revoked (hashOpaqueToken x t) (db w') \<and> \<not> token_revoked (hashOpaqueToken x t) (db w)"
proof -
  have rest: "evolves world_le (refresh_consumed x s rt)" for rt
    unfolding refresh_consumed_def by (intro evolves_rules)
  obtain c w1 where c: "ConsumeRefreshToken (hashOpaqueToken x t) w = (c, w1)" by fastforce
  show ?thesis
  proof (cases c)
    case (Inl e)
    with assms(1) show ?thesis
      by (simp add: refresh_tx_def call_step [where m = "ConsumeRefreshToken (hashOpaqueToken x t)", OF c] fail_def)
  next
    case (Inr k)
    with assms(1) have "refresh_consumed x s k w1 = (Inr r, w')"
      by (simp add: refresh_tx_def call_step [where m = "ConsumeRefreshToken (hashOpaqueToken x t)", OF c])
    with rest [of k] have "db_le (db w1) (db w')"
      by (metis evolves_def snd_conv world_le_def)
    with ConsumeRefreshToken_ok [OF c [unfolded Inr] assms(2)] show ?thesis
      by (blast intro: db_le_revoked)
  qed
qed

lemma Refresh_ok:
  assumes "Refresh x s t w = (Inr r, w')" and "db_ok x (db w)"
  shows "token_revoked (hashOpaqueToken x t) (db w') \<and> \<not> token_revoked (hashOpaqueToken x t) (db w)"
proof -
  obtain c w1 where c: "WithTx (refresh_tx x s t) w = (c, w1)" by fastforce
  with assms(1) obtain a where a: "c = Inr a"
    by (cases c) (auto simp: Refresh_def WithTxQueries_def attempt_apply)
  from WithTx_commit [OF c [unfolded a]] obtain w2
    where body: "refresh_tx x s t (next_fault w) = (Inr a, w2)" and w1: "w1 = next_fault w2" by blast
  from refresh_tx_ok [OF body] assms(2)
  have "token_revoked (hashOpaqueToken x t) (db w1)" "\<not> token_revoked (hashOpaqueToken x t) (db w)"
    by (simp_all add: w1)
  moreover from assms(1) c a have "db w' = db w1"
    by (auto simp: Refresh_def WithTxQueries_def attempt_apply GenerateAccessToken_ok ret_def
        split: prod.splits sum.splits)
  ultimately show ?thesis by simp
qed

lemma Refresh_revoked:
  assumes "token_revoked (hashOpaqueToken x t) (db w)" and "db_ok x (db w)"
  shows "\<exists>e. fst (Refresh x s t w) = Inl e \<and> (healthy w \<longrightarrow> e = ErrInvalidToken)"
proof -
  obtain c w1 where c: "ConsumeRefreshToken (hashOpaqueToken x t) (next_fault w) = (c, w1)" by fastforce
  obtain e where e: "c = Inl e" and "healthy (next_fault w) \<longrightarrow> e = ErrNoRows"
    using ConsumeRefreshToken_revoked [of "hashOpaqueToken x t" "next_fault w" x] assms c by auto
  then have no_rows: "healthy w \<Longrightarrow> e = ErrNoRows" by simp
  have w1: "healthy w \<Longrightarrow> healthy w1"
    using c by (auto simp: updates_healthy)
  have "refresh_tx x s t (next_fault w) = (Inl (no_rows_is_invalid_token e), w1)"
    using c e by (simp add: refresh_tx_def call_apply fail_def)
  then show ?thesis
    using no_rows w1
    by (auto simp: Refresh_def WithTxQueries_def attempt_apply WithTx_eq no_rows_is_invalid_token_def)
qed

lemma find_map_other:
  "(\<And>k. k \<in> set ks \<Longrightarrow> P (f k) = P k) \<Longrightarrow> find P (map f ks) = map_option f (find P ks)"
  by (induction ks) auto

lemma insert_token_ok:
  assumes "find_token t d = None" and "find_user u d \<noteq> None" and "find_org r d \<noteq> None"
  shows "insert_token now t u r expires d =
     (Inr \<lparr>rt_token = t, rt_user_id = u, rt_expires_at = expires, rt_revoked = False,
           rt_created_at = now, rt_org_id = r\<rparr>,
      d\<lparr>refresh_tokens := refresh_tokens d @
          [\<lparr>rt_token = t, rt_user_id = u, rt_expires_at = expires, rt_revoked = False,
            rt_created_at = now, rt_org_id = r\<rparr>]\<rparr>)"
  using assms by (auto simp: insert_token_def find_token_def list_ex_iff find_None_iff Let_def)

lemma live_tokenD:
  "live_token now t d = Some k \<Longrightarrow> find_token t d = Some k \<and> consumable now t k"
  by (auto simp: live_token_def consumable_def dest: find_tokenD split: option.splits if_splits)

lemma consume_live:
  assumes "db_ok x d" and "live_token now t d = Some k"
  shows "consume_token now t d = (Inr (revoke_row k), snd (consume_token now t d))"
  using assms consume_token_eq [OF tokens_distinct [OF assms(1)], of now t]
  by (simp add: one_row_def prod_eq_iff)

lemma consume_frame [simp]:
  "users (snd (consume_token now t d)) = users d"
  "orgs (snd (consume_token now t d)) = orgs d"
  "org_memberships (snd (consume_token now t d)) = org_memberships d"
  "find_user i (snd (consume_token now t d)) = find_user i d"
  "find_org i (snd (consume_token now t d)) = find_org i d"
  "find_membership i j (snd (consume_token now t d)) = find_membership i j d"
  by (simp_all add: consume_token_def find_defs)

lemma membership_refs:
  assumes "db_ok x d" and "find_membership i j d = Some m"
  shows "find_user i d \<noteq> None" "find_org j d \<noteq> None" "om_user_id m = i" "om_org_id m = j"
    "om_role m \<in> {''admin'', ''member''}"
  using assms find_membershipD [OF assms(2)]
  by (auto simp: db_ok_def memberships_ok_def find_user_None_iff find_org_None_iff)

definition new_token_row :: "time \<Rightarrow> string \<Rightarrow> uuid \<Rightarrow> uuid \<Rightarrow> time \<Rightarrow> refresh_token" where
  "new_token_row now t u r expires =
     \<lparr>rt_token = t, rt_user_id = u, rt_expires_at = expires, rt_revoked = False,
      rt_created_at = now, rt_org_id = r\<rparr>"

definition rotated :: "ext \<Rightarrow> time \<Rightarrow> string \<Rightarrow> refresh_token \<Rightarrow> string \<Rightarrow> time \<Rightarrow> database \<Rightarrow> database" where
  "rotated x now t k nt expires d =
     (snd (consume_token now t d))\<lparr>refresh_tokens :=
        refresh_tokens (snd (consume_token now t d)) @
          [new_token_row now nt (rt_user_id k) (rt_org_id k) expires]\<rparr>"

lemma refresh_tx_live:
  assumes h: "healthy w" and ok: "db_ok x (db w)"
    and live: "live_token (db_now w) (hashOpaqueToken x t) (db w) = Some k"
    and mem: "find_membership (rt_user_id k) (rt_org_id k) (db w) = Some m"
    and usr: "find_user (rt_user_id k) (db w) = Some u"
    and rnd: "rand_src w (rand_pos w) = Some b"
    and fresh: "find_token (hashOpaqueToken x (hex_encode b)) (db w) = None"
  shows "\<exists>w'. refresh_tx x s t w = (Inr (u, hex_encode b, m), w') \<and> healthy w'
    \<and> db w' = rotated x (db_now w) (hashOpaqueToken x t) k (hashOpaqueToken x (hex_encode b))
               (app_now w + refreshExpiry s) (db w)
    \<and> rand_pos w' = Suc (rand_pos w) \<and> rand_src w' = rand_src w \<and> app_now w' = app_now w"
proof -
  let ?h = "hashOpaqueToken x t" and ?n = "hashOpaqueToken x (hex_encode b)"
  let ?d = "snd (consume_token (db_now w) ?h (db w))"
  have us: "us_id u = rt_user_id k" using find_userD [OF usr] by simp
  note refs = membership_refs [OF ok mem]
  have fresh': "find_token ?n ?d = None" by (simp add: find_token_consume fresh)
  have ins: "insert_token (db_now w) ?n (rt_user_id k) (rt_org_id k) e ?d
     = (Inr (new_token_row (db_now w) ?n (rt_user_id k) (rt_org_id k) e),
        ?d\<lparr>refresh_tokens := refresh_tokens ?d @ [new_token_row (db_now w) ?n (rt_user_id k) (rt_org_id k) e]\<rparr>)"
    for e
    using refs by (simp add: insert_token_ok [OF fresh'] new_token_row_def)
  show ?thesis
    using h us refs
    by (simp add: refresh_tx_def refresh_consumed_def call_apply attempt_apply updates_healthy
        consume_live [OF ok live, THEN arg_cong [where f = fst]]
        queries_healthy one_row_def mem usr GenerateRefreshToken_apply rnd read_world_def ret_def
        ins rotated_def)
qed

subsection \<open>Rotation\<close>

definition refresh_result :: "ext \<Rightarrow> service \<Rightarrow> string \<Rightarrow> string \<Rightarrow> refresh_response" where
  "refresh_result x s accessToken refreshToken =
     \<lparr>rr_access_token = accessToken, rr_refresh_token = refreshToken,
      rr_expires_in = whole_seconds (jwtExpiry s)\<rparr>"

definition keys_set :: "service \<Rightarrow> bool" where
  "keys_set s \<longleftrightarrow> jwtSecret s \<noteq> '''' \<and> jwtIssuer s \<noteq> '''' \<and> jwtAudience s \<noteq> ''''"

lemma Refresh_live:
  assumes "healthy w" and "db_ok x (db w)" and "keys_set s"
    and "live_token (db_now w) (hashOpaqueToken x t) (db w) = Some k"
    and "find_user (rt_user_id k) (db w) = Some u"
    and "find_membership (rt_user_id k) (rt_org_id k) (db w) = Some m"
    and "rand_src w (rand_pos w) = Some b" and "rand_src w (Suc (rand_pos w)) = Some j"
    and "find_token (hashOpaqueToken x (hex_encode b)) (db w) = None"
    and "jwt_sign x (jwtSecret s)
           (issued_claims x (uuid_string x (us_id u)) (uuid_string x (om_org_id m)) (om_role m)
              (us_token_version u) (hex_encode j) (jwtIssuer s) (jwtAudience s) (app_now w)
              (jwtExpiry s)) = Some at"
  shows "fst (Refresh x s t w) = Inr (refresh_result x s at (hex_encode b))
    \<and> db (snd (Refresh x s t w)) =
        rotated x (db_now w) (hashOpaqueToken x t) k (hashOpaqueToken x (hex_encode b))
          (app_now w + refreshExpiry s) (db w)"
proof -
  obtain w' where body: "refresh_tx x s t (next_fault w) = (Inr (u, hex_encode b, m), w')"
    and h: "healthy w'"
    and db: "db w' = rotated x (db_now w) (hashOpaqueToken x t) k (hashOpaqueToken x (hex_encode b))
               (app_now w + refreshExpiry s) (db w)"
    and pos: "rand_pos w' = Suc (rand_pos w)" "rand_src w' = rand_src w" "app_now w' = app_now w"
    using refresh_tx_live [of "next_fault w" x t k m u b s] assms by auto
  have tx: "WithTxQueries (refresh_tx x s t) w = (Inr (u, hex_encode b, m), next_fault w')"
    using WithTx_healthy [OF assms(1), of "refresh_tx x s t"] body h by (simp add: WithTxQueries_def)
  have "GenerateAccessToken x (uuid_string x (us_id u)) (uuid_string x (om_org_id m)) (om_role m)
      (us_token_version u) (jwtSecret s) (jwtIssuer s) (jwtAudience s) (jwtExpiry s) (next_fault w')
      = (Inr at, next_fault w'\<lparr>rand_pos := Suc (rand_pos (next_fault w'))\<rparr>)"
    using assms pos by (simp add: GenerateAccessToken_ok keys_set_def)
  with tx show ?thesis
    by (simp add: Refresh_def attempt_apply ret_def refresh_result_def db)
qed

lemma refresh_tx_dead:
  assumes h: "healthy w" and ok: "db_ok x (db w)"
    and dead: "live_token (db_now w) (hashOpaqueToken x t) (db w) = None
      \<or> (\<exists>k. live_token (db_now w) (hashOpaqueToken x t) (db w) = Some k
            \<and> find_membership (rt_user_id k) (rt_org_id k) (db w) = None)"
  shows "\<exists>w'. refresh_tx x s t w = (Inl ErrInvalidToken, w') \<and> healthy w'"
  using dead
proof
  assume none: "live_token (db_now w) (hashOpaqueToken x t) (db w) = None"
  show ?thesis
    using h by (simp add: refresh_tx_def call_apply updates_healthy fail_def one_row_def
        consume_token_eq [OF tokens_distinct [OF ok]] none no_rows_is_invalid_token_def)
next
  assume "\<exists>k. live_token (db_now w) (hashOpaqueToken x t) (db w) = Some k
            \<and> find_membership (rt_user_id k) (rt_org_id k) (db w) = None"
  then obtain k where k: "live_token (db_now w) (hashOpaqueToken x t) (db w) = Some k"
    and nomem: "find_membership (rt_user_id k) (rt_org_id k) (db w) = None" by blast
  show ?thesis
    using h nomem find_userD
    by (auto simp: refresh_tx_def refresh_consumed_def call_apply updates_healthy queries_healthy
        fail_def one_row_def consume_token_eq [OF tokens_distinct [OF ok]] k
        no_rows_is_invalid_token_def split: option.splits)
qed

lemma Refresh_dead:
  assumes "healthy w" and "db_ok x (db w)"
    and "live_token (db_now w) (hashOpaqueToken x t) (db w) = None
      \<or> (\<exists>k. live_token (db_now w) (hashOpaqueToken x t) (db w) = Some k
            \<and> find_membership (rt_user_id k) (rt_org_id k) (db w) = None)"
  shows "fst (Refresh x s t w) = Inl ErrInvalidToken \<and> db (snd (Refresh x s t w)) = db w"
proof -
  obtain w' where "refresh_tx x s t (next_fault w) = (Inl ErrInvalidToken, w')" "healthy w'"
    using refresh_tx_dead [of "next_fault w" x t s] assms by auto
  then show ?thesis
    using WithTx_healthy [OF assms(1), of "refresh_tx x s t"]
    by (simp add: Refresh_def WithTxQueries_def attempt_apply)
qed

subsection \<open>Logout\<close>

definition logged_out :: "ext \<Rightarrow> time \<Rightarrow> uuid \<Rightarrow> database \<Rightarrow> database" where
  "logged_out x now i d =
     d\<lparr>users := map (bump_row now i) (users d),
       refresh_tokens := map (\<lambda>k. if rt_user_id k = i then revoke_row k else k) (refresh_tokens d)\<rparr>"

lemma increment_small:
  assumes "\<And>u. u \<in> set (users d) \<Longrightarrow> us_id u = i \<Longrightarrow> us_token_version u < max_int32"
  shows "increment_version now i d = (Inr (), d\<lparr>users := map (bump_row now i) (users d)\<rparr>)"
  using assms by (force simp: increment_version_def list_ex_iff)

lemma revoke_after_consume:
  assumes "live_token now t d = Some k" and "db_ok x d"
  shows "map (\<lambda>k'. if rt_user_id k' = rt_user_id k then revoke_row k' else k')
           (refresh_tokens (snd (consume_token now t d)))
       = map (\<lambda>k'. if rt_user_id k' = rt_user_id k then revoke_row k' else k') (refresh_tokens d)"
proof -
  from live_tokenD [OF assms(1)] have k: "k \<in> set (refresh_tokens d)" "rt_token k = t"
    by (auto dest: find_tokenD)
  have "k' = k" if "k' \<in> set (refresh_tokens d)" "consumable now t k'" for k'
    using that k distinct_map_key_unique [OF tokens_distinct [OF assms(2)]]
    by (auto simp: consumable_def)
  then show ?thesis
    by (auto simp: consume_token_def revoke_row_def)
qed

lemma consume_overwritten:
  "(snd (consume_token now t d))\<lparr>users := U, refresh_tokens := R\<rparr> = d\<lparr>users := U, refresh_tokens := R\<rparr>"
  by (simp add: consume_token_def)

lemma unique_user:
  assumes "db_ok x d" and "find_user i d = Some u" and "v \<in> set (users d)" and "us_id v = i"
  shows "v = u"
  using assms find_userD [OF assms(2)] distinct_map_key_unique [of us_id "users d" v u]
  by (auto simp: db_ok_def users_ok_def)

lemma logout_tx_live:
  assumes h: "healthy w" and ok: "db_ok x (db w)"
    and live: "live_token (db_now w) (hashOpaqueToken x t) (db w) = Some k"
    and usr: "find_user (rt_user_id k) (db w) = Some u"
    and small: "us_token_version u < max_int32"
  shows "\<exists>w'. logout_tx x t w = (Inr (), w') \<and> healthy w'
    \<and> db w' = logged_out x (db_now w) (rt_user_id k) (db w)"
proof -
  have inc: "increment_version (db_now w) (rt_user_id k) (snd (consume_token now t' (db w)))
      = (Inr (), snd (consume_token now t' (db w))\<lparr>users := map (bump_row (db_now w) (rt_user_id k)) (users (db w))\<rparr>)"
    for now t'
    using unique_user [OF ok usr] small by (subst increment_small) auto
  show ?thesis
    using h
    by (simp add: logout_tx_def call_apply attempt_apply updates_healthy
        consume_live [OF ok live, THEN arg_cong [where f = fst]] inc revoke_user_tokens_def
        logged_out_def revoke_after_consume [OF live ok] consume_overwritten)
qed

lemma Logout_live:
  assumes "healthy w" and "db_ok x (db w)"
    and "live_token (db_now w) (hashOpaqueToken x t) (db w) = Some k"
    and "find_user (rt_user_id k) (db w) = Some u" and "us_token_version u < max_int32"
  shows "fst (Logout x t w) = Inr ()
    \<and> db (snd (Logout x t w)) = logged_out x (db_now w) (rt_user_id k) (db w)"
proof -
  obtain w' where "logout_tx x t (next_fault w) = (Inr (), w')" "healthy w'"
    "db w' = logged_out x (db_now w) (rt_user_id k) (db w)"
    using logout_tx_live [of "next_fault w" x t k u] assms by auto
  then show ?thesis
    using WithTx_healthy [OF assms(1), of "logout_tx x t"] by (simp add: Logout_def WithTxQueries_def)
qed

lemma Logout_dead:
  assumes "healthy w" and "db_ok x (db w)"
    and "live_token (db_now w) (hashOpaqueToken x t) (db w) = None"
  shows "fst (Logout x t w) = Inr () \<and> db (snd (Logout x t w)) = db w"
  using assms WithTx_healthy [OF assms(1), of "logout_tx x t"]
    consume_none [OF tokens_distinct [OF assms(2)] assms(3)]
  by (simp add: Logout_def WithTxQueries_def logout_tx_def call_apply updates_healthy ret_def
      consume_token_eq [OF tokens_distinct [OF assms(2)]] one_row_def)

lemma Logout_overflow:
  assumes "healthy w" and "db_ok x (db w)"
    and "live_token (db_now w) (hashOpaqueToken x t) (db w) = Some k"
    and "find_user (rt_user_id k) (db w) = Some u" and "us_token_version u = max_int32"
  shows "fst (Logout x t w) = Inl integer_out_of_range \<and> db (snd (Logout x t w)) = db w"
proof -
  have inc: "increment_version now (rt_user_id k) (snd (consume_token n t' (db w)))
      = (Inl integer_out_of_range, snd (consume_token n t' (db w)))" for now n t'
    using find_userD [OF assms(4)] assms(5) by (auto simp: increment_version_def list_ex_iff)
  show ?thesis
    using assms WithTx_healthy [OF assms(1), of "logout_tx x t"]
    by (simp add: Logout_def WithTxQueries_def logout_tx_def call_apply attempt_apply updates_healthy
        consume_live [OF assms(2,3), THEN arg_cong [where f = fst]] inc)
qed

subsection \<open>After the sessions of a user have ended\<close>

text \<open>
  \<open>sessions_ended i d e\<close>: from the tables \<open>d\<close> to the tables \<open>e\<close>, every refresh token
  of the user \<open>i\<close> was revoked and none appeared or disappeared.
\<close>

definition sessions_ended :: "uuid \<Rightarrow> database \<Rightarrow> database \<Rightarrow> bool" where
  "sessions_ended i d e \<longleftrightarrow> refresh_tokens e =
     map (\<lambda>k. if rt_user_id k = i then revoke_row k else k) (refresh_tokens d)"

lemma sessions_ended_logout: "sessions_ended i d (logged_out x now i d)"
  by (simp add: sessions_ended_def logged_out_def)

lemma sessions_ended_revoked:
  assumes "sessions_ended i d e" and "l \<in> set (refresh_tokens e)" and "rt_user_id l = i"
  shows "rt_revoked l"
proof -
  from assms(1,2) have "l \<in> (\<lambda>k. if rt_user_id k = i then revoke_row k else k) ` set (refresh_tokens d)"
    by (simp add: sessions_ended_def)
  then obtain k where "l = (if rt_user_id k = i then revoke_row k else k)" by (rule imageE)
  with assms(3) show ?thesis by (simp split: if_splits)
qed

lemma sessions_ended_token:
  assumes "sessions_ended i d e" and "find_token t d = Some k" and "rt_user_id k = i"
  shows "token_revoked t e"
  using assms revoke_all.find_upd [of t i "refresh_tokens d"]
  by (simp add: token_revoked_def find_token_def sessions_ended_def)

lemma logged_out_users:
  "find_user j (logged_out x now i d) = map_option (bump_row now i) (find_user j d)"
  by (simp add: find_user_def logged_out_def bump.find_upd)

lemma bump_other: "us_id u \<noteq> i \<Longrightarrow> bump_row now i u = u"
  by (simp add: bump_row_def)

lemma logged_out_other:
  assumes "j \<noteq> i"
  shows "find_user j (logged_out x now i d) = find_user j d"
proof (cases "find_user j d")
  case (Some u)
  with assms find_userD [OF Some] show ?thesis by (simp add: logged_out_users bump_other)
qed (simp add: logged_out_users)

lemma Refresh_after_end:
  assumes "db_ok x (db w1)" and "token_revoked (hashOpaqueToken x t) (db w1)" and "steps x s w1 w2"
  shows "\<exists>e. fst (Refresh x s t w2) = Inl e \<and> (healthy w2 \<longrightarrow> e = ErrInvalidToken)"
  using Refresh_revoked db_le_revoked [OF steps_evolve [OF assms(3)] assms(2)]
    steps_keep_db_ok [OF assms(3,1)] by blast

end
