(* ===== verification/Accounts.thy ===== *)
theory Accounts
  imports Sessions "HOL-Library.Multiset"
begin

text \<open>
  Accounts: registration creates a user, an org and an admin membership together or not at
  all, whatever fails on the way; login succeeds only with the password of the account and a
  membership of its user, and then adds one refresh token.
\<close>

subsection \<open>Inversion of successful calls\<close>

lemma exec_okD:
  "exec s w = (Inr a, w') \<Longrightarrow> s (db w) = (Inr a, db w') \<and> w' = next_fault w\<lparr>db := db w'\<rparr>"
  by (auto simp: exec_eq prod_eq_iff split: fault.splits)

lemma exec_read_okD:
  "exec (\<lambda>d. (f d, d)) w = (Inr a, w') \<Longrightarrow> f (db w) = Inr a \<and> w' = next_fault w"
  by (auto simp: exec_eq split: fault.splits)

lemma insert_user_okD:
  "insert_user x now i email hash name d = (Inr u, d') \<Longrightarrow>
     d' = d\<lparr>users := users d @ [u]\<rparr> \<and> us_email u = email \<and> us_password_hash u = hash
     \<and> us_full_name u = name \<and> us_token_version u = 0 \<and> us_id u \<notin> us_id ` set (users d)
     \<and> find_user_email x email d = None"
  by (auto simp: insert_user_def Let_def list_ex_iff find_user_email_def find_None_iff split: if_splits)

lemma insert_org_okD:
  "insert_org now i name d = (Inr r, d') \<Longrightarrow> d' = d\<lparr>orgs := orgs d @ [r]\<rparr> \<and> or_id r = i \<and> or_name r = name"
  by (auto simp: insert_org_def Let_def split: if_splits)

lemma insert_membership_okD:
  "insert_membership now i u r role d = (Inr m, d') \<Longrightarrow>
     d' = d\<lparr>org_memberships := org_memberships d @ [m]\<rparr> \<and> om_user_id m = u \<and> om_org_id m = r \<and> om_role m = role"
  by (auto simp: insert_membership_def Let_def split: if_splits)

lemma insert_token_okD:
  "insert_token now t u r expires d = (Inr k, d') \<Longrightarrow>
     d' = d\<lparr>refresh_tokens := refresh_tokens d @ [k]\<rparr> \<and> k = new_token_row now t u r expires"
  by (auto simp: insert_token_def Let_def new_token_row_def split: if_splits)

lemma CreateUser_okD:
  "CreateUser x email hash name w = (Inr u, w') \<Longrightarrow>
     db w' = (db w)\<lparr>users := users (db w) @ [u]\<rparr> \<and> us_email u = email \<and> us_password_hash u = hash
     \<and> us_full_name u = name \<and> us_token_version u = 0 \<and> us_id u \<notin> us_id ` set (users (db w))
     \<and> find_user_email x email (db w) = None"
  by (auto simp: CreateUser_def attempt_apply gen_random_uuid_def dest!: exec_okD insert_user_okD)

lemma CreateOrg_okD:
  "CreateOrg name w = (Inr r, w') \<Longrightarrow> db w' = (db w)\<lparr>orgs := orgs (db w) @ [r]\<rparr> \<and> or_name r = name"
  by (auto simp: CreateOrg_def attempt_apply gen_random_uuid_def dest!: exec_okD insert_org_okD)

lemma CreateOrgMembership_okD:
  "CreateOrgMembership u r role w = (Inr m, w') \<Longrightarrow>
     db w' = (db w)\<lparr>org_memberships := org_memberships (db w) @ [m]\<rparr>
     \<and> om_user_id m = u \<and> om_org_id m = r \<and> om_role m = role"
  by (auto simp: CreateOrgMembership_def attempt_apply gen_random_uuid_def
      dest!: exec_okD insert_membership_okD)

lemma CreateRefreshToken_okD:
  "CreateRefreshToken t u r expires w = (Inr k, w') \<Longrightarrow>
     db w' = (db w)\<lparr>refresh_tokens := refresh_tokens (db w) @ [new_token_row (db_now w) t u r expires]\<rparr>"
  by (auto simp: CreateRefreshToken_def dest!: exec_okD insert_token_okD)

subsection \<open>The tables of accounts\<close>

definition accounts_same :: "world \<Rightarrow> world \<Rightarrow> bool" where
  "accounts_same v w \<longleftrightarrow> users (db w) = users (db v) \<and> orgs (db w) = orgs (db v)
     \<and> org_memberships (db w) = org_memberships (db v)"

interpretation accounts: world_order accounts_same
  by unfold_locales (simp_all add: accounts_same_def)

text \<open>One new user, one new org without a name, and the membership that makes the user its admin.\<close>

definition account_added :: "string \<Rightarrow> string \<Rightarrow> database \<Rightarrow> database \<Rightarrow> bool" where
  "account_added email name d e \<longleftrightarrow> (\<exists>u r m.
     users e = users d @ [u] \<and> orgs e = orgs d @ [r] \<and> org_memberships e = org_memberships d @ [m]
     \<and> us_email u = email \<and> us_full_name u = name \<and> us_token_version u = 0 \<and> or_name r = ''''
     \<and> om_user_id m = us_id u \<and> om_org_id m = or_id r \<and> om_role m = RoleAdmin)"

definition account_step :: "string \<Rightarrow> string \<Rightarrow> world \<Rightarrow> world \<Rightarrow> bool" where
  "account_step email name v w \<longleftrightarrow> accounts_same v w \<or> account_added email name (db v) (db w)"

lemma evolves_call_before:
  assumes "evolves R m" and "\<And>r. evolves Q (k r)" and "\<And>u v w. R u v \<Longrightarrow> Q v w \<Longrightarrow> Q u w"
  shows "evolves Q (call m k)"
  using assms unfolding evolves_def call_def by (metis (mono_tags, lifting) case_prod_beta)

lemma evolves_attempt_before:
  assumes "evolves R m" and "\<And>a. evolves Q (k a)" and "\<And>u v w. R u v \<Longrightarrow> Q v w \<Longrightarrow> Q u w"
    and "\<And>w. Q w w"
  shows "evolves Q (attempt m k)"
  unfolding attempt_def
  by (rule evolves_call_before [OF assms(1) _ assms(3)])
     (use assms(2,4) in \<open>auto simp: evolves_def fail_def split: sum.splits\<close>)

lemma evolves_attempt_after:
  assumes "evolves Q m" and "\<And>a. evolves R (k a)" and "\<And>u v w. Q u v \<Longrightarrow> R v w \<Longrightarrow> Q u w"
  shows "evolves Q (attempt m k)"
  using assms unfolding evolves_def attempt_apply
  by (auto split: prod.splits sum.splits) (metis snd_conv)+

lemma evolves_exec_accounts:
  "(\<And>d. users (snd (s d)) = users d \<and> orgs (snd (s d)) = orgs d \<and> org_memberships (snd (s d)) = org_memberships d)
   \<Longrightarrow> evolves accounts_same (exec s)"
  unfolding evolves_def accounts_same_def by (metis exec_db)

lemma evolves_accounts_oracles:
  "evolves accounts_same rand_read" "evolves accounts_same take_fault"
  "evolves accounts_same gen_random_uuid"
  by (simp_all add: evolves_def rand_read_def take_fault_def gen_random_uuid_def accounts_same_def)

lemma evolves_accounts_queries:
  "evolves accounts_same (GetUserByEmail x e)"
  "evolves accounts_same (ListOrgMembershipsByUser u)"
  by (simp_all add: query_defs evolves_exec_accounts)

lemma evolves_accounts_CreateRefreshToken: "evolves accounts_same (CreateRefreshToken t u r expires)"
proof -
  have "accounts_same w (snd (exec (insert_token (db_now w) t u r expires) w))" for w
    by (rule evolves_exec_accounts [unfolded evolves_def, rule_format]) (simp add: insert_token_def Let_def)
  then show ?thesis by (simp add: evolves_def CreateRefreshToken_def)
qed

lemma evolves_accounts_tokens:
  "evolves accounts_same GenerateRefreshToken"
  "evolves accounts_same (GenerateAccessToken x u r role v secret iss aud expiry)"
  unfolding GenerateRefreshToken_def GenerateAccessToken_def
  by (intro accounts.evolves_intros evolves_accounts_oracles evolves_if evolves_option)+

lemma evolves_accounts_issue: "evolves accounts_same (issueTokens x s u r role)"
  unfolding issueTokens_def
  by (intro accounts.evolves_intros evolves_accounts_tokens evolves_accounts_CreateRefreshToken)

lemma evolves_accounts_bcrypt: "evolves accounts_same (generate_from_password x p c)"
  unfolding generate_from_password_def
  by (intro accounts.evolves_intros evolves_accounts_oracles evolves_option)

subsection \<open>Register\<close>

lemma WithTx_committed:
  "db (snd (WithTx fn w)) = db w
   \<or> (\<exists>a w2. fn (next_fault w) = (Inr a, w2) \<and> db (snd (WithTx fn w)) = db w2)"
  by (auto simp: WithTx_eq split: prod.splits sum.splits fault.splits)

lemma register_tx_okD:
  assumes "register_tx x email hash name w = (Inr (u, r), w')"
  shows "\<exists>m. db w' = (db w)\<lparr>users := users (db w) @ [u], orgs := orgs (db w) @ [r],
             org_memberships := org_memberships (db w) @ [m]\<rparr>
     \<and> us_email u = email \<and> us_password_hash u = hash \<and> us_full_name u = name
     \<and> us_token_version u = 0 \<and> or_name r = '''' \<and> us_id u \<notin> us_id ` set (users (db w))
     \<and> om_user_id m = us_id u \<and> om_org_id m = or_id r \<and> om_role m = RoleAdmin
     \<and> find_user_email x email (db w) = None"
proof -
  obtain c w1 where c: "CreateUser x email hash name w = (c, w1)" by fastforce
  with assms have "c = Inr u \<and> attempt (CreateOrg '''') (\<lambda>org.
      attempt (CreateOrgMembership (us_id u) (or_id org) RoleAdmin) (\<lambda>_. ret (u, org))) w1 = (Inr (u, r), w')"
    by (auto simp: register_tx_def call_apply fail_def attempt_apply ret_def
        split: sum.splits if_splits prod.splits)
  then obtain m w2 w3 where c': "c = Inr u" and o: "CreateOrg '''' w1 = (Inr r, w2)"
    and m: "CreateOrgMembership (us_id u) (or_id r) RoleAdmin w2 = (Inr m, w3)" and w': "w' = w3"
    by (auto simp: ret_def elim!: attempt_okD)
  show ?thesis
    using CreateUser_okD [OF c [unfolded c']] CreateOrg_okD [OF o] CreateOrgMembership_okD [OF m] w'
    by auto
qed

lemma account_step_refl: "account_step e n w w"
  by (simp add: account_step_def accounts_same_def)

lemma account_step_before: "accounts_same u v \<Longrightarrow> account_step e n v w \<Longrightarrow> account_step e n u w"
  and account_step_after: "account_step e n u v \<Longrightarrow> accounts_same v w \<Longrightarrow> account_step e n u w"
  by (auto simp: account_step_def accounts_same_def account_added_def)

lemma evolves_register_tx: "evolves (account_step email name) (WithTxQueries (register_tx x email hash name))"
proof -
  have "account_step email name w (snd (WithTx (register_tx x email hash name) w))" for w
    using WithTx_committed [of "register_tx x email hash name" w]
  proof (elim disjE exE conjE)
    assume "db (snd (WithTx (register_tx x email hash name) w)) = db w"
    then show ?thesis by (simp add: account_step_def accounts_same_def)
  next
    fix a w2
    assume run: "register_tx x email hash name (next_fault w) = (Inr a, w2)"
      and db: "db (snd (WithTx (register_tx x email hash name) w)) = db w2"
    obtain u r where a: "a = (u, r)" by fastforce
    from register_tx_okD [OF run [unfolded a]] db show ?thesis
      by (auto simp: account_step_def account_added_def)
  qed
  then show ?thesis by (simp add: evolves_def WithTxQueries_def)
qed

lemma Register_account_step:
  assumes "normalizeEmail x e = Inr email"
  shows "account_step email name w (snd (Register x s e password name w))"
proof -
  have "evolves (account_step email name) (Register x s e password name)"
    unfolding Register_def assms sum.case
    by (intro evolves_option evolves_sum evolves_if evolves_prod
        evolves_call_before [OF evolves_accounts_queries(1) _ account_step_before]
        evolves_attempt_before [OF evolves_accounts_bcrypt _ account_step_before account_step_refl]
        evolves_attempt_after [OF evolves_register_tx _ account_step_after] evolves_accounts_issue)
       (auto simp: evolves_def fail_def account_step_refl
          evolves_accounts_issue [unfolded evolves_def, rule_format])
  then show ?thesis by (simp add: evolves_def)
qed


definition new_user :: "time \<Rightarrow> uuid \<Rightarrow> string \<Rightarrow> string \<Rightarrow> string \<Rightarrow> user" where
  "new_user now i email hash name =
     \<lparr>us_id = i, us_email = email, us_password_hash = hash, us_full_name = name,
      us_created_at = now, us_updated_at = now, us_token_version = 0\<rparr>"

lemma new_user_simps [simp]:
  "us_id (new_user now i email hash name) = i"
  "us_email (new_user now i email hash name) = email"
  "us_password_hash (new_user now i email hash name) = hash"
  "us_full_name (new_user now i email hash name) = name"
  "us_token_version (new_user now i email hash name) = 0"
  by (simp_all add: new_user_def)

definition registered ::
    "time \<Rightarrow> uuid \<Rightarrow> uuid \<Rightarrow> uuid \<Rightarrow> string \<Rightarrow> string \<Rightarrow> string \<Rightarrow> database \<Rightarrow> database" where
  "registered now ui oi mi email hash name d =
     d\<lparr>users := users d @ [new_user now ui email hash name],
       orgs := orgs d @ [\<lparr>or_id = oi, or_name = '''', or_created_at = now\<rparr>],
       org_memberships := org_memberships d @
         [\<lparr>om_id = mi, om_user_id = ui, om_org_id = oi, om_role = RoleAdmin, om_created_at = now\<rparr>]\<rparr>"

definition fresh_ids :: "uuid \<Rightarrow> uuid \<Rightarrow> uuid \<Rightarrow> database \<Rightarrow> bool" where
  "fresh_ids ui oi mi d \<longleftrightarrow> ui \<notin> us_id ` set (users d) \<and> oi \<notin> or_id ` set (orgs d)
     \<and> mi \<notin> om_id ` set (org_memberships d)"

definition auth_result :: "ext \<Rightarrow> service \<Rightarrow> user \<Rightarrow> string \<Rightarrow> string \<Rightarrow> auth_response" where
  "auth_result x s u accessToken refreshToken =
     \<lparr>ar_access_token = accessToken, ar_refresh_token = refreshToken,
      ar_user = \<lparr>ui_id = uuid_string x (us_id u), ui_email = us_email u, ui_full_name = us_full_name u\<rparr>,
      ar_expires_in = whole_seconds (jwtExpiry s)\<rparr>"

definition signs :: "ext \<Rightarrow> service \<Rightarrow> user \<Rightarrow> uuid \<Rightarrow> string \<Rightarrow> string \<Rightarrow> time \<Rightarrow> string \<Rightarrow> bool" where
  "signs x s u r role j now at \<longleftrightarrow> keys_set s \<and>
     jwt_sign x (jwtSecret s)
       (issued_claims x (uuid_string x (us_id u)) (uuid_string x r) role (us_token_version u)
          (hex_encode j) (jwtIssuer s) (jwtAudience s) now (jwtExpiry s)) = Some at"

lemma issueTokens_healthy:
  assumes "healthy w" and "rand_src w (rand_pos w) = Some j" and "signs x s u r role j (app_now w) at"
    and "rand_src w (Suc (rand_pos w)) = Some b"
    and "find_token (hashOpaqueToken x (hex_encode b)) (db w) = None"
    and "find_user (us_id u) (db w) \<noteq> None" and "find_org r (db w) \<noteq> None"
  shows "\<exists>w'. issueTokens x s u r role w = (Inr (auth_result x s u at (hex_encode b)), w')
    \<and> healthy w' \<and> db w' = (db w)\<lparr>refresh_tokens := refresh_tokens (db w) @
        [new_token_row (db_now w) (hashOpaqueToken x (hex_encode b)) (us_id u) r (app_now w + refreshExpiry s)]\<rparr>"
proof -
  have "GenerateAccessToken x (uuid_string x (us_id u)) (uuid_string x r) role (us_token_version u)
      (jwtSecret s) (jwtIssuer s) (jwtAudience s) (jwtExpiry s) w
      = (Inr at, w\<lparr>rand_pos := Suc (rand_pos w)\<rparr>)"
    using assms(2,3) by (simp add: GenerateAccessToken_ok signs_def keys_set_def)
  then show ?thesis
    using assms
    by (simp add: issueTokens_def attempt_apply GenerateRefreshToken_apply read_world_def
        updates_healthy insert_token_ok new_token_row_def ret_def auth_result_def)
qed

lemma db_ok_foreign_keys:
  assumes "db_ok x d"
  shows "k \<in> set (refresh_tokens d) \<Longrightarrow> rt_user_id k \<in> us_id ` set (users d)"
    and "m \<in> set (org_memberships d) \<Longrightarrow> om_user_id m \<in> us_id ` set (users d)"
    and "m \<in> set (org_memberships d) \<Longrightarrow> om_org_id m \<in> or_id ` set (orgs d)"
  using assms by (auto simp: db_ok_def tokens_ok_def memberships_ok_def)

lemma register_tx_fresh:
  assumes h: "healthy w" and ok: "db_ok x (db w)"
    and free: "find_user_email x email (db w) = None"
    and ids: "fresh_ids (uuid_src w (uuid_pos w)) (uuid_src w (Suc (uuid_pos w)))
               (uuid_src w (Suc (Suc (uuid_pos w)))) (db w)"
  shows "\<exists>w' r. register_tx x email hash name w =
      (Inr (new_user (db_now w) (uuid_src w (uuid_pos w)) email hash name, r), w')
    \<and> or_id r = uuid_src w (Suc (uuid_pos w)) \<and> healthy w'
    \<and> db w' = registered (db_now w) (uuid_src w (uuid_pos w)) (uuid_src w (Suc (uuid_pos w)))
               (uuid_src w (Suc (Suc (uuid_pos w)))) email hash name (db w)
    \<and> rand_pos w' = rand_pos w \<and> rand_src w' = rand_src w \<and> app_now w' = app_now w
    \<and> db_now w' = db_now w"
proof -
  let ?ui = "uuid_src w (uuid_pos w)" and ?oi = "uuid_src w (Suc (uuid_pos w))"
    and ?mi = "uuid_src w (Suc (Suc (uuid_pos w)))"
  let ?d1 = "(db w)\<lparr>users := users (db w) @ [new_user (db_now w) ?ui email hash name]\<rparr>"
  let ?d2 = "?d1\<lparr>orgs := orgs (db w) @ [\<lparr>or_id = ?oi, or_name = '''', or_created_at = db_now w\<rparr>]\<rparr>"
  have i1: "insert_user x (db_now w) ?ui email hash name (db w)
      = (Inr (new_user (db_now w) ?ui email hash name), ?d1)"
    using free ids
    by (auto simp: insert_user_def Let_def list_ex_iff find_user_email_def find_None_iff
        fresh_ids_def new_user_def image_iff)
  have i2: "insert_org (db_now w) ?oi '''' ?d1
      = (Inr \<lparr>or_id = ?oi, or_name = '''', or_created_at = db_now w\<rparr>, ?d2)"
    using ids by (auto simp: insert_org_def Let_def list_ex_iff fresh_ids_def image_iff)
  have no_member: "\<And>m. m \<in> set (org_memberships (db w)) \<Longrightarrow> om_user_id m \<noteq> ?ui"
    using db_ok_foreign_keys(2) [OF ok] ids by (metis fresh_ids_def)
  have found: "find_user ?ui ?d2 \<noteq> None" "find_org ?oi ?d2 \<noteq> None"
    by (auto simp: find_user_None_iff find_org_None_iff new_user_def)
  have i3: "insert_membership (db_now w) ?mi ?ui ?oi RoleAdmin ?d2
      = (Inr \<lparr>om_id = ?mi, om_user_id = ?ui, om_org_id = ?oi, om_role = RoleAdmin,
              om_created_at = db_now w\<rparr>,
         registered (db_now w) ?ui ?oi ?mi email hash name (db w))"
    using ids no_member found
    by (auto simp: insert_membership_def Let_def list_ex_iff fresh_ids_def registered_def
        RoleAdmin_def image_iff)
  show ?thesis
    using h i3
    by (simp add: register_tx_def call_apply attempt_apply CreateUser_def CreateOrg_def
        CreateOrgMembership_def gen_random_uuid_def exec_healthy i1 i2 ret_def)
qed

lemma Register_fresh:
  assumes "healthy w" and "db_ok x (db w)"
    and "normalizeEmail x e = Inr email" and "validatePassword x password = None"
    and "find_user_email x email (db w) = None"
    and "rand_src w (rand_pos w) = Some salt" and "bcrypt_generate x salt password 12 = Some hash"
    and "ui = uuid_src w (uuid_pos w)" and "oi = uuid_src w (Suc (uuid_pos w))"
    and "mi = uuid_src w (Suc (Suc (uuid_pos w)))" and "fresh_ids ui oi mi (db w)"
    and "u = new_user (db_now w) ui email hash name"
    and "rand_src w (Suc (rand_pos w)) = Some j" and "signs x s u oi RoleAdmin j (app_now w) at"
    and "rand_src w (Suc (Suc (rand_pos w))) = Some b"
    and "find_token (hashOpaqueToken x (hex_encode b)) (db w) = None"
  shows "fst (Register x s e password name w) = Inr (auth_result x s u at (hex_encode b))
    \<and> db (snd (Register x s e password name w)) =
        (registered (db_now w) ui oi mi email hash name (db w))\<lparr>refresh_tokens :=
          refresh_tokens (db w) @ [new_token_row (db_now w) (hashOpaqueToken x (hex_encode b)) ui oi
            (app_now w + refreshExpiry s)]\<rparr>
    \<and> healthy (snd (Register x s e password name w))"
proof -
  let ?w1 = "(next_fault w)\<lparr>rand_pos := Suc (rand_pos w)\<rparr>"
  have hash: "generate_from_password x password 12 (next_fault w) = (Inr hash, ?w1)"
    using assms by (simp add: generate_from_password_def attempt_apply rand_read_def ret_def)
  obtain w' r where tx: "register_tx x email hash name (next_fault ?w1) = (Inr (u, r), w')"
    and oid: "or_id r = oi" and h: "healthy w'"
    and d: "db w' = registered (db_now w) ui oi mi email hash name (db w)"
    and frame: "rand_pos w' = Suc (rand_pos w)" "rand_src w' = rand_src w" "app_now w' = app_now w"
      "db_now w' = db_now w"
    using register_tx_fresh [of "next_fault ?w1" x email hash name] assms by auto
  have run: "WithTxQueries (register_tx x email hash name) ?w1 = (Inr (u, r), next_fault w')"
    using WithTx_healthy [of ?w1 "register_tx x email hash name"] tx h assms(1)
    by (simp add: WithTxQueries_def)
  have refs: "find_user (us_id u) (db w') \<noteq> None" "find_org oi (db w') \<noteq> None"
    using assms(12) by (auto simp: d registered_def find_user_None_iff find_org_None_iff)
  have ui: "us_id u = ui" using assms(12) by (simp add: new_user_def)
  have toks: "refresh_tokens (db w') = refresh_tokens (db w)" by (simp add: d registered_def)
  have fresh: "find_token (hashOpaqueToken x (hex_encode b)) (db w') = None"
    using assms(16) toks by (simp add: find_token_def)
  obtain w2 where "issueTokens x s u (or_id r) RoleAdmin (next_fault w')
      = (Inr (auth_result x s u at (hex_encode b)), w2)" "healthy w2"
    "db w2 = (db w')\<lparr>refresh_tokens := refresh_tokens (db w) @
       [new_token_row (db_now w) (hashOpaqueToken x (hex_encode b)) ui oi (app_now w + refreshExpiry s)]\<rparr>"
    using issueTokens_healthy [of "next_fault w'" j x s u "or_id r" RoleAdmin at b]
      h frame assms(13-15) oid refs fresh toks ui by auto
  then show ?thesis
    using assms(1,3-5) hash run d
    by (simp add: Register_def call_apply queries_healthy one_row_def attempt_apply)
qed

subsection \<open>A registration that meets an existing account\<close>

lemma insert_user_taken:
  "find_user_email x email d \<noteq> None \<Longrightarrow> insert_user x now i email hash name d = (Inl unique_violation, d)"
  by (auto simp: insert_user_def find_user_email_def list_ex_iff dest: find_SomeD)

lemma register_tx_taken:
  assumes "healthy w" and "find_user_email x email (db w) \<noteq> None"
  shows "fst (WithTxQueries (register_tx x email hash name) w) = Inl ErrEmailExists
    \<and> db (snd (WithTxQueries (register_tx x email hash name) w)) = db w"
proof -
  have "\<exists>w'. register_tx x email hash name (next_fault w) = (Inl ErrEmailExists, w') \<and> healthy w'"
    using assms
    by (simp add: register_tx_def call_apply CreateUser_def attempt_apply gen_random_uuid_def
        exec_healthy insert_user_taken fail_def isUniqueEmailViolation_def unique_violation_def)
  then show ?thesis
    using WithTx_healthy [OF assms(1), of "register_tx x email hash name"]
    by (auto simp: WithTxQueries_def)
qed

lemma Register_taken:
  assumes "healthy w" and "normalizeEmail x e = Inr email" and "validatePassword x password = None"
    and "find_user_email x email (db w) \<noteq> None"
  shows "fst (Register x s e password name w) = Inl ErrEmailExists
    \<and> db (snd (Register x s e password name w)) = db w"
  using assms by (auto simp: Register_def call_apply queries_healthy one_row_def fail_def)

subsection \<open>The membership a login is for\<close>

lemma selectMembership_ok:
  assumes "selectMembership x ms orgID = Inr m"
  shows "m \<in> set ms \<and> (orgID = '''' \<and> ms = [m] \<or> orgID \<noteq> '''' \<and> uuid_parse x orgID = Some (om_org_id m))"
  using assms
  by (auto simp: selectMembership_def split: if_splits list.splits option.splits dest: find_SomeD)

lemma selectMembership_complete:
  assumes "distinct (map om_org_id ms)" and "m \<in> set ms"
    and "orgID = '''' \<and> ms = [m] \<or> orgID \<noteq> '''' \<and> uuid_parse x orgID = Some (om_org_id m)"
  shows "selectMembership x ms orgID = Inr m"
  using assms find_distinct_key [of om_org_id ms m]
  by (auto simp: selectMembership_def)

lemma selectMembership_error:
  "selectMembership x ms orgID = Inl e \<Longrightarrow> ms \<noteq> [] \<Longrightarrow> e = ErrOrgSelectionRequired \<or> e = ErrInvalidOrgSelection"
  by (auto simp: selectMembership_def split: if_splits list.splits option.splits)

lemma distinct_user_orgs:
  assumes "distinct (map (\<lambda>m. (om_user_id m, om_org_id m)) ms)"
  shows "distinct (map om_org_id (filter (\<lambda>m. om_user_id m = i) ms))"
  using assms by (induction ms) (auto simp: image_iff)

lemma distinct_map_sort_key: "distinct (map f (sort_key k xs)) \<longleftrightarrow> distinct (map f xs)"
  by (simp add: distinct_map)

lemma memberships_distinct:
  assumes "db_ok x d"
  shows "distinct (map om_org_id (sort_key om_created_at (filter (\<lambda>m. om_user_id m = i) (org_memberships d))))"
  using assms distinct_user_orgs [of "org_memberships d"]
  by (simp add: distinct_map_sort_key db_ok_def memberships_ok_def)

subsection \<open>Login\<close>

lemma issueTokens_okD:
  assumes "issueTokens x s u r role w = (Inr res, w')"
  shows "\<exists>at. res = auth_result x s u at (ar_refresh_token res)
    \<and> db w' = (db w)\<lparr>refresh_tokens := refresh_tokens (db w) @
        [new_token_row (db_now w) (hashOpaqueToken x (ar_refresh_token res)) (us_id u) r
          (app_now w + refreshExpiry s)]\<rparr>"
  using assms
  by (auto simp: issueTokens_def auth_result_def GenerateAccessToken_ok GenerateRefreshToken_apply
      read_world_def ret_def elim!: attempt_okD dest!: CreateRefreshToken_okD split: option.splits)

lemma issueTokens_errD:
  assumes "issueTokens x s u r role w = (Inl e, w')"
  shows "e \<notin> {ErrInvalidCredentials, ErrOrgSelectionRequired, ErrInvalidOrgSelection, ErrInvalidEmail,
              ErrEmailExists, ErrWeakPassword}"
  using assms
  by (auto simp: issueTokens_def attempt_apply GenerateAccessToken_def GenerateRefreshToken_apply
      call_defs CreateRefreshToken_def exec_eq insert_token_def Let_def pg_errors
      split: prod.splits sum.splits option.splits if_splits fault.splits)

lemma GetUserByEmail_okD:
  "GetUserByEmail x e w = (Inr u, w') \<Longrightarrow> find_user_email x e (db w) = Some u \<and> w' = next_fault w"
  by (auto simp: GetUserByEmail_def one_row_def dest!: exec_read_okD split: option.splits)

lemma ListOrgMembershipsByUser_okD:
  "ListOrgMembershipsByUser i w = (Inr ms, w') \<Longrightarrow>
     ms = sort_key om_created_at (filter (\<lambda>m. om_user_id m = i) (org_memberships (db w)))
     \<and> w' = next_fault w"
  by (auto simp: ListOrgMembershipsByUser_def dest!: exec_read_okD)

lemma sort_key_single: "sort_key f xs = [m] \<Longrightarrow> xs = [m]"
  by (metis mset_sort mset_single_iff_right)

lemma Login_okD:
  assumes "Login x s e password orgID w = (Inr res, w')"
  shows "\<exists>email u m at. normalizeEmail x e = Inr email \<and> find_user_email x email (db w) = Some u
    \<and> bcrypt_compare x (us_password_hash u) password
    \<and> m \<in> set (org_memberships (db w)) \<and> om_user_id m = us_id u
    \<and> (orgID \<noteq> '''' \<longrightarrow> uuid_parse x orgID = Some (om_org_id m))
    \<and> (orgID = '''' \<longrightarrow> filter (\<lambda>m. om_user_id m = us_id u) (org_memberships (db w)) = [m])
    \<and> res = auth_result x s u at (ar_refresh_token res)
    \<and> db w' = (db w)\<lparr>refresh_tokens := refresh_tokens (db w) @
        [new_token_row (db_now w) (hashOpaqueToken x (ar_refresh_token res)) (us_id u) (om_org_id m)
          (app_now w + refreshExpiry s)]\<rparr>"
proof -
  obtain email where email: "normalizeEmail x e = Inr email"
    using assms by (cases "normalizeEmail x e") (auto simp: Login_def fail_def)
  obtain c w1 where c: "GetUserByEmail x email w = (c, w1)" by fastforce
  with assms email obtain u where u: "c = Inr u"
    by (cases c) (auto simp: Login_def call_apply fail_def split: if_splits)
  note found = GetUserByEmail_okD [OF c [unfolded u]]
  from assms email c u have pw: "bcrypt_compare x (us_password_hash u) password"
    by (auto simp: Login_def call_apply fail_def split: if_splits)
  with assms email c u obtain ms m w2 where
    ms: "ListOrgMembershipsByUser (us_id u) w1 = (Inr ms, w2)"
    and sel: "selectMembership x ms orgID = Inr m"
    and iss: "issueTokens x s u (om_org_id m) (om_role m) w2 = (Inr res, w')"
    by (auto simp: Login_def call_apply fail_def lift_def elim!: attempt_okD split: if_splits)
  note ms' = ListOrgMembershipsByUser_okD [OF ms]
  from selectMembership_ok [OF sel] have "m \<in> set ms" by blast
  with ms' found have m: "m \<in> set (org_memberships (db w))" "om_user_id m = us_id u" by auto
  have single: "filter (\<lambda>m. om_user_id m = us_id u) (org_memberships (db w)) = [m]" if "orgID = ''''"
    using selectMembership_ok [OF sel] that ms' found sort_key_single by auto
  show ?thesis
    using email found pw m single selectMembership_ok [OF sel] issueTokens_okD [OF iss] ms'
    by auto
qed

lemma Login_rejects:
  assumes "healthy w"
    and "\<And>email. normalizeEmail x e = Inr email \<Longrightarrow> find_user_email x email (db w) = None
         \<or> (\<exists>u. find_user_email x email (db w) = Some u \<and> \<not> bcrypt_compare x (us_password_hash u) password)"
  shows "fst (Login x s e password orgID w) = Inl ErrInvalidCredentials
    \<and> db (snd (Login x s e password orgID w)) = db w"
  using assms
  by (cases "normalizeEmail x e")
     (force simp: Login_def fail_def call_apply queries_healthy one_row_def split: option.splits)+

lemma Login_live:
  assumes "healthy w" and "db_ok x (db w)" and "normalizeEmail x e = Inr email"
    and "find_user_email x email (db w) = Some u" and "bcrypt_compare x (us_password_hash u) password"
    and "m \<in> set (org_memberships (db w))" and "om_user_id m = us_id u"
    and "orgID = '''' \<and> filter (\<lambda>m. om_user_id m = us_id u) (org_memberships (db w)) = [m]
         \<or> orgID \<noteq> '''' \<and> uuid_parse x orgID = Some (om_org_id m)"
    and "rand_src w (rand_pos w) = Some j" and "signs x s u (om_org_id m) (om_role m) j (app_now w) at"
    and "rand_src w (Suc (rand_pos w)) = Some b"
    and "find_token (hashOpaqueToken x (hex_encode b)) (db w) = None"
  shows "fst (Login x s e password orgID w) = Inr (auth_result x s u at (hex_encode b))"
proof -
  let ?ms = "sort_key om_created_at (filter (\<lambda>m. om_user_id m = us_id u) (org_memberships (db w)))"
  have in_ms: "m \<in> set ?ms" using assms(6,7) by simp
  have sel: "selectMembership x ?ms orgID = Inr m"
    by (rule selectMembership_complete [OF memberships_distinct [OF assms(2)] in_ms])
       (use assms(8) in auto)
  have refs: "find_user (us_id u) (db w) \<noteq> None" "find_org (om_org_id m) (db w) \<noteq> None"
    using db_ok_foreign_keys(2,3) [OF assms(2,6)] assms(7)
    by (simp_all add: find_user_None_iff find_org_None_iff)
  have ne: "?ms \<noteq> []" using in_ms by (cases ?ms) auto
  show ?thesis
    using issueTokens_healthy [of "next_fault (next_fault w)" j x s u "om_org_id m" "om_role m" at b]
      assms refs sel ne in_ms
    by (auto simp: Login_def call_apply attempt_apply queries_healthy one_row_def lift_def)
qed

end
