(* ===== verification/Passwords.thy ===== *)
theory Passwords
  imports Accounts
begin

text \<open>
  Passwords: the policy, and the two ways to set a new one. A successful change stores the new
  hash, raises the token version and revokes the user's refresh tokens, together; a reset token
  is good for one attempt within the hour.
\<close>

subsection \<open>The policy\<close>

lemma scan_password_flags:
  "scan_password u rs (a, b, c) =
     (a \<or> (\<exists>r \<in> set rs. is_upper_rune u r),
      b \<or> (\<exists>r \<in> set rs. \<not> is_upper_rune u r \<and> is_lower_rune u r),
      c \<or> (\<exists>r \<in> set rs. \<not> is_upper_rune u r \<and> \<not> is_lower_rune u r \<and> is_digit_rune u r))"
  by (induction rs arbitrary: a b c) auto

lemma validatePassword_iff:
  "validatePassword x p = None \<longleftrightarrow> 12 \<le> length p
     \<and> (\<exists>r \<in> set (runes p). is_upper_rune (unicode x) r)
     \<and> (\<exists>r \<in> set (runes p). \<not> is_upper_rune (unicode x) r \<and> is_lower_rune (unicode x) r)
     \<and> (\<exists>r \<in> set (runes p). \<not> is_upper_rune (unicode x) r \<and> \<not> is_lower_rune (unicode x) r
            \<and> is_digit_rune (unicode x) r)"
  by (auto simp: validatePassword_def minPasswordLength_def scan_password_flags)

lemma validatePassword_error: "validatePassword x p = Some e \<Longrightarrow> e = ErrWeakPassword"
  by (auto simp: validatePassword_def split: if_splits prod.splits)

subsection \<open>Setting a password\<close>

definition password_changed :: "time \<Rightarrow> uuid \<Rightarrow> string \<Rightarrow> database \<Rightarrow> database" where
  "password_changed now i hash d =
     d\<lparr>users := map (\<lambda>u. bump_row now i (password_row now i hash u)) (users d),
       refresh_tokens := map (\<lambda>k. if rt_user_id k = i then revoke_row k else k) (refresh_tokens d)\<rparr>"

definition version_left :: "uuid \<Rightarrow> database \<Rightarrow> bool" where
  "version_left i d \<longleftrightarrow> (\<forall>u \<in> set (users d). us_id u = i \<longrightarrow> us_token_version u < max_int32)"

lemma set_password_healthy:
  assumes "healthy w" and "version_left i (db w)"
  shows "fst (WithTxQueries (set_password_tx i hash) w) = Inr ()
    \<and> db (snd (WithTxQueries (set_password_tx i hash) w)) = password_changed (db_now w) i hash (db w)
    \<and> cache (snd (WithTxQueries (set_password_tx i hash) w)) = cache w"
proof -
  have inc: "increment_version (db_now w) i (snd (update_password (db_now w) i hash (db w)))
      = (Inr (), (db w)\<lparr>users := map (\<lambda>u. bump_row (db_now w) i (password_row (db_now w) i hash u)) (users (db w))\<rparr>)"
  proof -
    have "us_token_version u < max_int32"
      if "u \<in> set (map (password_row (db_now w) i hash) (users (db w)))" and "us_id u = i" for u
    proof -
      from that(1) obtain v where "v \<in> set (users (db w))" "u = password_row (db_now w) i hash v" by auto
      with that(2) assms(2) show ?thesis by (simp add: version_left_def)
    qed
    then show ?thesis by (subst increment_small) (simp_all add: update_password_def)
  qed
  have "\<exists>w'. set_password_tx i hash (next_fault w) = (Inr (), w') \<and> healthy w'
      \<and> db w' = password_changed (db_now w) i hash (db w) \<and> cache w' = cache w"
    using assms(1) inc
    by (simp add: set_password_tx_def attempt_apply updates_healthy revoke_user_tokens_def
        password_changed_def)
  then show ?thesis
    using WithTx_healthy [OF assms(1), of "set_password_tx i hash"] by (auto simp: WithTxQueries_def)
qed

lemma generate_from_password_ok:
  "rand_src w (rand_pos w) = Some salt \<Longrightarrow> bcrypt_generate x salt p c = Some h \<Longrightarrow>
     generate_from_password x p c w = (Inr h, w\<lparr>rand_pos := Suc (rand_pos w)\<rparr>)"
  "rand_src w (rand_pos w) = Some salt \<Longrightarrow> bcrypt_generate x salt p c = None \<Longrightarrow>
     generate_from_password x p c w = (Inl ErrBcrypt, w\<lparr>rand_pos := Suc (rand_pos w)\<rparr>)"
  by (simp_all add: generate_from_password_def attempt_apply rand_read_def ret_def fail_def)

lemma db_now_update [simp]: "db_now (w\<lparr>rand_pos := r\<rparr>) = db_now w"
  by simp

definition live_reset :: "ext \<Rightarrow> world \<Rightarrow> string \<Rightarrow> uuid option" where
  "live_reset x w token = (case live (redis_now w) (cache w) (passwordResetCacheKey x token) of
     None \<Rightarrow> None | Some v \<Rightarrow> uuid_parse x (redis_text v))"

lemma ResetPassword_live:
  assumes "healthy w" and "validatePassword x password = None"
    and "live_reset x w token = Some i"
    and "rand_src w (rand_pos w) = Some salt" and "bcrypt_generate x salt password 12 = Some hash"
    and "version_left i (db w)"
  shows "fst (ResetPassword x token password w) = Inr ()
    \<and> db (snd (ResetPassword x token password w)) = password_changed (db_now w) i hash (db w)
    \<and> cache (snd (ResetPassword x token password w)) = (cache w)(passwordResetCacheKey x token := None)"
proof -
  let ?k = "passwordResetCacheKey x token"
  let ?w1 = "next_fault w\<lparr>cache := (cache w)(?k := None)\<rparr>"
  obtain v where v: "live (redis_now w) (cache w) ?k = Some v" "uuid_parse x (redis_text v) = Some i"
    using assms(3) by (auto simp: live_reset_def split: option.splits)
  have g: "generate_from_password x password 12 ?w1 = (Inr hash, ?w1\<lparr>rand_pos := Suc (rand_pos w)\<rparr>)"
    using assms(4,5) generate_from_password_ok(1) [of ?w1] by simp
  show ?thesis
    using set_password_healthy [of "?w1\<lparr>rand_pos := Suc (rand_pos w)\<rparr>" i hash] assms(1,2,6) v g
    by (simp add: ResetPassword_def call_apply redis_call_healthy getdel_command_def attempt_apply)
qed

lemma ResetPassword_dead:
  assumes "healthy w" and "validatePassword x password = None" and "live_reset x w token = None"
  shows "fst (ResetPassword x token password w) = Inl ErrInvalidToken
    \<and> db (snd (ResetPassword x token password w)) = db w"
  using assms
  by (auto simp: ResetPassword_def call_apply redis_call_healthy getdel_command_def fail_def
      live_reset_def split: option.splits)

lemma ResetPassword_hash_fails:
  assumes "healthy w" and "validatePassword x password = None"
    and "live_reset x w token = Some i"
    and "rand_src w (rand_pos w) = Some salt" and "bcrypt_generate x salt password 12 = None"
  shows "fst (ResetPassword x token password w) = Inl ErrBcrypt
    \<and> db (snd (ResetPassword x token password w)) = db w
    \<and> cache (snd (ResetPassword x token password w)) (passwordResetCacheKey x token) = None
    \<and> healthy (snd (ResetPassword x token password w))"
proof -
  let ?k = "passwordResetCacheKey x token"
  let ?w1 = "next_fault w\<lparr>cache := (cache w)(?k := None)\<rparr>"
  obtain v where v: "live (redis_now w) (cache w) ?k = Some v" "uuid_parse x (redis_text v) = Some i"
    using assms(3) by (auto simp: live_reset_def split: option.splits)
  have g: "generate_from_password x password 12 ?w1 = (Inl ErrBcrypt, ?w1\<lparr>rand_pos := Suc (rand_pos w)\<rparr>)"
    using assms(4,5) generate_from_password_ok(2) [of ?w1] by simp
  show ?thesis
    using assms(1,2) v g
    by (simp add: ResetPassword_def call_apply redis_call_healthy getdel_command_def attempt_apply)
qed

lemma ChangePassword_live:
  assumes "healthy w" and "validatePassword x next_pw = None" and "uuid_parse x userID = Some i"
    and "find_user i (db w) = Some u" and "bcrypt_compare x (us_password_hash u) current_pw"
    and "rand_src w (rand_pos w) = Some salt" and "bcrypt_generate x salt next_pw 12 = Some hash"
    and "version_left i (db w)"
  shows "fst (ChangePassword x userID current_pw next_pw w) = Inr ()
    \<and> db (snd (ChangePassword x userID current_pw next_pw w)) = password_changed (db_now w) i hash (db w)"
proof -
  have g: "generate_from_password x next_pw 12 (next_fault w)
      = (Inr hash, next_fault w\<lparr>rand_pos := Suc (rand_pos w)\<rparr>)"
    using assms(6,7) generate_from_password_ok(1) [of "next_fault w"] by simp
  show ?thesis
    using set_password_healthy [of "next_fault w\<lparr>rand_pos := Suc (rand_pos w)\<rparr>" i hash] assms(1-5,8) g
    by (simp add: ChangePassword_def attempt_apply queries_healthy one_row_def)
qed

lemma ChangePassword_wrong:
  assumes "healthy w" and "validatePassword x next_pw = None" and "uuid_parse x userID = Some i"
    and "find_user i (db w) = Some u" and "\<not> bcrypt_compare x (us_password_hash u) current_pw"
  shows "fst (ChangePassword x userID current_pw next_pw w) = Inl ErrWrongPassword
    \<and> db (snd (ChangePassword x userID current_pw next_pw w)) = db w"
  using assms by (simp add: ChangePassword_def attempt_apply queries_healthy one_row_def fail_def)

text \<open>What holds of the tables after a change.\<close>

lemma password_changed_effect:
  "find_user i (password_changed now i hash d) =
     map_option (\<lambda>u. u\<lparr>us_password_hash := hash, us_updated_at := now,
                       us_token_version := us_token_version u + 1\<rparr>) (find_user i d)"
  "j \<noteq> i \<Longrightarrow> find_user j (password_changed now i hash d) = find_user j d"
proof -
  let ?f = "\<lambda>u. bump_row now i (password_row now i hash u)"
  have eq: "find_user j (password_changed now i hash d) = map_option ?f (find_user j d)" for j
    using row_update.find_upd [of us_id ?f] by (simp add: row_update_def find_user_def password_changed_def)
  show "find_user i (password_changed now i hash d) =
     map_option (\<lambda>u. u\<lparr>us_password_hash := hash, us_updated_at := now,
                       us_token_version := us_token_version u + 1\<rparr>) (find_user i d)"
  proof (cases "find_user i d")
    case (Some u)
    then show ?thesis using find_userD [OF Some] by (simp add: eq row_defs)
  qed (simp add: eq)
  show "find_user j (password_changed now i hash d) = find_user j d" if "j \<noteq> i"
  proof (cases "find_user j d")
    case (Some u)
    then show ?thesis using find_userD [OF Some] that by (simp add: eq row_defs)
  qed (simp add: eq)
qed

lemma sessions_ended_password: "sessions_ended i d (password_changed now i hash d)"
  by (simp add: sessions_ended_def password_changed_def)

subsection \<open>Forgot password\<close>

lemma ForgotPassword_known:
  assumes "healthy w" and "normalizeEmail x e = Inr email"
    and "find_user_email x email (db w) = Some u" and "rand_src w (rand_pos w) = Some b"
  shows "fst (ForgotPassword x s e w) = Inr ()
    \<and> db (snd (ForgotPassword x s e w)) = db w
    \<and> cache (snd (ForgotPassword x s e w)) = (cache w)(passwordResetCacheKey x (hex_encode b) \<mapsto>
          (RStr (uuid_string x (us_id u)), Some (redis_now w + hour)))"
proof -
  let ?w1 = "next_fault (next_fault w\<lparr>rand_pos := Suc (rand_pos w)\<rparr>)\<lparr>cache :=
      (cache w)(passwordResetCacheKey x (hex_encode b) \<mapsto>
          (RStr (uuid_string x (us_id u)), Some (redis_now w + hour)))\<rparr>"
  let ?last = "if appBaseURL s = '''' then ret ()
      else call (SendPasswordReset (sender s) (us_email u) (reset_url s (hex_encode b))) (\<lambda>_. ret ())"
  have user: "GetUserByEmail x email w = (Inr u, next_fault w)"
    using assms by (simp add: queries_healthy one_row_def)
  have run: "ForgotPassword x s e w = ?last ?w1"
    using assms
    by (simp add: ForgotPassword_def call_step [where m = "GetUserByEmail x email", OF user]
        attempt_apply GenerateRefreshToken_apply redis_call_healthy set_command_def)
  have "db (snd (?last w1)) = db w1 \<and> cache (snd (?last w1)) = cache w1 \<and> fst (?last w1) = Inr ()" for w1
    using any_sender.send_db [of "sender s" "us_email u" "reset_url s (hex_encode b)" w1]
      any_sender.send_cache [of "sender s" "us_email u" "reset_url s (hex_encode b)" w1]
    by (simp add: ret_def call_apply case_prod_beta)
  then show ?thesis by (simp add: run)
qed

subsection \<open>A reset token is not issued twice\<close>

text \<open>
  \<open>unissued x key w0 w\<close>: the cache has no entry under \<open>key\<close>, and no block of random
  bytes the world has still to give makes the token of that key. Every operation keeps this, so
  a key that was deleted stays absent.
\<close>

definition never_drawn :: "ext \<Rightarrow> string \<Rightarrow> (nat \<Rightarrow> string option) \<Rightarrow> nat \<Rightarrow> bool" where
  "never_drawn x key src p \<longleftrightarrow> (\<forall>n \<ge> p. \<forall>b. src n = Some b \<longrightarrow> passwordResetCacheKey x (hex_encode b) \<noteq> key)"

definition unissued :: "ext \<Rightarrow> string \<Rightarrow> world \<Rightarrow> bool" where
  "unissued x key w \<longleftrightarrow> cache w key = None \<and> never_drawn x key (rand_src w) (rand_pos w)"

lemma never_drawn_Suc: "never_drawn x key src p \<Longrightarrow> never_drawn x key src (Suc p)"
  unfolding never_drawn_def by (metis Suc_leD)

lemma unissued_frame [simp]:
  "unissued x key (next_fault w) = unissued x key w"
  "unissued x key (w\<lparr>db := d\<rparr>) = unissued x key w"
  by (simp_all add: unissued_def)

lemma preserves_unissued_exec:
  "preserves (unissued x key) (\<lambda>w. exec (s w) w)" "preserves (unissued x key) (exec s')"
  by (auto simp: preserves_def unissued_def exec_eq split: fault.splits)

lemma preserves_unissued_oracles:
  "preserves (unissued x key) rand_read" "preserves (unissued x key) gen_random_uuid"
  by (auto simp: preserves_def unissued_def rand_read_def gen_random_uuid_def intro: never_drawn_Suc)

lemma preserves_unissued_WithTx:
  "preserves (unissued x key) fn \<Longrightarrow> preserves (unissued x key) (WithTxQueries fn)"
  unfolding preserves_def
proof (intro allI impI)
  fix w
  assume fn: "\<forall>w. unissued x key w \<longrightarrow> unissued x key (snd (fn w))" and w: "unissued x key w"
  obtain r w2 where run: "fn (next_fault w) = (r, w2)" by fastforce
  with fn w have "unissued x key w2" by (metis snd_conv unissued_frame(1))
  with w run show "unissued x key (snd (WithTxQueries fn w))"
    by (simp add: WithTxQueries_def WithTx_eq split: sum.splits fault.splits)
qed

lemma preserves_unissued_getdel: "preserves (unissued x key) (redis_call (getdel_command k))"
  by (auto simp: preserves_def unissued_def redis_call_eq getdel_command_def split: fault.splits)

lemma preserves_unissued_send: "preserves (unissued x key) (SendPasswordReset s a b)"
  by (cases s) (auto simp: preserves_def unissued_def ret_def send_email_eq split: fault.splits)

lemma preserves_unissued_queries:
  "preserves (unissued x key) (ConsumeRefreshToken t)"
  "preserves (unissued x key) (CreateOrg name)"
  "preserves (unissued x key) (CreateOrgMembership u r role)"
  "preserves (unissued x key) (CreateRefreshToken t u r expires)"
  "preserves (unissued x key) (CreateUser x' email hash name)"
  "preserves (unissued x key) (GetOrg i)"
  "preserves (unissued x key) (GetOrgMembershipByUser u r)"
  "preserves (unissued x key) (GetUserByEmail x' email)"
  "preserves (unissued x key) (GetUserByID i)"
  "preserves (unissued x key) (IncrementUserTokenVersion i)"
  "preserves (unissued x key) (ListOrgMembershipsByUser u)"
  "preserves (unissued x key) (RevokeAllUserRefreshTokens u)"
  "preserves (unissued x key) (UpdateUserPassword i hash)"
  unfolding query_defs
  by (intro preserves_unissued_exec preserves_attempt preserves_unissued_oracles)+

lemma preserves_unissued_tokens:
  "preserves (unissued x key) GenerateRefreshToken"
  "preserves (unissued x key) (GenerateAccessToken x' u r role v secret iss aud expiry)"
  unfolding GenerateRefreshToken_def GenerateAccessToken_def
  by (intro preserves_attempt preserves_if preserves_option preserves_ret preserves_fail preserves_read
      preserves_unissued_oracles)+

lemmas preserves_unissued =
  preserves_ret preserves_fail preserves_lift preserves_read preserves_call preserves_attempt
  preserves_sum preserves_option preserves_prod preserves_if preserves_unissued_WithTx
  preserves_unissued_oracles preserves_unissued_getdel preserves_unissued_queries
  preserves_unissued_tokens

lemma service_unissued:
  "preserves (unissued x key) (Register x s email password fullName)"
  "preserves (unissued x key) (Login x s email password orgID)"
  "preserves (unissued x key) (Refresh x s token)"
  "preserves (unissued x key) (Logout x token)"
  "preserves (unissued x key) (Me x userID orgID)"
  "preserves (unissued x key) (ResetPassword x token password)"
  "preserves (unissued x key) (ChangePassword x userID current_pw next_pw)"
  unfolding service_defs by (intro preserves_unissued)+

lemma preserves_unissued_issue:
  "preserves (unissued x key) (attempt GenerateRefreshToken (\<lambda>token.
     attempt (redis_call (set_command (passwordResetCacheKey x token) v hour)) (\<lambda>_.
     if b then ret () else call (SendPasswordReset sd e (url token)) (\<lambda>_. ret ()))))"
proof -
  let ?send = "\<lambda>token. if b then ret () else call (SendPasswordReset sd e (url token)) (\<lambda>_. ret ())"
  have send: "preserves (unissued x key) (?send token)" for token
    by (intro preserves_if preserves_ret preserves_call preserves_unissued_send)
  have store: "unissued x key (snd (redis_call (set_command k v hour) w))"
    if "unissued x key w" and "k \<noteq> key" for k w
    using that by (auto simp: unissued_def redis_call_eq set_command_def split: fault.splits)
  show ?thesis
    unfolding preserves_def
  proof (intro allI impI)
    fix w
    assume u: "unissued x key w"
    let ?w1 = "w\<lparr>rand_pos := Suc (rand_pos w)\<rparr>"
    have u1: "unissued x key ?w1" using u by (auto simp: unissued_def intro: never_drawn_Suc)
    show "unissued x key (snd (attempt GenerateRefreshToken (\<lambda>token.
     attempt (redis_call (set_command (passwordResetCacheKey x token) v hour)) (\<lambda>_. ?send token)) w))"
    proof (cases "rand_src w (rand_pos w)")
      case None
      then show ?thesis using u1 by (simp add: attempt_apply GenerateRefreshToken_apply)
    next
      case (Some r)
      with u have "passwordResetCacheKey x (hex_encode r) \<noteq> key"
        by (auto simp: unissued_def never_drawn_def)
      with store [OF u1] have st: "unissued x key
          (snd (redis_call (set_command (passwordResetCacheKey x (hex_encode r)) v hour) ?w1))" by simp
      have gen: "GenerateRefreshToken w = (Inr (hex_encode r), ?w1)"
        using Some by (simp add: GenerateRefreshToken_apply)
      show ?thesis
        unfolding attempt_step [where m = GenerateRefreshToken, OF gen]
        unfolding attempt_apply [of "redis_call c" for c]
        using st send [unfolded preserves_def]
        by (auto split: prod.splits sum.splits)
    qed
  qed
qed

lemma ForgotPassword_unissued: "preserves (unissued x key) (ForgotPassword x s email)"
  unfolding ForgotPassword_def
  by (intro preserves_unissued_issue preserves_ret preserves_fail preserves_call
      preserves_sum preserves_if preserves_unissued_queries)

lemma step_unissued: "step x s v w \<Longrightarrow> unissued x key v \<Longrightarrow> unissued x key w"
proof (induction rule: step.induct)
  case (step_time w a b c)
  then show ?case by (simp add: unissued_def)
qed (auto intro: preservesD service_unissued ForgotPassword_unissued)

lemma steps_unissued: "steps x s v w \<Longrightarrow> unissued x key v \<Longrightarrow> unissued x key w"
  by (induction rule: steps.induct) (auto intro: step_unissued)

text \<open>Whatever a call of \<open>ResetPassword\<close> with an acceptable password returns, its key is gone.\<close>

lemma ResetPassword_tail_cache:
  "cache (snd (WithTxQueries (set_password_tx i h) w)) = cache w"
  by (auto simp: WithTxQueries_def WithTx_eq set_password_tx_def attempt_apply query_defs exec_eq
      split: prod.splits sum.splits fault.splits)

lemma ResetPassword_deletes:
  assumes "fst (ResetPassword x token password w) = Inr ()"
  shows "cache (snd (ResetPassword x token password w)) (passwordResetCacheKey x token) = None"
proof -
  from assms have pol: "validatePassword x password = None"
    by (auto simp: ResetPassword_def fail_def split: option.splits)
  obtain c w1 where c: "redis_call (getdel_command (passwordResetCacheKey x token)) w = (c, w1)" by fastforce
  with assms pol obtain v i where "c = Inr v" and "uuid_parse x v = Some i"
    by (cases c) (auto simp: ResetPassword_def call_apply fail_def split: option.splits)
  moreover from this c have "cache w1 (passwordResetCacheKey x token) = None"
    by (auto simp: redis_call_eq getdel_command_def split: fault.splits)
  moreover have "cache (snd (generate_from_password x password 12 w1)) = cache w1"
    by (auto simp: generate_from_password_def attempt_apply rand_read_def ret_def fail_def
        split: option.splits prod.splits sum.splits)
  ultimately show ?thesis
    using pol c ResetPassword_tail_cache
    by (auto simp: ResetPassword_def call_apply attempt_apply split: prod.splits sum.splits)
qed

end
