(* ===== verification/Sample.thy ===== *)
theory Sample
  imports Passwords
begin

text \<open>
  A concrete world for examples: invertible stand-ins for the foreign functions and small
  tables. The stand-in for \<open>golang-jwt\<close> writes the secret and the claims as text and reads
  them back, so that it satisfies \<open>jwt_sound\<close>.
\<close>

subsection \<open>A text codec\<close>

definition enc :: "string \<Rightarrow> string" where
  "enc s = concat (map (\<lambda>c. [CHR ''x'', c]) s) @ ''.''"

fun dec :: "string \<Rightarrow> (string \<times> string) option" where
  "dec (a # r) =
     (if a = CHR ''.'' then Some ([], r)
      else case r of [] \<Rightarrow> None
        | c # r' \<Rightarrow> (case dec r' of None \<Rightarrow> None | Some (s, q) \<Rightarrow> Some (c # s, q)))"
| "dec [] = None"

lemma dec_enc: "dec (enc s @ r) = Some (s, r)"
  by (induction s) (simp_all add: enc_def)

fun enc_list :: "string list \<Rightarrow> string" where
  "enc_list [] = ''''"
| "enc_list (s # ss) = enc s @ enc_list ss"

fun dec_list :: "nat \<Rightarrow> string \<Rightarrow> string list option" where
  "dec_list 0 s = (if s = [] then Some [] else None)"
| "dec_list (Suc n) s =
     (if s = [] then Some []
      else case dec s of None \<Rightarrow> None
        | Some (a, r) \<Rightarrow> map_option ((#) a) (dec_list n r))"

lemma enc_nonempty: "enc s \<noteq> []"
  by (simp add: enc_def)

lemma dec_list_enc: "length ss \<le> n \<Longrightarrow> dec_list n (enc_list ss) = Some ss"
proof (induction ss arbitrary: n)
  case Nil
  then show ?case by (cases n) simp_all
next
  case (Cons s ss)
  then obtain m where "n = Suc m" "length ss \<le> m" by (cases n) auto
  with Cons.IH [of m] show ?case by (simp add: dec_enc enc_nonempty)
qed

lemma length_enc_list: "length ss \<le> length (enc_list ss)"
proof (induction ss)
  case (Cons s ss)
  moreover have "1 \<le> length (enc s)" by (simp add: enc_def)
  ultimately show ?case by simp
qed simp

subsection \<open>Integers as text\<close>

definition read_nat :: "string \<Rightarrow> nat" where
  "read_nat s = foldl (\<lambda>v c. v * 10 + (of_char c - 48)) 0 s"

lemma read_nat_decimal: "read_nat (decimal n) = n"
proof (induction n rule: decimal.induct)
  case (1 n)
  show ?case
  proof (cases "n < 10")
    case True
    then show ?thesis by (subst decimal.simps) (simp add: read_nat_def)
  next
    case False
    with 1 have "read_nat (decimal (n div 10)) = n div 10" by simp
    with False show ?thesis by (subst decimal.simps) (simp add: read_nat_def)
  qed
qed

definition read_int :: "string \<Rightarrow> int" where
  "read_int s = (case s of c # r \<Rightarrow> if c = CHR ''-'' then - int (read_nat r) else int (read_nat s)
                 | [] \<Rightarrow> 0)"

lemma decimal_digits: "c \<in> set (decimal n) \<Longrightarrow> c \<noteq> CHR ''-''"
proof (induction n rule: decimal.induct)
  case (1 n)
  have digit: "char_of (48 + k) \<noteq> CHR ''-''" if "k < 10" for k :: nat
  proof -
    have "(of_char (char_of (48 + k)) :: nat) \<noteq> of_char (CHR ''-'')" using that by simp
    then show ?thesis by metis
  qed
  show ?case
    using 1 digit [of n] digit [of "n mod 10"] decimal.simps [of n] by (auto split: if_splits)
qed

lemma decimal_nonempty: "decimal n \<noteq> []"
  by (subst decimal.simps) simp

lemma read_int_text: "read_int (int_text n) = n"
proof (cases "n < 0")
  case True
  then show ?thesis by (simp add: read_int_def int_text_def read_nat_decimal)
next
  case False
  obtain c r where cr: "decimal (nat n) = c # r" using decimal_nonempty by (metis list.exhaust)
  then have "c \<noteq> CHR ''-''" using decimal_digits [of c "nat n"] by simp
  with False cr read_nat_decimal [of "nat n"] show ?thesis by (simp add: read_int_def int_text_def)
qed

subsection \<open>The stand-ins\<close>

definition claim_fields :: "string \<Rightarrow> claims \<Rightarrow> string list" where
  "claim_fields secret c =
     [secret, cl_org_id c, cl_role c, int_text (cl_token_version c), cl_id c, cl_subject c,
      cl_issuer c, int_text (cl_issued_at c), int_text (cl_expires_at c)] @ cl_audience c"

definition sample_sign :: "string \<Rightarrow> claims \<Rightarrow> string option" where
  "sample_sign secret c = Some (enc_list (claim_fields secret c))"

definition sample_read :: "string \<Rightarrow> (string \<times> claims) option" where
  "sample_read t = (case dec_list (length t) t of
     Some (secret # r # role # v # j # u # i # a # e # aud) \<Rightarrow>
       Some (secret, \<lparr>cl_org_id = r, cl_role = role, cl_token_version = read_int v, cl_id = j,
         cl_subject = u, cl_issuer = i, cl_audience = aud, cl_issued_at = read_int a,
         cl_expires_at = read_int e\<rparr>)
   | _ \<Rightarrow> None)"

definition sample_parse ::
    "time \<Rightarrow> (bool \<Rightarrow> string option) \<Rightarrow> string \<Rightarrow> string \<Rightarrow> string \<Rightarrow> (claims \<times> bool) option" where
  "sample_parse now kf iss aud t = (case sample_read t of
     None \<Rightarrow> None
   | Some (secret, c) \<Rightarrow>
       if kf True = Some secret \<and> cl_issuer c = iss \<and> aud \<in> set (cl_audience c)
          \<and> now < cl_expires_at c * second
       then Some (c, True) else None)"

lemma sample_read_sign:
  assumes "sample_sign secret c = Some t"
  shows "sample_read t = Some (secret, c)"
proof -
  from assms have "dec_list (length t) t = Some (claim_fields secret c)"
    by (auto simp: sample_sign_def dec_list_enc [OF length_enc_list])
  then show ?thesis by (simp add: sample_read_def claim_fields_def read_int_text)
qed

definition uuid_text :: "uuid \<Rightarrow> string" where
  "uuid_text u = map (\<lambda>i. if bit u i then CHR ''1'' else CHR ''0'') [0..<128]"

definition read_uuid :: "string \<Rightarrow> uuid option" where
  "read_uuid s =
     (if length s = 128 then Some (horner_sum of_bool 2 (map (\<lambda>c. c = CHR ''1'') s)) else None)"

lemma read_uuid_text: "read_uuid (uuid_text u) = Some u"
proof -
  have "horner_sum of_bool 2 (map (bit u) [0..<128]) = take_bit 128 u"
    by (simp add: horner_sum_bit_eq_take_bit)
  also have "\<dots> = u" by (simp add: take_bit_word_eq_self)
  finally show ?thesis by (simp add: read_uuid_def uuid_text_def o_def)
qed

definition sample_ext :: ext where
  "sample_ext =
     \<lparr>unicode = \<lparr>tab_lower = id, tab_is_upper = (\<lambda>_. False), tab_is_lower = (\<lambda>_. False),
                 tab_is_digit = (\<lambda>_. False)\<rparr>,
      bcrypt_generate = (\<lambda>salt p c. if length p > 72 then None else Some p),
      bcrypt_compare = (\<lambda>h p. h = p),
      uuid_parse = read_uuid, uuid_string = uuid_text,
      jwt_sign = sample_sign, jwt_parse = sample_parse,
      jwt_numeric_date = (\<lambda>t. t div second),
      pg_lower = map lower_byte, sha256 = id, label_value_ok = is_ascii\<rparr>"

lemma sample_jwt_sound: "jwt_sound sample_ext"
  using sample_read_sign by (auto simp: jwt_sound_def sample_ext_def sample_parse_def)

lemma sample_uuid_roundtrip: "uuid_roundtrip sample_ext"
  by (simp add: uuid_roundtrip_def sample_ext_def read_uuid_text)

lemma sample_bcrypt_sound: "bcrypt_sound sample_ext"
  and sample_bcrypt_limited: "bcrypt_limited sample_ext"
  by (auto simp: bcrypt_sound_def bcrypt_limited_def sample_ext_def split: if_splits)

subsection \<open>A small world\<close>

definition sample_service :: service where
  "sample_service = NewService (ResendSender \<lparr>fromEmail = ''no-reply@x.io'', fromName = ''App''\<rparr>)
     ''key'' ''https://x.io'' ''iss'' ''api'' (15 * minute) (168 * hour)"

definition ann :: user where
  "ann = \<lparr>us_id = 1, us_email = ''ann@x.io'', us_password_hash = ''Passw0rd1234'',
          us_full_name = ''Ann'', us_created_at = 0, us_updated_at = 0, us_token_version = 0\<rparr>"

definition ann_org :: org where
  "ann_org = \<lparr>or_id = 2, or_name = '''', or_created_at = 0\<rparr>"

definition ann_admin :: org_membership where
  "ann_admin = \<lparr>om_id = 3, om_user_id = 1, om_org_id = 2, om_role = ''admin'', om_created_at = 0\<rparr>"

definition ann_token :: refresh_token where
  "ann_token = \<lparr>rt_token = hashOpaqueToken sample_ext ''tok'', rt_user_id = 1,
     rt_expires_at = hour, rt_revoked = False, rt_created_at = 0, rt_org_id = 2\<rparr>"

definition sample_db :: database where
  "sample_db = \<lparr>users = [ann], orgs = [ann_org], org_memberships = [ann_admin],
     refresh_tokens = [ann_token]\<rparr>"

definition sample_world :: world where
  "sample_world = \<lparr>db = sample_db, cache = Map.empty, outbox = [], app_now = 0, db_now = 0,
     redis_now = 0, faults = (\<lambda>_. NoFault), fault_pos = 0,
     rand_src = (\<lambda>n. Some [char_of n]), rand_pos = 0, uuid_src = (\<lambda>n. of_nat (n + 10)), uuid_pos = 0\<rparr>"

lemmas sample_rows = ann_def ann_org_def ann_admin_def ann_token_def sample_db_def

lemma sample_healthy [simp]: "healthy sample_world"
  by (simp add: healthy_def sample_world_def)

lemma sample_world_simps [simp]:
  "db sample_world = sample_db" "cache sample_world = Map.empty" "db_now sample_world = 0"
  "app_now sample_world = 0" "redis_now sample_world = 0" "rand_pos sample_world = 0"
  "rand_src sample_world n = Some [char_of n]" "uuid_pos sample_world = 0"
  "uuid_src sample_world n = of_nat (n + 10)"
  by (simp_all add: sample_world_def)

lemma sample_db_ok [simp]: "db_ok sample_ext sample_db"
  by (simp add: db_ok_defs sample_rows max_int32_def)

lemma hash_sample: "hashOpaqueToken sample_ext t = hex_encode t"
  by (simp add: hashOpaqueToken_def sample_ext_def)

lemmas eval_hex = hex_encode_def hex_digit_def

lemma sample_find_user [simp]: "find_user 1 sample_db = Some ann"
  by (simp add: find_user_def sample_rows)

lemma sample_find_email [simp]: "find_user_email sample_ext ''ann@x.io'' sample_db = Some ann"
  by (simp add: find_user_email_def sample_rows)

lemma sample_find_membership [simp]: "find_membership 1 2 sample_db = Some ann_admin"
  by (simp add: find_membership_def sample_rows)

lemma sample_live_token [simp]:
  "live_token 0 (hashOpaqueToken sample_ext ''tok'') sample_db = Some ann_token"
  by (simp add: live_token_def find_token_def sample_rows hash_sample duration_units)

lemma sample_ann [simp]:
  "us_id ann = 1" "us_token_version ann = 0" "us_password_hash ann = ''Passw0rd1234''"
  "us_email ann = ''ann@x.io''" "rt_user_id ann_token = 1" "rt_org_id ann_token = 2"
  "om_org_id ann_admin = 2" "om_user_id ann_admin = 1" "om_role ann_admin = ''admin''"
  by (simp_all add: sample_rows)

lemma sample_keys [simp]: "keys_set sample_service"
  by (simp add: keys_set_def sample_service_def NewService_def)

lemma sample_sign_some: "\<exists>at. jwt_sign sample_ext k c = Some at"
  by (simp add: sample_ext_def sample_sign_def)

lemma sample_signs: "\<exists>at. signs sample_ext sample_service u r role j now at"
  by (simp add: signs_def sample_sign_some)

lemma sample_emails [simp]:
  "normalizeEmail sample_ext ''ann@x.io'' = Inr ''ann@x.io''"
  "normalizeEmail sample_ext ''bob@x.io'' = Inr ''bob@x.io''"
  "normalizeEmail sample_ext '' Ann@x.io'' = Inr ''ann@x.io''"
  by (simp_all add: normalizeEmail_def eval_strings parse_address_def consume_atom_def
      is_atext_rune_def invalid_segment_def rune_error_def char_of_def bit_iff_odd)

lemma sample_passwords [simp]:
  "validatePassword sample_ext ''Passw0rd1234'' = None"
  "validatePassword sample_ext ''N3wPassword!'' = None"
  by (simp_all add: validatePassword_iff eval_strings is_upper_rune_def is_lower_rune_def
      is_digit_rune_def)

lemma sample_unknown [simp]: "find_user_email sample_ext ''bob@x.io'' sample_db = None"
  by (simp add: find_user_email_def sample_rows sample_ext_def lower_byte_def in_range_def)

lemma sample_fresh_token [simp]:
  "find_token (hashOpaqueToken sample_ext (hex_encode [char_of (n :: nat)])) sample_db = None"
  by (simp add: find_token_def sample_rows hash_sample hex_encode_def)

end
