(* ===== verification/AuthTheorems.thy ===== *)
theory AuthTheorems
  imports Sample
begin

text \<open>
  The properties of the authentication service, each with an example where it has hypotheses.
\<close>

text \<open>In every state that the service reaches from tables with integrity, whatever operations
  ran and whichever calls failed, ids and e-mails (up to case) are unique, memberships and refresh
  tokens refer to existing users and orgs, roles are admin or member, token versions stay in the
  range of a 32-bit integer.\<close>

theorem integrity_is_invariant:
  assumes "steps x s v w" and "db_ok x (db v)"
  shows "db_ok x (db w)"
  using assms by (rule steps_keep_db_ok)

lemma integrity_is_invariant_witness:
  "db_ok sample_ext (db (snd (Logout sample_ext ''tok'' sample_world)))"
  by (rule integrity_is_invariant [OF step_imp_steps [OF step_logout]]) simp

text \<open>C12: A refresh token is good for one refresh: after a successful one, in every later state, the
  same token is refused, with "invalid or expired token" where no call fails.\<close>

theorem refresh_token_single_use:
  assumes "db_ok x (db w)" and "fst (Refresh x s t w) = Inr r"
    and "steps x s (snd (Refresh x s t w)) w2"
  shows "\<exists>e. fst (Refresh x s t w2) = Inl e \<and> (healthy w2 \<longrightarrow> e = ErrInvalidToken)"
proof (rule Refresh_revoked)
  have "Refresh x s t w = (Inr r, snd (Refresh x s t w))"
    using assms(2) by (simp add: prod_eq_iff)
  from Refresh_ok [OF this assms(1)] show "token_revoked (hashOpaqueToken x t) (db w2)"
    using db_le_revoked steps_evolve [OF assms(3)] by blast
  have "steps x s w w2" using step_imp_steps [OF step_refresh] assms(3) by (rule steps_trans)
  then show "db_ok x (db w2)" using assms(1) by (rule steps_keep_db_ok)
qed

lemma sample_refresh: "\<exists>r. fst (Refresh sample_ext sample_service ''tok'' sample_world) = Inr r"
proof -
  obtain a where "signs sample_ext sample_service ann 2 ''admin'' [char_of (1::nat)] 0 a"
    using sample_signs by blast
  then show ?thesis
    using Refresh_live [of sample_world sample_ext sample_service "''tok''" ann_token ann ann_admin]
    by (simp add: signs_def)
qed

lemma refresh_token_single_use_witness:
  "\<exists>e. fst (Refresh sample_ext sample_service ''tok''
     (snd (Refresh sample_ext sample_service ''tok'' sample_world))) = Inl e"
proof -
  obtain r where "fst (Refresh sample_ext sample_service ''tok'' sample_world) = Inr r"
    using sample_refresh by blast
  from refresh_token_single_use [OF _ this steps_refl] show ?thesis by auto
qed

text \<open>C33: A refresh with a live token rotates it: the caller gets a new token and an access token for
  the membership's current role and the user's current version; the old row is revoked, a row for
  the new token with the same user and org and the configured lifetime is added, and nothing else
  in the tables changes.\<close>

theorem refresh_rotation:
  assumes "healthy w" and "db_ok x (db w)" and "keys_set s"
    and "live_token (db_now w) (hashOpaqueToken x t) (db w) = Some k"
    and "find_user (rt_user_id k) (db w) = Some u"
    and "find_membership (rt_user_id k) (rt_org_id k) (db w) = Some m"
    and "rand_src w (rand_pos w) = Some b" and "rand_src w (Suc (rand_pos w)) = Some j"
    and "find_token (hashOpaqueToken x (hex_encode b)) (db w) = None"
    and "jwt_sign x (jwtSecret s)
           (issued_claims x (uuid_string x (us_id u)) (uuid_string x (om_org_id m)) (om_role m)
              (us_token_version u) (hex_encode j) (jwtIssuer s) (jwtAudience s) (app_now w)
              (jwtExpiry s)) = Some at"
  shows "fst (Refresh x s t w) = Inr (refresh_result x s at (hex_encode b))
    \<and> users (db (snd (Refresh x s t w))) = users (db w)
    \<and> orgs (db (snd (Refresh x s t w))) = orgs (db w)
    \<and> org_memberships (db (snd (Refresh x s t w))) = org_memberships (db w)
    \<and> refresh_tokens (db (snd (Refresh x s t w))) =
        map (\<lambda>l. if rt_token l = hashOpaqueToken x t then revoke_row l else l) (refresh_tokens (db w))
        @ [new_token_row (db_now w) (hashOpaqueToken x (hex_encode b)) (rt_user_id k) (rt_org_id k)
             (app_now w + refreshExpiry s)]"
proof -
  have "consumable (db_now w) (hashOpaqueToken x t) l \<longleftrightarrow> rt_token l = hashOpaqueToken x t"
    if "l \<in> set (refresh_tokens (db w))" for l
  proof -
    have "l = k" if "rt_token l = hashOpaqueToken x t"
      using that \<open>l \<in> set (refresh_tokens (db w))\<close> live_tokenD [OF assms(4)]
        find_tokenD [of "hashOpaqueToken x t" "db w" k]
        distinct_map_key_unique [OF tokens_distinct [OF assms(2)]] by metis
    then show ?thesis using live_tokenD [OF assms(4)] by (auto simp: consumable_def)
  qed
  then have "refresh_tokens (snd (consume_token (db_now w) (hashOpaqueToken x t) (db w)))
      = map (\<lambda>l. if rt_token l = hashOpaqueToken x t then revoke_row l else l) (refresh_tokens (db w))"
    by (simp add: consume_token_def)
  then show ?thesis
    using Refresh_live [OF assms] by (simp add: rotated_def)
qed

lemma refresh_rotation_witness:
  "\<exists>r. fst (Refresh sample_ext sample_service ''tok'' sample_world) = Inr r
     \<and> length (refresh_tokens (db (snd (Refresh sample_ext sample_service ''tok'' sample_world)))) = 2"
proof -
  obtain a where "signs sample_ext sample_service ann 2 ''admin'' [char_of (1::nat)] 0 a"
    using sample_signs by blast
  then have sign: "jwt_sign sample_ext (jwtSecret sample_service)
      (issued_claims sample_ext (uuid_string sample_ext (us_id ann)) (uuid_string sample_ext (om_org_id ann_admin))
        (om_role ann_admin) (us_token_version ann) (hex_encode [char_of (1::nat)]) (jwtIssuer sample_service)
        (jwtAudience sample_service) (app_now sample_world) (jwtExpiry sample_service)) = Some a"
    by (simp add: signs_def)
  have "length (refresh_tokens sample_db) = 1" by (simp add: sample_db_def)
  with refresh_rotation [of sample_world sample_ext sample_service "''tok''" ann_token ann ann_admin
      "[char_of (0::nat)]", OF _ _ _ _ _ _ _ _ _ sign]
  show ?thesis by simp
qed

text \<open>A refresh with a token that is unknown, revoked or expired, or whose membership is gone, is
  refused with "invalid or expired token" and leaves the tables as they were; in the last case
  the consumption of the token is rolled back.\<close>

theorem refresh_refused:
  assumes "healthy w" and "db_ok x (db w)"
    and "live_token (db_now w) (hashOpaqueToken x t) (db w) = None
      \<or> (\<exists>k. live_token (db_now w) (hashOpaqueToken x t) (db w) = Some k
            \<and> find_membership (rt_user_id k) (rt_org_id k) (db w) = None)"
  shows "fst (Refresh x s t w) = Inl ErrInvalidToken \<and> db (snd (Refresh x s t w)) = db w"
  using assms by (rule Refresh_dead)

lemma refresh_refused_witness:
  "fst (Refresh sample_ext sample_service ''other'' sample_world) = Inl ErrInvalidToken"
proof -
  have "live_token 0 (hashOpaqueToken sample_ext ''other'') sample_db = None"
    by (simp add: live_token_def find_token_def sample_rows hash_sample eval_hex)
  then show ?thesis using refresh_refused [of sample_world sample_ext "''other''" sample_service] by simp
qed



text \<open>A logout with a token that is unknown, revoked or expired succeeds and changes nothing.\<close>

theorem logout_idempotent:
  assumes "healthy w" and "db_ok x (db w)"
    and "live_token (db_now w) (hashOpaqueToken x t) (db w) = None"
  shows "fst (Logout x t w) = Inr () \<and> db (snd (Logout x t w)) = db w"
  using assms by (rule Logout_dead)

lemma logout_idempotent_witness: "db (snd (Logout sample_ext ''other'' sample_world)) = sample_db"
proof -
  have "live_token 0 (hashOpaqueToken sample_ext ''other'') sample_db = None"
    by (simp add: live_token_def find_token_def sample_rows hash_sample eval_hex)
  then show ?thesis using logout_idempotent [of sample_world sample_ext "''other''"] by simp
qed

text \<open>The token version is a 32-bit integer: for a user whose version is 2147483647 a logout fails
  with "integer out of range" and is rolled back, so the refresh token stays usable.\<close>

theorem logout_at_largest_version:
  assumes "healthy w" and "db_ok x (db w)"
    and "live_token (db_now w) (hashOpaqueToken x t) (db w) = Some k"
    and "find_user (rt_user_id k) (db w) = Some u" and "us_token_version u = max_int32"
  shows "fst (Logout x t w) = Inl integer_out_of_range
    \<and> live_token (db_now w) (hashOpaqueToken x t) (db (snd (Logout x t w))) = Some k"
  using Logout_overflow [OF assms] assms(3) by simp

definition full_world :: world where
  "full_world = sample_world\<lparr>db := sample_db\<lparr>users := [ann\<lparr>us_token_version := max_int32\<rparr>]\<rparr>\<rparr>"

lemma logout_at_largest_version_witness:
  "fst (Logout sample_ext ''tok'' full_world) = Inl integer_out_of_range"
proof -
  have "db_ok sample_ext (db full_world)"
    by (simp add: db_ok_defs sample_rows max_int32_def full_world_def)
  moreover have "live_token 0 (hashOpaqueToken sample_ext ''tok'') (db full_world) = Some ann_token"
    using sample_live_token by (simp add: live_token_def find_token_def full_world_def)
  moreover have "find_user 1 (db full_world) = Some (ann\<lparr>us_token_version := max_int32\<rparr>)"
    by (simp add: find_user_def full_world_def)
  moreover have "healthy full_world" by (simp add: full_world_def)
  moreover have "db_now full_world = 0" by (simp add: full_world_def)
  ultimately show ?thesis
    using logout_at_largest_version [of full_world sample_ext "''tok''" ann_token] by simp
qed

text \<open>A transaction that reports an error has changed no table, unless the error is that of the
  commit; one that reports success has run its body to the end.\<close>

theorem transaction_atomic:
  "case WithTxQueries fn w of
     (Inl e, w') \<Rightarrow> db w' = db w \<or> e = ErrWrap ''commit transaction'' ErrConn
   | (Inr a, w') \<Rightarrow> \<exists>w2. fn (next_fault w) = (Inr a, w2) \<and> db w' = db w2"
  using WithTx_abort [of fn w] WithTx_commit [of fn w]
  by (auto simp: WithTxQueries_def split: prod.splits sum.splits)

end
