(* ===== verification/AccountTheorems.thy ===== *)
theory AccountTheorems
  imports AuthTheorems
begin

text \<open>
  The properties of accounts: registration, login, the choice of the org, the password policy.
\<close>

lemma sample_tables [simp]:
  "users sample_db = [ann]" "orgs sample_db = [ann_org]" "org_memberships sample_db = [ann_admin]"
  "refresh_tokens sample_db = [ann_token]"
  by (simp_all add: sample_db_def)

lemma sample_compare [simp]: "bcrypt_compare sample_ext h p \<longleftrightarrow> h = p"
  by (simp add: sample_ext_def)

text \<open>C15: Whatever calls fail, a registration either leaves users, orgs and memberships as they were
  or adds exactly one user with the normalised e-mail, one org without a name and the membership
  that makes the user admin of it. If it returns tokens, the account was added and is the one the
  response names.\<close>

theorem register_all_or_nothing:
  assumes "normalizeEmail x e = Inr email"
  shows "users (db (snd (Register x s e password name w))) = users (db w)
      \<and> orgs (db (snd (Register x s e password name w))) = orgs (db w)
      \<and> org_memberships (db (snd (Register x s e password name w))) = org_memberships (db w)
    \<or> (\<exists>u r m. users (db (snd (Register x s e password name w))) = users (db w) @ [u]
      \<and> orgs (db (snd (Register x s e password name w))) = orgs (db w) @ [r]
      \<and> org_memberships (db (snd (Register x s e password name w))) = org_memberships (db w) @ [m]
      \<and> us_email u = email \<and> us_full_name u = name \<and> us_token_version u = 0 \<and> or_name r = ''''
      \<and> om_user_id m = us_id u \<and> om_org_id m = or_id r \<and> om_role m = ''admin'')"
  using Register_account_step [OF assms, of name w s password]
  by (simp add: account_step_def accounts_same_def account_added_def RoleAdmin_def)

lemma register_all_or_nothing_witness:
  "length (users (db (snd (Register sample_ext sample_service ''bob@x.io'' ''Passw0rd1234'' ''Bob'' sample_world))))
     \<in> {1, 2}"
  using register_all_or_nothing [of sample_ext "''bob@x.io''" "''bob@x.io''" sample_service
      "''Passw0rd1234''" "''Bob''" sample_world]
  by (auto simp: sample_db_def)

text \<open>Registration with a valid e-mail that no account has (up to case) and an acceptable
  password succeeds where no call fails: the tables gain the user with the normalised e-mail, the
  hash and version 0, the org, the admin membership and the hash of the refresh token, which is
  the one in the response; and nothing else changes.\<close>

theorem register_fresh:
  assumes "healthy w" and "db_ok x (db w)"
    and "normalizeEmail x e = Inr email" and "validatePassword x password = None"
    and "find_user_email x email (db w) = None"
    and "rand_src w (rand_pos w) = Some salt" and "bcrypt_generate x salt password 12 = Some hash"
    and "ui = uuid_src w (uuid_pos w)" and "oi = uuid_src w (Suc (uuid_pos w))"
    and "mi = uuid_src w (Suc (Suc (uuid_pos w)))" and "fresh_ids ui oi mi (db w)"
    and "u = new_user (db_now w) ui email hash name"
    and "rand_src w (Suc (rand_pos w)) = Some j" and "signs x s u oi RoleAdmin j (app_now w) at"
    and "rand_src w (Suc (Suc (rand_pos w))) = Some b"
    and "find_token (hashOpaqueToken x (hex_encode b)) (db w) = None"
  shows "fst (Register x s e password name w) = Inr (auth_result x s u at (hex_encode b))
    \<and> db (snd (Register x s e password name w)) =
        (registered (db_now w) ui oi mi email hash name (db w))\<lparr>refresh_tokens :=
          refresh_tokens (db w) @ [new_token_row (db_now w) (hashOpaqueToken x (hex_encode b)) ui oi
            (app_now w + refreshExpiry s)]\<rparr>"
  using Register_fresh [OF assms] by blast

lemma sample_fresh_ids: "fresh_ids 10 11 12 sample_db"
  by (simp add: fresh_ids_def ann_org_def ann_admin_def)

lemma sample_hash: "bcrypt_generate sample_ext salt ''Passw0rd1234'' 12 = Some ''Passw0rd1234''"
  by (simp add: sample_ext_def)

lemma register_fresh_witness:
  "\<exists>r. fst (Register sample_ext sample_service ''bob@x.io'' ''Passw0rd1234'' ''Bob'' sample_world) = Inr r
     \<and> length (users (db (snd (Register sample_ext sample_service ''bob@x.io'' ''Passw0rd1234'' ''Bob''
          sample_world)))) = 2"
proof -
  let ?u = "new_user 0 10 ''bob@x.io'' ''Passw0rd1234'' ''Bob''"
  obtain a where "signs sample_ext sample_service ?u 11 RoleAdmin [char_of (1::nat)] 0 a"
    using sample_signs by blast
  with register_fresh [of sample_world sample_ext "''bob@x.io''" "''bob@x.io''" "''Passw0rd1234''"
      "[char_of (0::nat)]" "''Passw0rd1234''" 10 11 12 ?u "''Bob''" "[char_of (1::nat)]" sample_service a
      "[char_of (2::nat)]"]
  show ?thesis
    by (simp add: sample_fresh_ids sample_hash registered_def)
qed

text \<open>An e-mail that an account has, in whatever case, cannot be registered again: the answer is
  "email already exists" and the tables stay as they were. The same holds when the account
  appears between the check and the transaction of the registration.\<close>

theorem register_duplicate:
  assumes "healthy w" and "normalizeEmail x e = Inr email" and "validatePassword x password = None"
    and "find_user_email x email (db w) \<noteq> None"
  shows "fst (Register x s e password name w) = Inl ErrEmailExists
    \<and> db (snd (Register x s e password name w)) = db w
    \<and> fst (WithTxQueries (register_tx x email hash name) w) = Inl ErrEmailExists
    \<and> db (snd (WithTxQueries (register_tx x email hash name) w)) = db w"
  using Register_taken [OF assms] register_tx_taken [OF assms(1,4)] by simp

lemma register_duplicate_witness:
  "fst (Register sample_ext sample_service '' Ann@x.io'' ''Passw0rd1234'' ''Ann'' sample_world)
     = Inl ErrEmailExists"
  using register_duplicate [of sample_world sample_ext "'' Ann@x.io''" "''ann@x.io''" "''Passw0rd1234''"]
  by simp

text \<open>C16: A login that returns tokens, whatever calls failed around it, was made with an e-mail of an
  account, a password its hash accepts and a membership of its user: the one named by the request,
  or the only one where the request names none. The response is for that user, and all that
  changed is one refresh token for the user and that org.\<close>

theorem login_sound:
  assumes "Login x s e password orgID w = (Inr res, w')"
  shows "\<exists>email u m at. normalizeEmail x e = Inr email \<and> find_user_email x email (db w) = Some u
    \<and> bcrypt_compare x (us_password_hash u) password
    \<and> m \<in> set (org_memberships (db w)) \<and> om_user_id m = us_id u
    \<and> (orgID \<noteq> '''' \<longrightarrow> uuid_parse x orgID = Some (om_org_id m))
    \<and> (orgID = '''' \<longrightarrow> filter (\<lambda>m. om_user_id m = us_id u) (org_memberships (db w)) = [m])
    \<and> res = auth_result x s u at (ar_refresh_token res)
    \<and> db w' = (db w)\<lparr>refresh_tokens := refresh_tokens (db w) @
        [new_token_row (db_now w) (hashOpaqueToken x (ar_refresh_token res)) (us_id u) (om_org_id m)
          (app_now w + refreshExpiry s)]\<rparr>"
  using assms by (rule Login_okD)

lemma sample_login: "\<exists>r. fst (Login sample_ext sample_service ''ann@x.io'' ''Passw0rd1234'' '''' sample_world) = Inr r"
proof -
  obtain a where "signs sample_ext sample_service ann (om_org_id ann_admin) (om_role ann_admin)
      [char_of (0::nat)] (app_now sample_world) a"
    using sample_signs by blast
  from Login_live [OF _ _ _ _ _ _ _ _ _ this, where e = "''ann@x.io''" and email = "''ann@x.io''"
      and password = "''Passw0rd1234''" and orgID = "''''" and b = "[char_of (1::nat)]"]
  show ?thesis by simp
qed

lemma login_sound_witness:
  "length (refresh_tokens (db (snd (Login sample_ext sample_service ''ann@x.io'' ''Passw0rd1234'' ''''
      sample_world)))) = 2"
proof -
  obtain r w' where run: "Login sample_ext sample_service ''ann@x.io'' ''Passw0rd1234'' '''' sample_world = (Inr r, w')"
    using sample_login by (metis prod.collapse)
  from login_sound [OF this] have "length (refresh_tokens (db w')) = 2"
    by (auto simp: sample_db_def)
  with run show ?thesis by simp
qed

text \<open>C21: Who registers can log in: after a successful registration in the conditions of a fresh one,
  in every later world with the tables it left, a login with any spelling of the e-mail that
  normalises alike, the same password and no org succeeds, for the registered user as admin of
  the new org. bcrypt is relied on for accepting the password a hash was made from.\<close>

theorem register_then_login:
  assumes "bcrypt_sound x" and "healthy w" and "db_ok x (db w)"
    and "normalizeEmail x e = Inr email" and "validatePassword x password = None"
    and "find_user_email x email (db w) = None"
    and "rand_src w (rand_pos w) = Some salt" and "bcrypt_generate x salt password 12 = Some hash"
    and "ui = uuid_src w (uuid_pos w)" and "oi = uuid_src w (Suc (uuid_pos w))"
    and "mi = uuid_src w (Suc (Suc (uuid_pos w)))" and "fresh_ids ui oi mi (db w)"
    and "u = new_user (db_now w) ui email hash name"
    and "rand_src w (Suc (rand_pos w)) = Some j" and "signs x s u oi RoleAdmin j (app_now w) at"
    and "rand_src w (Suc (Suc (rand_pos w))) = Some b"
    and "find_token (hashOpaqueToken x (hex_encode b)) (db w) = None"
    and "healthy v" and "db v = db (snd (Register x s e password name w))"
    and "normalizeEmail x e2 = Inr email"
    and "rand_src v (rand_pos v) = Some j2" and "signs x s u oi RoleAdmin j2 (app_now v) at2"
    and "rand_src v (Suc (rand_pos v)) = Some b2"
    and "find_token (hashOpaqueToken x (hex_encode b2)) (db v) = None"
  shows "fst (Login x s e2 password '''' v) = Inr (auth_result x s u at2 (hex_encode b2))"
proof -
  note reg = Register_fresh [OF assms(2-17), THEN conjunct2, THEN conjunct1]
  let ?m = "\<lparr>om_id = mi, om_user_id = ui, om_org_id = oi, om_role = RoleAdmin, om_created_at = db_now w\<rparr>"
  have ms: "org_memberships (db v) = org_memberships (db w) @ [?m]"
    and us: "users (db v) = users (db w) @ [u]"
    using reg assms(13,19) by (simp_all add: registered_def)
  have none: "filter (\<lambda>m. om_user_id m = ui) (org_memberships (db w)) = []"
    using db_ok_foreign_keys(2) [OF assms(3)] assms(12) by (auto simp: fresh_ids_def filter_empty_conv)
  have found: "find_user_email x email (db v) = Some u"
    using assms(6,13) us by (simp add: find_user_email_def find_append)
  have "db_ok x (db v)"
    using service_preserves(1) [THEN preservesD, of x w s e password name] assms(3,19)
    by (simp add: on_db_def)
  moreover have "bcrypt_compare x (us_password_hash u) password"
    using assms(1,8,13) by (auto simp: bcrypt_sound_def)
  ultimately show ?thesis
    using Login_live [of v x e2 email u password ?m "''''" j2 s at2 b2] assms(13,18-24) found ms none
    by simp
qed

lemma register_then_login_witness:
  "\<exists>r. fst (Login sample_ext sample_service ''bob@x.io'' ''Passw0rd1234'' ''''
     (sample_world\<lparr>db := db (snd (Register sample_ext sample_service ''bob@x.io'' ''Passw0rd1234'' ''Bob''
        sample_world)), rand_pos := 3\<rparr>)) = Inr r"
proof -
  let ?u = "new_user 0 10 ''bob@x.io'' ''Passw0rd1234'' ''Bob''"
  let ?d = "db (snd (Register sample_ext sample_service ''bob@x.io'' ''Passw0rd1234'' ''Bob'' sample_world))"
  obtain a where a: "signs sample_ext sample_service ?u 11 RoleAdmin [char_of (1::nat)] 0 a"
    using sample_signs by blast
  obtain a2 where a2: "signs sample_ext sample_service ?u 11 RoleAdmin [char_of (3::nat)] 0 a2"
    using sample_signs by blast
  have tok: "find_token (hashOpaqueToken sample_ext (hex_encode [char_of (4::nat)])) ?d = None"
    using Register_fresh [of sample_world sample_ext "''bob@x.io''" "''bob@x.io''" "''Passw0rd1234''"
      "[char_of (0::nat)]" "''Passw0rd1234''" 10 11 12 ?u "''Bob''" "[char_of (1::nat)]" sample_service a
      "[char_of (2::nat)]"] a
    by (simp add: sample_fresh_ids sample_hash find_token_def ann_token_def new_token_row_def hash_sample
        eval_hex nth_Cons')
  show ?thesis
    using register_then_login [of sample_ext sample_world "''bob@x.io''" "''bob@x.io''" "''Passw0rd1234''"
      "[char_of (0::nat)]" "''Passw0rd1234''" 10 11 12 ?u "''Bob''" "[char_of (1::nat)]" sample_service a
      "[char_of (2::nat)]" "sample_world\<lparr>db := ?d, rand_pos := 3\<rparr>" "''bob@x.io''"
      "[char_of (3::nat)]" a2 "[char_of (4::nat)]"] a a2 tok
    by (simp add: sample_fresh_ids sample_hash sample_bcrypt_sound)
qed

text \<open>A login does not tell whether an account exists: an e-mail that is malformed or of no
  account and a wrong password get the same answer, "invalid credentials", and change nothing.\<close>

theorem login_uniform_rejection:
  assumes "healthy w"
    and "\<forall>email. normalizeEmail x e = Inr email \<longrightarrow> find_user_email x email (db w) = None
         \<or> (\<exists>u. find_user_email x email (db w) = Some u \<and> \<not> bcrypt_compare x (us_password_hash u) password)"
  shows "fst (Login x s e password orgID w) = Inl ErrInvalidCredentials
    \<and> db (snd (Login x s e password orgID w)) = db w"
  using assms by (intro Login_rejects) auto

lemma login_uniform_rejection_witness:
  "fst (Login sample_ext sample_service ''ann@x.io'' ''guess'' '''' sample_world) = Inl ErrInvalidCredentials
   \<and> fst (Login sample_ext sample_service ''bob@x.io'' ''guess'' '''' sample_world) = Inl ErrInvalidCredentials"
  using login_uniform_rejection [of sample_world sample_ext "''ann@x.io''" "''guess''" sample_service "''''"]
    login_uniform_rejection [of sample_world sample_ext "''bob@x.io''" "''guess''" sample_service "''''"]
  by simp

text \<open>The org of a login: a request that names one gets the user's membership in it, a request
  that names none gets the only membership, and every other case is refused; with memberships but
  none named, "org_id is required" exactly where there are several.\<close>

theorem select_membership_iff:
  assumes "distinct (map om_org_id ms)"
  shows "(selectMembership x ms orgID = Inr m \<longleftrightarrow>
           m \<in> set ms \<and> (orgID = '''' \<and> ms = [m] \<or> orgID \<noteq> '''' \<and> uuid_parse x orgID = Some (om_org_id m)))
    \<and> (selectMembership x ms orgID = Inl ErrOrgSelectionRequired \<longleftrightarrow> orgID = '''' \<and> 2 \<le> length ms)
    \<and> (selectMembership x ms orgID = Inl ErrInvalidOrgSelection \<longleftrightarrow>
         ms \<noteq> [] \<and> orgID \<noteq> '''' \<and> (\<forall>m \<in> set ms. uuid_parse x orgID \<noteq> Some (om_org_id m)))
    \<and> (selectMembership x ms orgID = Inl ErrInvalidCredentials \<longleftrightarrow> ms = [])"
proof (intro conjI)
  show "selectMembership x ms orgID = Inr m \<longleftrightarrow>
      m \<in> set ms \<and> (orgID = '''' \<and> ms = [m] \<or> orgID \<noteq> '''' \<and> uuid_parse x orgID = Some (om_org_id m))"
    using selectMembership_ok selectMembership_complete [OF assms] by blast
  show "selectMembership x ms orgID = Inl ErrOrgSelectionRequired \<longleftrightarrow> orgID = '''' \<and> 2 \<le> length ms"
    by (cases ms; cases "tl ms") (auto simp: selectMembership_def split: option.splits)
  show "selectMembership x ms orgID = Inl ErrInvalidOrgSelection \<longleftrightarrow>
      ms \<noteq> [] \<and> orgID \<noteq> '''' \<and> (\<forall>m \<in> set ms. uuid_parse x orgID \<noteq> Some (om_org_id m))"
    by (auto simp: selectMembership_def find_None_iff split: option.splits list.splits dest: find_SomeD)
       (metis (mono_tags, lifting) find_None_iff option.distinct(1))?
  show "selectMembership x ms orgID = Inl ErrInvalidCredentials \<longleftrightarrow> ms = []"
    by (auto simp: selectMembership_def split: option.splits list.splits)
qed

lemma select_membership_iff_witness:
  "selectMembership sample_ext [ann_admin, ann_admin\<lparr>om_org_id := 5\<rparr>] '''' = Inl ErrOrgSelectionRequired"
  using select_membership_iff [of "[ann_admin, ann_admin\<lparr>om_org_id := 5\<rparr>]" sample_ext "''''"] by simp

text \<open>The password policy accepts exactly the passwords of at least 12 bytes with an upper-case
  letter, a lower-case letter and a digit among their runes; all others are refused with "weak
  password" by registration, reset and change, before anything is read or written.\<close>

theorem password_policy:
  "(validatePassword x p = None \<longleftrightarrow> 12 \<le> length p
      \<and> (\<exists>r \<in> set (runes p). is_upper_rune (unicode x) r)
      \<and> (\<exists>r \<in> set (runes p). \<not> is_upper_rune (unicode x) r \<and> is_lower_rune (unicode x) r)
      \<and> (\<exists>r \<in> set (runes p). \<not> is_upper_rune (unicode x) r \<and> \<not> is_lower_rune (unicode x) r
            \<and> is_digit_rune (unicode x) r))
   \<and> (validatePassword x p \<noteq> None \<longrightarrow>
        ResetPassword x t p w = (Inl ErrWeakPassword, w)
        \<and> ChangePassword x i c p w = (Inl ErrWeakPassword, w)
        \<and> fst (Register x s e p n w) \<in> {Inl ErrInvalidEmail, Inl ErrWeakPassword}
        \<and> snd (Register x s e p n w) = w)"
proof (intro conjI impI)
  assume "validatePassword x p \<noteq> None"
  then have weak: "validatePassword x p = Some ErrWeakPassword" using validatePassword_error by blast
  show "ResetPassword x t p w = (Inl ErrWeakPassword, w)"
    and "ChangePassword x i c p w = (Inl ErrWeakPassword, w)"
    using weak by (simp_all add: ResetPassword_def ChangePassword_def fail_def)
  have "normalizeEmail x e = Inl ErrInvalidEmail \<or> (\<exists>a. normalizeEmail x e = Inr a)"
    by (auto simp: normalizeEmail_def Let_def split: option.splits)
  then show "fst (Register x s e p n w) \<in> {Inl ErrInvalidEmail, Inl ErrWeakPassword}"
    and "snd (Register x s e p n w) = w"
    using weak by (auto simp: Register_def fail_def)
qed (rule validatePassword_iff)

lemma password_policy_witness:
  "ResetPassword sample_ext ''t'' ''short'' sample_world = (Inl ErrWeakPassword, sample_world)"
  using password_policy [of sample_ext "''short''" "''t''" sample_world] by (simp add: validatePassword_iff)

end
