(* ===== verification/PasswordTheorems.thy ===== *)
theory PasswordTheorems
  imports AccountTheorems
begin

text \<open>
  The properties of password changes: the effect of a reset and of a change, the life of a reset
  token, the answers and the mail of a reset request.
\<close>

lemma sample_hash_new: "bcrypt_generate sample_ext salt ''N3wPassword!'' 12 = Some ''N3wPassword!''"
  by (simp add: sample_ext_def)

lemma sample_uuid [simp]: "uuid_parse sample_ext (uuid_string sample_ext u) = Some u"
  using sample_uuid_roundtrip by (simp add: uuid_roundtrip_def)

lemma sample_version_left [simp]: "version_left 1 sample_db"
  by (simp add: version_left_def max_int32_def)

text \<open>The sample world with a pending reset of Ann's password.\<close>

definition reset_world :: world where
  "reset_world = sample_world\<lparr>cache :=
     [passwordResetCacheKey sample_ext ''r'' \<mapsto> (RStr (uuid_string sample_ext 1), Some hour)]\<rparr>"

lemma reset_world_simps [simp]:
  "db reset_world = sample_db" "healthy reset_world" "rand_pos reset_world = 0"
  "rand_src reset_world n = Some [char_of n]" "db_now reset_world = 0"
  by (simp_all add: reset_world_def)

lemma sample_live_reset [simp]: "live_reset sample_ext reset_world ''r'' = Some 1"
  by (simp add: live_reset_def reset_world_def live_def redis_text_def sample_world_def duration_units)

text \<open>C18: A password reset with a live reset token and an acceptable password stores the new hash,
  raises the token version by one and revokes every refresh token of the user of that token, in
  one transaction; it touches no other user and deletes the reset token.\<close>

theorem reset_password_effect:
  assumes "healthy w" and "validatePassword x password = None"
    and "live_reset x w token = Some i" and "find_user i (db w) = Some u"
    and "rand_src w (rand_pos w) = Some salt" and "bcrypt_generate x salt password 12 = Some hash"
    and "version_left i (db w)"
  shows "fst (ResetPassword x token password w) = Inr ()
    \<and> find_user i (db (snd (ResetPassword x token password w))) =
        Some (u\<lparr>us_password_hash := hash, us_updated_at := db_now w, us_token_version := us_token_version u + 1\<rparr>)
    \<and> (\<forall>j. j \<noteq> i \<longrightarrow> find_user j (db (snd (ResetPassword x token password w))) = find_user j (db w))
    \<and> (\<forall>k \<in> set (refresh_tokens (db (snd (ResetPassword x token password w)))). rt_user_id k = i \<longrightarrow> rt_revoked k)
    \<and> cache (snd (ResetPassword x token password w)) = (cache w)(passwordResetCacheKey x token := None)"
  using ResetPassword_live [OF assms(1-3,5-7)] assms(4) password_changed_effect(1) [of i] password_changed_effect(2) [of _ i]
    sessions_ended_revoked [OF sessions_ended_password] by auto

lemma reset_password_effect_witness:
  "fst (ResetPassword sample_ext ''r'' ''N3wPassword!'' reset_world) = Inr ()
   \<and> cache (snd (ResetPassword sample_ext ''r'' ''N3wPassword!'' reset_world)) = Map.empty"
  using reset_password_effect [of reset_world sample_ext "''N3wPassword!''" "''r''" 1 ann
      "[char_of (0::nat)]" "''N3wPassword!''"]
  by (simp add: sample_hash_new) (simp add: reset_world_def)

lemma ResetPassword_source:
  "rand_src (snd (ResetPassword x token password w)) = rand_src w
   \<and> rand_pos w \<le> rand_pos (snd (ResetPassword x token password w))"
  by (auto simp: ResetPassword_def call_apply attempt_apply redis_call_eq getdel_command_def fail_def ret_def
      generate_from_password_def rand_read_def WithTxQueries_def WithTx_eq set_password_tx_def query_defs exec_eq
      split: option.splits prod.splits sum.splits fault.splits)

lemma never_drawn_mono: "never_drawn x key src p \<Longrightarrow> p \<le> q \<Longrightarrow> never_drawn x key src q"
  unfolding never_drawn_def by (metis order_trans)

text \<open>C19: A reset token is good for one reset: after a successful one, the same token is refused in
  every later state, whatever operations ran, as long as the random source does not give the
  same token again.\<close>

theorem reset_token_single_use:
  assumes "fst (ResetPassword x token password w) = Inr ()"
    and "never_drawn x (passwordResetCacheKey x token) (rand_src w) (rand_pos w)"
    and "steps x s (snd (ResetPassword x token password w)) w2"
  shows "\<exists>e. fst (ResetPassword x token password2 w2) = Inl e"
proof -
  have "unissued x (passwordResetCacheKey x token) (snd (ResetPassword x token password w))"
    using ResetPassword_deletes [OF assms(1)] assms(2) ResetPassword_source never_drawn_mono
    by (auto simp: unissued_def)
  then have "unissued x (passwordResetCacheKey x token) w2" by (rule steps_unissued [OF assms(3)])
  then have "live (redis_now w2) (cache w2) (passwordResetCacheKey x token) = None"
    by (simp add: unissued_def live_def)
  then show ?thesis
    by (auto simp: ResetPassword_def call_apply redis_call_eq getdel_command_def fail_def
        split: option.splits fault.splits)
qed

lemma sample_reset_key: "passwordResetCacheKey sample_ext (hex_encode [c]) \<noteq> passwordResetCacheKey sample_ext ''r''"
  by (simp add: passwordResetCacheKey_def hash_sample eval_hex)

lemma reset_token_single_use_witness:
  "\<exists>e. fst (ResetPassword sample_ext ''r'' ''N3wPassword!''
     (snd (ResetPassword sample_ext ''r'' ''N3wPassword!'' reset_world))) = Inl e"
proof -
  have "fst (ResetPassword sample_ext ''r'' ''N3wPassword!'' reset_world) = Inr ()"
    using ResetPassword_live [of reset_world sample_ext "''N3wPassword!''" "''r''" 1
      "[char_of (0::nat)]" "''N3wPassword!''"] by (simp add: sample_hash_new)
  moreover have "never_drawn sample_ext (passwordResetCacheKey sample_ext ''r'') (rand_src reset_world) 0"
    by (auto simp: never_drawn_def sample_reset_key)
  ultimately show ?thesis
    using reset_token_single_use [of sample_ext "''r''" "''N3wPassword!''" reset_world, OF _ _ steps_refl]
    by simp
qed

text \<open>A password of more than 72 bytes passes the policy but cannot be hashed: the reset fails
  with an internal error, changes no password and still uses the reset token up, so that a second
  attempt with a good password is refused.\<close>

theorem reset_with_long_password:
  assumes "bcrypt_limited x" and "healthy w" and "72 < length password"
    and "validatePassword x password = None" and "validatePassword x password2 = None"
    and "live_reset x w token = Some i" and "rand_src w (rand_pos w) = Some salt"
  shows "fst (ResetPassword x token password w) = Inl ErrBcrypt
    \<and> db (snd (ResetPassword x token password w)) = db w
    \<and> fst (ResetPassword x token password2 (snd (ResetPassword x token password w))) = Inl ErrInvalidToken"
proof -
  have "bcrypt_generate x salt password 12 = None" using assms(1,3) by (simp add: bcrypt_limited_def)
  note burnt = ResetPassword_hash_fails [OF assms(2,4,6,7) this]
  then have "live_reset x (snd (ResetPassword x token password w)) token = None"
    by (simp add: live_reset_def live_def)
  then show ?thesis
    using burnt ResetPassword_dead [OF _ assms(5)] by blast
qed

definition long_password :: string where
  "long_password = ''Passw0rd'' @ replicate 65 CHR ''x''"

lemma long_password_ok: "validatePassword sample_ext long_password = None" "length long_password = 73"
proof -
  have "is_ascii long_password" by (simp add: long_password_def is_ascii_def list_all_iff)
  then show "validatePassword sample_ext long_password = None"
    by (simp add: validatePassword_iff runes_ascii)
       (simp add: long_password_def is_upper_rune_def is_lower_rune_def is_digit_rune_def in_range_def)
qed (simp add: long_password_def)

lemma reset_with_long_password_witness:
  "fst (ResetPassword sample_ext ''r'' long_password reset_world) = Inl ErrBcrypt"
  using reset_with_long_password [of sample_ext reset_world long_password "''N3wPassword!''" "''r''" 1
      "[char_of (0::nat)]"]
  by (simp add: long_password_ok sample_bcrypt_limited)

text \<open>A password change by a user who gives the current password stores the new hash, raises the
  token version by one and ends every session: none of the user's refresh tokens works in any
  later state. With a wrong current password nothing changes.\<close>

theorem change_password_effect:
  assumes "healthy w" and "db_ok x (db w)" and "validatePassword x next_pw = None"
    and "uuid_parse x userID = Some i" and "find_user i (db w) = Some u"
    and "rand_src w (rand_pos w) = Some salt" and "bcrypt_generate x salt next_pw 12 = Some hash"
    and "version_left i (db w)"
    and "find_token (hashOpaqueToken x t) (db w) = Some k" and "rt_user_id k = i"
    and "steps x s (snd (ChangePassword x userID current_pw next_pw w)) w2"
  shows "if bcrypt_compare x (us_password_hash u) current_pw
    then fst (ChangePassword x userID current_pw next_pw w) = Inr ()
      \<and> find_user i (db (snd (ChangePassword x userID current_pw next_pw w))) =
          Some (u\<lparr>us_password_hash := hash, us_updated_at := db_now w, us_token_version := us_token_version u + 1\<rparr>)
      \<and> (\<exists>e. fst (Refresh x s t w2) = Inl e)
    else fst (ChangePassword x userID current_pw next_pw w) = Inl ErrWrongPassword
      \<and> db (snd (ChangePassword x userID current_pw next_pw w)) = db w"
proof (cases "bcrypt_compare x (us_password_hash u) current_pw")
  case True
  note live = ChangePassword_live [OF assms(1,3,4,5) True assms(6,7,8)]
  have ok: "db_ok x (db (snd (ChangePassword x userID current_pw next_pw w)))"
    using service_preserves(8) [THEN preservesD, of x w userID current_pw next_pw] assms(2)
    by (simp add: on_db_def)
  have "token_revoked (hashOpaqueToken x t) (db (snd (ChangePassword x userID current_pw next_pw w)))"
    using sessions_ended_token [OF sessions_ended_password assms(9,10)] live by simp
  from Refresh_after_end [OF ok this assms(11)] show ?thesis
    using True live assms(5) password_changed_effect(1) [of i] by auto
next
  case False
  from ChangePassword_wrong [OF assms(1,3,4,5) False] show ?thesis using False by simp
qed

lemma change_password_effect_witness:
  "fst (ChangePassword sample_ext (uuid_string sample_ext 1) ''Passw0rd1234'' ''N3wPassword!'' sample_world) = Inr ()
   \<and> fst (ChangePassword sample_ext (uuid_string sample_ext 1) ''guess'' ''N3wPassword!'' sample_world)
       = Inl ErrWrongPassword"
proof -
  have "find_token (hashOpaqueToken sample_ext ''tok'') sample_db = Some ann_token"
    using live_tokenD [OF sample_live_token] by simp
  note this [simp] and use = change_password_effect [of sample_world sample_ext "''N3wPassword!''"
      "uuid_string sample_ext 1" 1 ann "[char_of (0::nat)]" "''N3wPassword!''" "''tok''" ann_token sample_service,
      OF _ _ _ _ _ _ _ _ _ _ steps_refl]
  show ?thesis using use [of "''Passw0rd1234''"] use [of "''guess''"] by (simp add: sample_hash_new)
qed

lemma send_email_healthy:
  "healthy w \<Longrightarrow> send_email m w = (Inr (), next_fault w\<lparr>outbox := outbox w @ [m]\<rparr>)"
  by (simp add: send_email_eq)

lemma ForgotPassword_mail:
  assumes "healthy w" and "normalizeEmail x e = Inr email"
    and "find_user_email x email (db w) = Some u" and "rand_src w (rand_pos w) = Some b"
    and "sender s = ResendSender r" and "appBaseURL s \<noteq> ''''"
  shows "outbox (snd (ForgotPassword x s e w)) =
    outbox w @ [reset_message r (us_email u) (reset_url s (hex_encode b))]"
proof -
  have user: "GetUserByEmail x email w = (Inr u, next_fault w)"
    using assms by (simp add: queries_healthy one_row_def)
  show ?thesis
    using assms
    by (simp add: ForgotPassword_def user attempt_apply GenerateRefreshToken_apply redis_call_healthy set_command_def call_apply
        send_email_healthy ret_def split: prod.splits)
qed

lemma ForgotPassword_unknown:
  assumes "healthy w"
    and "\<And>email. normalizeEmail x e = Inr email \<Longrightarrow> find_user_email x email (db w) = None"
  shows "fst (ForgotPassword x s e w) = Inr () \<and> db (snd (ForgotPassword x s e w)) = db w
    \<and> cache (snd (ForgotPassword x s e w)) = cache w \<and> outbox (snd (ForgotPassword x s e w)) = outbox w"
  using assms
  by (cases "normalizeEmail x e")
     (auto simp: ForgotPassword_def call_apply queries_healthy one_row_def ret_def)

text \<open>A reset request does not tell whether an account exists: where the database, the cache and
  the random source work it reports success for every e-mail, whether or not the mail can be
  sent; for an e-mail without an account it writes and sends nothing.\<close>

theorem forgot_password_uniform:
  assumes "healthy w" and "rand_src w (rand_pos w) = Some b"
  shows "fst (ForgotPassword x s e w) = Inr () \<and> db (snd (ForgotPassword x s e w)) = db w
    \<and> ((\<forall>email. normalizeEmail x e = Inr email \<longrightarrow> find_user_email x email (db w) = None) \<longrightarrow>
         cache (snd (ForgotPassword x s e w)) = cache w \<and> outbox (snd (ForgotPassword x s e w)) = outbox w)"
proof (cases "\<forall>email. normalizeEmail x e = Inr email \<longrightarrow> find_user_email x email (db w) = None")
  case True
  with ForgotPassword_unknown [OF assms(1), of x e s] show ?thesis by simp
next
  case False
  then obtain email u where "normalizeEmail x e = Inr email" "find_user_email x email (db w) = Some u"
    by auto
  with ForgotPassword_known [OF assms(1) this assms(2), of s] show ?thesis by simp
qed

lemma forgot_password_uniform_witness:
  "fst (ForgotPassword sample_ext sample_service ''ann@x.io'' sample_world) =
   fst (ForgotPassword sample_ext sample_service ''bob@x.io'' sample_world)"
  using forgot_password_uniform [of sample_world "[char_of (0::nat)]" sample_ext sample_service "''ann@x.io''"]
    forgot_password_uniform [of sample_world "[char_of (0::nat)]" sample_ext sample_service "''bob@x.io''"]
  by simp

text \<open>C22: From a forgotten password to a new one: the token of the request, in a later world with
  the cache the request left, sets the password of the account of the e-mail if the hour is not
  over, and is refused if it is.\<close>

theorem forgot_then_reset:
  assumes "uuid_roundtrip x" and "healthy w" and "normalizeEmail x e = Inr email"
    and "find_user_email x email (db w) = Some u" and "rand_src w (rand_pos w) = Some b"
    and "healthy v" and "cache v = cache (snd (ForgotPassword x s e w))"
    and "validatePassword x password = None"
    and "rand_src v (rand_pos v) = Some salt" and "bcrypt_generate x salt password 12 = Some hash"
    and "version_left (us_id u) (db v)"
  shows "if redis_now v < redis_now w + hour
    then fst (ResetPassword x (hex_encode b) password v) = Inr ()
      \<and> db (snd (ResetPassword x (hex_encode b) password v)) = password_changed (db_now v) (us_id u) hash (db v)
    else fst (ResetPassword x (hex_encode b) password v) = Inl ErrInvalidToken
      \<and> db (snd (ResetPassword x (hex_encode b) password v)) = db v"
proof -
  have "live_reset x v (hex_encode b) =
      (if redis_now v < redis_now w + hour then Some (us_id u) else None)"
    using ForgotPassword_known [OF assms(2-5), of s] assms(1,7)
    by (simp add: live_reset_def live_def redis_text_def uuid_roundtrip_def)
  then show ?thesis
    using ResetPassword_live [OF assms(6,8) _ assms(9,10,11), of "hex_encode b"]
      ResetPassword_dead [OF assms(6,8), of "hex_encode b"] by simp
qed

lemma forgot_then_reset_witness:
  "fst (ResetPassword sample_ext (hex_encode [char_of (0::nat)]) ''N3wPassword!''
     (sample_world\<lparr>cache := cache (snd (ForgotPassword sample_ext sample_service ''ann@x.io'' sample_world)),
        rand_pos := 1, redis_now := 59 * minute\<rparr>)) = Inr ()
   \<and> fst (ResetPassword sample_ext (hex_encode [char_of (0::nat)]) ''N3wPassword!''
     (sample_world\<lparr>cache := cache (snd (ForgotPassword sample_ext sample_service ''ann@x.io'' sample_world)),
        rand_pos := 1, redis_now := hour\<rparr>)) = Inl ErrInvalidToken"
proof -
  let ?c = "cache (snd (ForgotPassword sample_ext sample_service ''ann@x.io'' sample_world))"
  note use = forgot_then_reset [of sample_ext sample_world "''ann@x.io''" "''ann@x.io''" ann
      "[char_of (0::nat)]" _ sample_service "''N3wPassword!''" "[char_of (1::nat)]" "''N3wPassword!''"]
  have h: "healthy (sample_world\<lparr>cache := ?c, rand_pos := 1, redis_now := t\<rparr>)" for t
    by (simp add: healthy_def sample_world_def)
  have v: "version_left 1 sample_db" by (simp add: version_left_def max_int32_def)
  have b: "bcrypt_generate sample_ext salt ''N3wPassword!'' 12 = Some ''N3wPassword!''" for salt
    by (simp add: sample_ext_def)
  show ?thesis
    using use [of "sample_world\<lparr>cache := ?c, rand_pos := 1, redis_now := 59 * minute\<rparr>"]
      use [of "sample_world\<lparr>cache := ?c, rand_pos := 1, redis_now := hour\<rparr>"] h v b
    by (simp add: sample_uuid_roundtrip duration_units)
qed

text \<open>The mail of a reset request with a configured base URL: one message, to the account's
  address, whose HTML has the reset link as the value of one attribute; no character of the
  escaped link can end the attribute or open a tag, whatever the base URL is.\<close>

theorem reset_mail_link:
  assumes "healthy w" and "normalizeEmail x e = Inr email"
    and "find_user_email x email (db w) = Some u" and "rand_src w (rand_pos w) = Some b"
    and "sender s = ResendSender r" and "appBaseURL s \<noteq> ''''"
  shows "\<exists>m pre link post. outbox (snd (ForgotPassword x s e w)) = outbox w @ [m]
    \<and> em_to m = [trim_space (us_email u)]
    \<and> em_html m = pre @ ''<a href='' @ [CHR 0x22] @ link @ [CHR 0x22] @ post
    \<and> link = html_escape (appBaseURL s @ ''/auth/reset-password?token='' @ hex_encode b)
    \<and> set link \<inter> set [CHR 0x22, CHR 0x27, CHR ''<'', CHR ''>''] = {}"
proof (intro exI conjI)
  let ?url = "appBaseURL s @ ''/auth/reset-password?token='' @ hex_encode b"
  let ?m = "reset_message r (us_email u) (reset_url s (hex_encode b))"
  show "outbox (snd (ForgotPassword x s e w)) = outbox w @ [?m]"
    by (rule ForgotPassword_mail [OF assms])
  show "em_to ?m = [trim_space (us_email u)]" by (simp add: reset_message_def)
  show "em_html ?m = (newline @ ''<p>You requested a password reset.</p>'' @ newline @ ''<p>'')
      @ ''<a href='' @ [CHR 0x22] @ html_escape ?url @ [CHR 0x22]
      @ (''>Reset your password</a></p>'' @ newline
         @ ''<p>This link expires in 1 hour. If you did not request this, you can ignore this email.</p>''
         @ newline)"
    by (simp add: reset_message_def passwordResetHTML_def reset_url_def)
  show "html_escape ?url = html_escape (appBaseURL s @ ''/auth/reset-password?token='' @ hex_encode b)"
    by simp
  show "set (html_escape ?url) \<inter> set [CHR 0x22, CHR 0x27, CHR ''<'', CHR ''>''] = {}"
    using html_escape_safe by auto
qed

lemma reset_mail_link_witness:
  "length (outbox (snd (ForgotPassword sample_ext sample_service ''ann@x.io'' sample_world))) = 1"
  using reset_mail_link [of sample_world sample_ext "''ann@x.io''" "''ann@x.io''" ann "[char_of (0::nat)]"
      sample_service "\<lparr>fromEmail = ''no-reply@x.io'', fromName = ''App''\<rparr>"]
  by (auto simp: sample_service_def NewService_def) (simp_all add: sample_world_def)

end
