(* ===== verification/Json.thy ===== *)
theory Json
  imports Runtime
begin

text \<open>
  The parts of \<open>encoding/json\<close> the program uses: decoding a body into a struct of string
  fields, and encoding responses. The decoder is a lexer over the runes of the text, as the
  scanner of the package a state machine that looks at one character at a time, and a stack
  machine over the tokens. Decoding succeeds exactly where \<open>Decode\<close> (or \<open>Unmarshal\<close>)
  returns no error; the program uses none of the values of a decoding that failed.
\<close>

datatype json =
    JNull | JBool bool | JNum string | JStr string
  | JArr "json list" | JObj "(string \<times> json) list"

subsection \<open>Strings\<close>

definition is_json_space :: "rune \<Rightarrow> bool" where
  "is_json_space r \<longleftrightarrow> r = 32 \<or> r = 9 \<or> r = 10 \<or> r = 13"

definition hex_rune_value :: "rune \<Rightarrow> nat option" where
  "hex_rune_value n =
     (if in_range 48 57 n then Some (n - 48)
      else if in_range 97 102 n then Some (n - 87)
      else if in_range 65 70 n then Some (n - 55)
      else None)"

text \<open>The runes a one-letter escape stands for.\<close>

definition simple_escape :: "rune \<Rightarrow> rune option" where
  "simple_escape r =
     (if r = 34 \<or> r = 92 \<or> r = 47 then Some r
      else if r = 98 then Some 8
      else if r = 102 then Some 12
      else if r = 110 then Some 10
      else if r = 114 then Some 13
      else if r = 116 then Some 9
      else None)"

text \<open>
  The text between two quotes, as the lexer gathers it: plain runes and the 16-bit units of
  \<open>\u\<close> escapes. A high and a low surrogate unit in a row are one rune; other surrogates
  become U+FFFD when they are written as UTF-8, as does an invalid byte.
\<close>

datatype string_item = Plain rune | Unit nat

fun items_text :: "string_item list \<Rightarrow> string" where
  "items_text [] = []"
| "items_text (Plain r # is) = encode_rune r @ items_text is"
| "items_text [Unit u] = encode_rune u"
| "items_text (Unit u # Plain r # is) = encode_rune u @ encode_rune r @ items_text is"
| "items_text (Unit u # Unit v # is) =
     (if in_range 55296 56319 u \<and> in_range 56320 57343 v
      then encode_rune ((u - 55296) * 1024 + (v - 56320) + 65536) @ items_text is
      else encode_rune u @ items_text (Unit v # is))"

subsection \<open>The lexer\<close>

datatype token =
    LBrace | RBrace | LBrack | RBrack | Colon | Comma
  | Lit json | TStr string

text \<open>
  Between tokens; in a string (items so far, newest first), after a backslash, in the digits of
  a \<open>\u\<close> escape; in a keyword (what is left of it and its token); in a number (its text,
  newest first, and the state of the scanner).
\<close>

datatype num_state = NNeg | NZero | NDigits | NDot | NFrac | NExp | NExpSign | NExpDigits

datatype lex_state =
    Ready
  | InStr "string_item list"
  | InEsc "string_item list"
  | InHex "string_item list" nat nat
  | InWord "rune list" json
  | InNum string num_state

definition is_digit_r :: "rune \<Rightarrow> bool" where
  "is_digit_r r \<longleftrightarrow> in_range 48 57 r"

text \<open>The next state in a number, if the rune continues it; where a number may end.\<close>

definition num_next :: "num_state \<Rightarrow> rune \<Rightarrow> num_state option" where
  "num_next n r = (case n of
     NNeg \<Rightarrow> if r = 48 then Some NZero else if is_digit_r r then Some NDigits else None
   | NZero \<Rightarrow> if r = 46 then Some NDot else if r = 101 \<or> r = 69 then Some NExp else None
   | NDigits \<Rightarrow> if is_digit_r r then Some NDigits else if r = 46 then Some NDot
                else if r = 101 \<or> r = 69 then Some NExp else None
   | NDot \<Rightarrow> if is_digit_r r then Some NFrac else None
   | NFrac \<Rightarrow> if is_digit_r r then Some NFrac else if r = 101 \<or> r = 69 then Some NExp else None
   | NExp \<Rightarrow> if r = 43 \<or> r = 45 then Some NExpSign else if is_digit_r r then Some NExpDigits else None
   | NExpSign \<Rightarrow> if is_digit_r r then Some NExpDigits else None
   | NExpDigits \<Rightarrow> if is_digit_r r then Some NExpDigits else None)"

definition num_final :: "num_state \<Rightarrow> bool" where
  "num_final n \<longleftrightarrow> n = NZero \<or> n = NDigits \<or> n = NFrac \<or> n = NExpDigits"

definition num_token :: "string \<Rightarrow> token" where
  "num_token digits = Lit (JNum (rev digits))"

definition start_token :: "rune \<Rightarrow> (lex_state \<times> token list) option" where
  "start_token r =
     (if is_json_space r then Some (Ready, [])
      else if r = 123 then Some (Ready, [LBrace])
      else if r = 125 then Some (Ready, [RBrace])
      else if r = 91 then Some (Ready, [LBrack])
      else if r = 93 then Some (Ready, [RBrack])
      else if r = 58 then Some (Ready, [Colon])
      else if r = 44 then Some (Ready, [Comma])
      else if r = 34 then Some (InStr [], [])
      else if r = 110 then Some (InWord [117, 108, 108] JNull, [])
      else if r = 116 then Some (InWord [114, 117, 101] (JBool True), [])
      else if r = 102 then Some (InWord [97, 108, 115, 101] (JBool False), [])
      else if r = 45 then Some (InNum [CHR ''-''] NNeg, [])
      else if r = 48 then Some (InNum [CHR ''0''] NZero, [])
      else if is_digit_r r then Some (InNum [char_of r] NDigits, [])
      else None)"

fun lex_step :: "lex_state \<Rightarrow> rune \<Rightarrow> (lex_state \<times> token list) option" where
  "lex_step Ready r = start_token r"
| "lex_step (InStr is) r =
     (if r = 34 then Some (Ready, [TStr (items_text (rev is))])
      else if r = 92 then Some (InEsc is, [])
      else if r < 32 then None
      else Some (InStr (Plain r # is), []))"
| "lex_step (InEsc is) r =
     (if r = 117 then Some (InHex is 4 0, [])
      else map_option (\<lambda>c. (InStr (Plain c # is), [])) (simple_escape r))"
| "lex_step (InHex is n v) r = (case hex_rune_value r of
     None \<Rightarrow> None
   | Some d \<Rightarrow>
       if n \<le> 1 then Some (InStr (Unit (v * 16 + d) # is), [])
       else Some (InHex is (n - 1) (v * 16 + d), []))"
| "lex_step (InWord [] j) r = None"
| "lex_step (InWord (c # cs) j) r =
     (if r \<noteq> c then None else if cs = [] then Some (Ready, [Lit j]) else Some (InWord cs j, []))"
| "lex_step (InNum ds n) r = (case num_next n r of
     Some n' \<Rightarrow> Some (InNum (char_of r # ds) n', [])
   | None \<Rightarrow>
       if num_final n then map_option (\<lambda>(s, ts). (s, num_token ds # ts)) (start_token r) else None)"

fun lex_end :: "lex_state \<Rightarrow> token list option" where
  "lex_end Ready = Some []"
| "lex_end (InNum ds n) = (if num_final n then Some [num_token ds] else None)"
| "lex_end _ = None"

fun lex :: "lex_state \<Rightarrow> rune list \<Rightarrow> token list option" where
  "lex s [] = lex_end s"
| "lex s (r # rs) = (case lex_step s r of
     None \<Rightarrow> None
   | Some (s', ts) \<Rightarrow> map_option ((@) ts) (lex s' rs))"

subsection \<open>The values\<close>

text \<open>The unfinished arrays and objects around the current position, the innermost first.\<close>

datatype frame = ArrFrame "json list" | ObjFrame "(string \<times> json) list" string

datatype expect =
    WantValue | WantValueOrEnd | WantKey "(string \<times> json) list" bool
  | WantColon "(string \<times> json) list" string | AfterValue | Complete json

definition deliver :: "frame list \<Rightarrow> json \<Rightarrow> frame list \<times> expect" where
  "deliver st v = (case st of
     [] \<Rightarrow> ([], Complete v)
   | ArrFrame vs # st' \<Rightarrow> (ArrFrame (v # vs) # st', AfterValue)
   | ObjFrame ms k # st' \<Rightarrow> (ObjFrame ((k, v) # ms) k # st', AfterValue))"

text \<open>The nesting limit of the scanner, \<open>maxNestingDepth\<close>.\<close>

definition maxNestingDepth :: nat where
  "maxNestingDepth = 10000"

definition value_step :: "frame list \<Rightarrow> token \<Rightarrow> (frame list \<times> expect) option" where
  "value_step st t = (case t of
     Lit v \<Rightarrow> Some (deliver st v)
   | TStr s \<Rightarrow> Some (deliver st (JStr s))
   | LBrack \<Rightarrow> if length st < maxNestingDepth then Some (ArrFrame [] # st, WantValueOrEnd) else None
   | LBrace \<Rightarrow> if length st < maxNestingDepth then Some (st, WantKey [] True) else None
   | _ \<Rightarrow> None)"

fun parse_step :: "frame list \<times> expect \<Rightarrow> token \<Rightarrow> (frame list \<times> expect) option" where
  "parse_step (st, WantValue) t = value_step st t"
| "parse_step (ArrFrame [] # st, WantValueOrEnd) t =
     (if t = RBrack then Some (deliver st (JArr [])) else value_step (ArrFrame [] # st) t)"
| "parse_step (st, WantValueOrEnd) t = None"
| "parse_step (st, WantKey ms closable) t = (case t of
     TStr k \<Rightarrow> Some (st, WantColon ms k)
   | RBrace \<Rightarrow> if closable then Some (deliver st (JObj (rev ms))) else None
   | _ \<Rightarrow> None)"
| "parse_step (st, WantColon ms k) t = (if t = Colon then Some (ObjFrame ms k # st, WantValue) else None)"
| "parse_step (ArrFrame vs # st, AfterValue) t = (case t of
     Comma \<Rightarrow> Some (ArrFrame vs # st, WantValue)
   | RBrack \<Rightarrow> Some (deliver st (JArr (rev vs)))
   | _ \<Rightarrow> None)"
| "parse_step (ObjFrame ms k # st, AfterValue) t = (case t of
     Comma \<Rightarrow> Some (st, WantKey ms False)
   | RBrace \<Rightarrow> Some (deliver st (JObj (rev ms)))
   | _ \<Rightarrow> None)"
| "parse_step ([], AfterValue) t = None"
| "parse_step (st, Complete v) t = None"

fun parse_tokens :: "frame list \<times> expect \<Rightarrow> token list \<Rightarrow> json option" where
  "parse_tokens p [] = (case snd p of Complete v \<Rightarrow> Some v | _ \<Rightarrow> None)"
| "parse_tokens p (t # ts) = (case parse_step p t of None \<Rightarrow> None | Some p' \<Rightarrow> parse_tokens p' ts)"

text \<open>One value and nothing but space around it.\<close>

definition parse_json :: "string \<Rightarrow> json option" where
  "parse_json s = Option.bind (lex Ready (runes s)) (parse_tokens ([], WantValue))"

subsection \<open>Decoding into a struct of strings\<close>

text \<open>
  Keys match field names exactly or else by case folding; among runes outside ASCII only U+017F
  and U+212A fold to an ASCII letter.
\<close>

definition fold_rune :: "rune \<Rightarrow> rune" where
  "fold_rune r =
     (if in_range 97 122 r then r - 32 else if r = 383 then 83 else if r = 8490 then 75 else r)"

definition match_field :: "string list \<Rightarrow> string \<Rightarrow> string option" where
  "match_field names key =
     (if key \<in> set names then Some key
      else find (\<lambda>n. map fold_rune (runes n) = map fold_rune (runes key)) names)"

text \<open>
  A string sets its field, null leaves it, any other value is an error; so is an unknown key
  under \<open>DisallowUnknownFields\<close>. The last of several values of a field counts.
\<close>

fun decode_members ::
    "bool \<Rightarrow> string list \<Rightarrow> (string \<times> json) list \<Rightarrow> (string \<Rightarrow> string) \<Rightarrow> (string \<Rightarrow> string) option" where
  "decode_members strict names [] f = Some f"
| "decode_members strict names ((k, v) # ms) f = (case match_field names k of
     None \<Rightarrow> if strict then None else decode_members strict names ms f
   | Some n \<Rightarrow>
       (case v of
          JStr s \<Rightarrow> decode_members strict names ms (f(n := s))
        | JNull \<Rightarrow> decode_members strict names ms f
        | _ \<Rightarrow> None))"

definition decode_struct :: "bool \<Rightarrow> string list \<Rightarrow> string \<Rightarrow> (string \<Rightarrow> string) option" where
  "decode_struct strict names body = (case parse_json body of
     Some (JObj ms) \<Rightarrow> decode_members strict names ms (\<lambda>_. '''')
   | Some JNull \<Rightarrow> Some (\<lambda>_. '''')
   | _ \<Rightarrow> None)"

subsection \<open>Encoding\<close>

definition escape_segment :: "rune \<times> string \<Rightarrow> string" where
  "escape_segment p = (case p of (r, bytes) \<Rightarrow>
     if r = 34 \<or> r = 92 then [CHR 0x5C, char_of r]
     else if r = 8 then [CHR 0x5C, CHR ''b'']
     else if r = 12 then [CHR 0x5C, CHR ''f'']
     else if r = 10 then [CHR 0x5C, CHR ''n'']
     else if r = 13 then [CHR 0x5C, CHR ''r'']
     else if r = 9 then [CHR 0x5C, CHR ''t'']
     else if r < 32 \<or> r = 60 \<or> r = 62 \<or> r = 38
       then [CHR 0x5C, CHR ''u'', CHR ''0'', CHR ''0'', hex_digit (r div 16), hex_digit (r mod 16)]
     else if r = rune_error \<and> length bytes = 1 then CHR 0x5C # ''ufffd''
     else if r = 8232 \<or> r = 8233 then [CHR 0x5C, CHR ''u'', CHR ''2'', CHR ''0'', CHR ''2'', hex_digit (r mod 16)]
     else bytes)"

definition quote_text :: "string \<Rightarrow> string" where
  "quote_text s = CHR 0x22 # concat (map escape_segment (segments s)) @ [CHR 0x22]"

fun json_text :: "json \<Rightarrow> string" where
  "json_text JNull = ''null''"
| "json_text (JBool b) = (if b then ''true'' else ''false'')"
| "json_text (JNum n) = n"
| "json_text (JStr s) = quote_text s"
| "json_text (JArr vs) = ''['' @ join_with '','' (map json_text vs) @ '']''"
| "json_text (JObj ms) =
     ''{'' @ join_with '','' (map (\<lambda>(k, v). quote_text k @ '':'' @ json_text v) ms) @ ''}''"

subsection \<open>Evaluation on literals\<close>

lemmas eval_json =
  decode_struct_def parse_json_def match_field_def fold_rune_def runes_ascii in_range_def
  start_token_def is_json_space_def is_digit_r_def num_next_def num_final_def num_token_def
  value_step_def deliver_def maxNestingDepth_def simple_escape_def hex_rune_value_def encode_rune_def
  char_of_def bit_iff_odd

end
