(* ===== verification/Http.thy ===== *)
theory Http
  imports Json Cache Identity
begin

text \<open>
  What \<open>net/http\<close> gives the handlers, and \<open>internal/platform/response\<close>: requests, the
  response writer, handlers that may panic, middleware as functions from handlers to handlers.

  The state of a request in flight is an \<open>env\<close>: the world, the response so far, the log and
  the counters of the process, the pattern of the matched route, and the status codes of the
  \<open>wrappedWriter\<close>s around the writer, the innermost first. A header set after the status was
  written is not sent, a second status is ignored, and a body written first implies status 200.
\<close>

subsection \<open>Requests\<close>

text \<open>
  A body that can be read: its bytes, and whether reading ends in an error instead of the end.
  Headers are listed under their canonical names in the order they came.
\<close>

record body =
  bd_bytes :: string
  bd_fails :: bool

record request =
  rq_method :: string
  rq_path :: string
  rq_headers :: "(string \<times> string) list"
  rq_remote_addr :: string
  rq_body :: "body option"
  rq_context :: request_context
  rq_params :: "(string \<times> string) list"

definition header_get :: "request \<Rightarrow> string \<Rightarrow> string" where
  "header_get r k = (case map_of (rq_headers r) k of None \<Rightarrow> '''' | Some v \<Rightarrow> v)"

definition url_param :: "request \<Rightarrow> string \<Rightarrow> string" where
  "url_param r k = (case map_of (rq_params r) k of None \<Rightarrow> '''' | Some v \<Rightarrow> v)"

definition IdentityFromRequest :: "request \<Rightarrow> identity option" where
  "IdentityFromRequest r = IdentityFromContext (rq_context r)"

subsection \<open>Responses\<close>

type_synonym headers = "string \<rightharpoonup> string list"

record response =
  rs_header :: headers
  rs_sent :: "(nat \<times> headers) option"
  rs_body :: string

definition new_response :: response where
  "new_response = \<lparr>rs_header = Map.empty, rs_sent = None, rs_body = ''''\<rparr>"

text \<open>The status and the headers a client gets once the handler has returned.\<close>

definition final_status :: "response \<Rightarrow> nat" where
  "final_status p = (case rs_sent p of None \<Rightarrow> 200 | Some (c, _) \<Rightarrow> c)"

definition final_headers :: "response \<Rightarrow> headers" where
  "final_headers p = (case rs_sent p of None \<Rightarrow> rs_header p | Some (_, h) \<Rightarrow> h)"

text \<open>
  The lines of the log: a request with method, path, status, milliseconds and remote address; a
  recovered panic with method, path and whether the stack was logged. The process counts requests
  by method, path and status and observes their durations by method and path.
\<close>

datatype log_entry =
    RequestLog string string nat int string
  | PanicLog string string bool

record env =
  ev_world :: world
  ev_response :: response
  ev_writers :: "nat list"
  ev_log :: "log_entry list"
  ev_counts :: "(string \<times> string \<times> nat) list"
  ev_durations :: "(string \<times> string \<times> duration) list"
  ev_route :: string

datatype outcome = Returned | Panicked

type_synonym handler = "request \<Rightarrow> env \<Rightarrow> outcome \<times> env"
type_synonym middleware = "handler \<Rightarrow> handler"

definition header_set :: "string \<Rightarrow> string \<Rightarrow> env \<Rightarrow> env" where
  "header_set k v e =
     e\<lparr>ev_response := (ev_response e)\<lparr>rs_header := (rs_header (ev_response e))(k \<mapsto> [v])\<rparr>\<rparr>"

definition header_add :: "string \<Rightarrow> string \<Rightarrow> env \<Rightarrow> env" where
  "header_add k v e =
     (let h = rs_header (ev_response e); old = (case h k of None \<Rightarrow> [] | Some vs \<Rightarrow> vs)
      in e\<lparr>ev_response := (ev_response e)\<lparr>rs_header := h(k \<mapsto> old @ [v])\<rparr>\<rparr>)"

text \<open>\<open>WriteHeader\<close> of the writer below all wrappers.\<close>

definition send_status :: "nat \<Rightarrow> response \<Rightarrow> response" where
  "send_status c p = (case rs_sent p of
     None \<Rightarrow> p\<lparr>rs_sent := Some (c, rs_header p)\<rparr> | Some _ \<Rightarrow> p)"

text \<open>
  \<open>wrappedWriter.WriteHeader\<close> records the code and passes it on, so every wrapper records it.
\<close>

definition write_header :: "nat \<Rightarrow> env \<Rightarrow> env" where
  "write_header c e =
     e\<lparr>ev_writers := map (\<lambda>_. c) (ev_writers e), ev_response := send_status c (ev_response e)\<rparr>"

text \<open>\<open>Write\<close> is not intercepted; a status without a body drops it.\<close>

definition write_body :: "string \<Rightarrow> env \<Rightarrow> env" where
  "write_body s e =
     (let p = send_status 200 (ev_response e)
      in e\<lparr>ev_response := (if final_status p = 204 \<or> final_status p = 304 then p
                          else p\<lparr>rs_body := rs_body p @ s\<rparr>)\<rparr>)"

subsection \<open>\<open>internal/platform/response\<close>\<close>

definition CodeBadRequest :: string where "CodeBadRequest = ''BAD_REQUEST''"
definition CodeConflict :: string where "CodeConflict = ''CONFLICT''"
definition CodeForbidden :: string where "CodeForbidden = ''FORBIDDEN''"
definition CodeInternalError :: string where "CodeInternalError = ''INTERNAL_ERROR''"
definition CodeNotFound :: string where "CodeNotFound = ''NOT_FOUND''"
definition CodeRateLimited :: string where "CodeRateLimited = ''RATE_LIMITED''"
definition CodeUnauthorized :: string where "CodeUnauthorized = ''UNAUTHORIZED''"

record meta =
  mt_page :: int
  mt_per_page :: int
  mt_total :: int

definition meta_json :: "meta \<Rightarrow> json" where
  "meta_json m = JObj [(''page'', JNum (int_text (mt_page m))),
     (''per_page'', JNum (int_text (mt_per_page m))), (''total'', JNum (int_text (mt_total m)))]"

definition success_body :: "json \<Rightarrow> meta option \<Rightarrow> json" where
  "success_body data m = JObj ((''data'', data) #
     (case m of None \<Rightarrow> [] | Some m \<Rightarrow> [(''meta'', meta_json m)]))"

definition error_body :: "string \<Rightarrow> string \<Rightarrow> json" where
  "error_body code message =
     JObj [(''error'', JObj [(''code'', JStr code), (''message'', JStr message)])]"

text \<open>\<open>json.NewEncoder(w).Encode\<close> writes the text and a newline.\<close>

definition encode_to :: "json \<Rightarrow> env \<Rightarrow> env" where
  "encode_to j = write_body (json_text j @ [CHR 0x0A])"

definition content_json :: "env \<Rightarrow> env" where
  "content_json = header_set ''Content-Type'' ''application/json''"

definition JSON :: "nat \<Rightarrow> json \<Rightarrow> env \<Rightarrow> env" where
  "JSON status data e = encode_to (success_body data None) (write_header status (content_json e))"

definition JSONList :: "nat \<Rightarrow> json \<Rightarrow> meta \<Rightarrow> env \<Rightarrow> env" where
  "JSONList status data m e =
     encode_to (success_body data (Some m)) (write_header status (content_json e))"

definition Error :: "nat \<Rightarrow> string \<Rightarrow> string \<Rightarrow> env \<Rightarrow> env" where
  "Error status code message e =
     encode_to (error_body code message) (write_header status (content_json e))"

definition NoContent :: "env \<Rightarrow> env" where
  "NoContent e = write_header 204 e"

text \<open>A handler that ends with a response, and an operation of the world run by a handler.\<close>

definition finish :: "env \<Rightarrow> outcome \<times> env" where
  "finish e = (Returned, e)"

definition with_world :: "'a op \<Rightarrow> ((err + 'a) \<Rightarrow> env \<Rightarrow> outcome \<times> env) \<Rightarrow> env \<Rightarrow> outcome \<times> env" where
  "with_world m k e = (case m (ev_world e) of (r, w') \<Rightarrow> k r (e\<lparr>ev_world := w'\<rparr>))"

subsection \<open>What the writers leave\<close>

lemmas writer_defs =
  header_set_def header_add_def write_header_def write_body_def encode_to_def content_json_def
  send_status_def final_status_def final_headers_def

lemma writer_world [simp]:
  "ev_world (header_set k v e) = ev_world e" "ev_world (header_add k v e) = ev_world e"
  "ev_world (write_header c e) = ev_world e" "ev_world (write_body s e) = ev_world e"
  "ev_world (JSON c j e) = ev_world e" "ev_world (Error c a b e) = ev_world e"
  "ev_world (NoContent e) = ev_world e" "ev_world (JSONList c j m e) = ev_world e"
  by (simp_all add: writer_defs JSON_def JSONList_def Error_def NoContent_def Let_def)

lemma writer_rest [simp]:
  "ev_log (header_set k v e) = ev_log e" "ev_log (header_add k v e) = ev_log e"
  "ev_log (write_header c e) = ev_log e" "ev_log (write_body s e) = ev_log e"
  "ev_log (JSON c j e) = ev_log e" "ev_log (Error c a b e) = ev_log e" "ev_log (NoContent e) = ev_log e"
  "ev_counts (header_set k v e) = ev_counts e" "ev_counts (header_add k v e) = ev_counts e"
  "ev_counts (write_header c e) = ev_counts e" "ev_counts (write_body s e) = ev_counts e"
  "ev_counts (JSON c j e) = ev_counts e" "ev_counts (Error c a b e) = ev_counts e"
  "ev_counts (NoContent e) = ev_counts e"
  "ev_durations (header_set k v e) = ev_durations e" "ev_durations (header_add k v e) = ev_durations e"
  "ev_durations (write_header c e) = ev_durations e" "ev_durations (write_body s e) = ev_durations e"
  "ev_durations (JSON c j e) = ev_durations e" "ev_durations (Error c a b e) = ev_durations e"
  "ev_durations (NoContent e) = ev_durations e"
  "ev_route (header_set k v e) = ev_route e" "ev_route (header_add k v e) = ev_route e"
  "ev_route (write_header c e) = ev_route e" "ev_route (write_body s e) = ev_route e"
  "ev_route (JSON c j e) = ev_route e" "ev_route (Error c a b e) = ev_route e"
  "ev_route (NoContent e) = ev_route e"
  by (simp_all add: writer_defs JSON_def Error_def NoContent_def Let_def)

lemma writers_kept [simp]:
  "length (ev_writers (header_set k v e)) = length (ev_writers e)"
  "length (ev_writers (header_add k v e)) = length (ev_writers e)"
  "length (ev_writers (write_header c e)) = length (ev_writers e)"
  "length (ev_writers (write_body s e)) = length (ev_writers e)"
  "length (ev_writers (JSON c j e)) = length (ev_writers e)"
  "length (ev_writers (Error c a b e)) = length (ev_writers e)"
  "length (ev_writers (NoContent e)) = length (ev_writers e)"
  by (simp_all add: writer_defs JSON_def Error_def NoContent_def Let_def)

text \<open>The first response counts: its status is what the client gets.\<close>

definition unsent :: "env \<Rightarrow> bool" where
  "unsent e \<longleftrightarrow> rs_sent (ev_response e) = None"

lemma first_status [http_rules]:
  "unsent e \<Longrightarrow> final_status (ev_response (Error c a b e)) = c"
  "unsent e \<Longrightarrow> final_status (ev_response (JSON c j e)) = c"
  "unsent e \<Longrightarrow> final_status (ev_response (NoContent e)) = 204"
  by (simp_all add: unsent_def writer_defs JSON_def Error_def NoContent_def Let_def)

lemma first_body [http_rules]:
  "unsent e \<Longrightarrow> c \<noteq> 204 \<Longrightarrow> c \<noteq> 304 \<Longrightarrow>
     rs_body (ev_response (Error c a b e)) =
       rs_body (ev_response e) @ json_text (error_body a b) @ [CHR 0x0A]"
  "unsent e \<Longrightarrow> c \<noteq> 204 \<Longrightarrow> c \<noteq> 304 \<Longrightarrow>
     rs_body (ev_response (JSON c j e)) =
       rs_body (ev_response e) @ json_text (success_body j None) @ [CHR 0x0A]"
  "rs_body (ev_response (NoContent e)) = rs_body (ev_response e)"
  by (simp_all add: unsent_def writer_defs JSON_def Error_def NoContent_def Let_def split: option.splits)

lemma first_writers [http_rules]:
  "ev_writers (Error c a b e) = map (\<lambda>_. c) (ev_writers e)"
  "ev_writers (JSON c j e) = map (\<lambda>_. c) (ev_writers e)"
  "ev_writers (NoContent e) = map (\<lambda>_. 204) (ev_writers e)"
  by (simp_all add: writer_defs JSON_def Error_def NoContent_def Let_def)

lemma second_status [http_rules]:
  "\<not> unsent e \<Longrightarrow> final_status (ev_response (Error c a b e)) = final_status (ev_response e)"
  by (auto simp: unsent_def writer_defs Error_def Let_def)

end
