(* ===== verification/Middleware.thy ===== *)
theory Middleware
  imports Http
begin

text \<open>
  \<open>internal/middleware\<close> without the rate limiter: authentication, authorization, CORS,
  logging, metrics and recovery from panics. The request context carries the identity from
  \<open>Auth\<close> to the handlers behind it.
\<close>

subsection \<open>Authentication\<close>

text \<open>The \<open>UserReader\<close> is an operation of the world, or nil.\<close>

type_synonym user_reader = "uuid \<Rightarrow> user op"

definition unauthorized :: "string \<Rightarrow> env \<Rightarrow> outcome \<times> env" where
  "unauthorized message e = finish (Error 401 CodeUnauthorized message e)"

definition Auth :: "ext \<Rightarrow> string \<Rightarrow> string \<Rightarrow> string \<Rightarrow> user_reader option \<Rightarrow> middleware" where
  "Auth x secret issuer audience reader next r e =
     (let header = header_get r ''Authorization'' in
      if header = '''' then unauthorized ''missing authorization header'' e
      else case split_n2 CHR '' '' header of
          [scheme, tokenStr] \<Rightarrow>
            if scheme \<noteq> ''Bearer'' then unauthorized ''invalid authorization header format'' e
            else if tokenStr = '''' then unauthorized ''missing token'' e
            else (case ValidateAccessToken x (app_now (ev_world e)) tokenStr secret issuer audience of
                Inl _ \<Rightarrow> unauthorized ''invalid or expired token'' e
              | Inr claims \<Rightarrow>
                  (case reader of
                     None \<Rightarrow> next (r\<lparr>rq_context := ContextWithClaims (rq_context r) (Some claims)\<rparr>) e
                   | Some getUserByID \<Rightarrow>
                       (case uuid_parse x (cl_subject claims) of
                          None \<Rightarrow> unauthorized ''invalid or expired token'' e
                        | Some userID \<Rightarrow>
                            with_world (getUserByID userID) (\<lambda>res e. case res of
                                Inl _ \<Rightarrow> unauthorized ''invalid or expired token'' e
                              | Inr u \<Rightarrow>
                                  if us_token_version u \<noteq> cl_token_version claims
                                  then unauthorized ''invalid or expired token'' e
                                  else next (r\<lparr>rq_context :=
                                      ContextWithClaims (rq_context r) (Some claims)\<rparr>) e) e)))
        | _ \<Rightarrow> unauthorized ''invalid authorization header format'' e)"

subsection \<open>Authorization\<close>

definition RequireRole :: "string list \<Rightarrow> middleware" where
  "RequireRole roles next r e = (case IdentityFromRequest r of
     None \<Rightarrow> unauthorized ''missing authenticated identity'' e
   | Some identity \<Rightarrow>
       if \<not> HasAnyRole identity roles
       then finish (Error 403 CodeForbidden ''insufficient permissions'' e)
       else next r e)"

definition RequireOrgAccess :: "(request \<Rightarrow> string \<times> bool) \<Rightarrow> middleware" where
  "RequireOrgAccess orgIDFromRequest next r e = (case IdentityFromRequest r of
     None \<Rightarrow> unauthorized ''missing authenticated identity'' e
   | Some identity \<Rightarrow>
       (case orgIDFromRequest r of (orgID, ok) \<Rightarrow>
          if \<not> ok \<or> orgID = '''' then finish (Error 400 CodeBadRequest ''missing org id'' e)
          else if \<not> CanAccessOrg identity orgID
          then finish (Error 403 CodeForbidden ''cannot access requested org'' e)
          else next r e))"

subsection \<open>CORS\<close>

definition cors_headers :: "string \<Rightarrow> env \<Rightarrow> env" where
  "cors_headers origin e =
     header_set ''Access-Control-Max-Age'' ''86400''
       (header_set ''Access-Control-Allow-Headers'' ''Content-Type, Authorization''
         (header_set ''Access-Control-Allow-Methods'' ''GET, POST, PUT, PATCH, DELETE, OPTIONS''
           (header_set ''Access-Control-Allow-Credentials'' ''true''
             (header_set ''Access-Control-Allow-Origin'' origin e))))"

definition CORS :: "string list \<Rightarrow> middleware" where
  "CORS allowedOrigins next r e =
     (let origins = set (map trim_space allowedOrigins);
          e1 = header_add ''Vary'' ''Origin'' e;
          origin = header_get r ''Origin'';
          e2 = (if origin \<in> origins then cors_headers origin e1 else e1)
      in if rq_method r = ''OPTIONS'' then finish (write_header 204 e2) else next r e2)"

subsection \<open>Logging and metrics\<close>

text \<open>
  Both wrap the writer, run the rest, and record what the wrapper saw; a panic passes through
  them. The wrapper starts at 200.
\<close>

definition wrap_writer :: "env \<Rightarrow> env" where
  "wrap_writer e = e\<lparr>ev_writers := 200 # ev_writers e\<rparr>"

definition unwrap_writer :: "env \<Rightarrow> env" where
  "unwrap_writer e = e\<lparr>ev_writers := tl (ev_writers e)\<rparr>"

definition Logger :: middleware where
  "Logger next r e =
     (let start = app_now (ev_world e) in
      case next r (wrap_writer e) of
        (Panicked, e') \<Rightarrow> (Panicked, e')
      | (Returned, e') \<Rightarrow>
          finish (unwrap_writer e'\<lparr>ev_log := ev_log e' @
            [RequestLog (rq_method r) (rq_path r) (hd (ev_writers e'))
               ((app_now (ev_world e') - start) div 1000000) (rq_remote_addr r)]\<rparr>))"

text \<open>
  The vectors of Prometheus: a name, a help text and labels. \<open>WithLabelValues\<close> gives the
  series of the values and panics where they do not fit the labels: another number of them, or a
  value that is not taken. Text of ASCII characters is. The buckets of the histogram are the
  library's and not modelled.
\<close>

record metric_vec =
  mv_name :: string
  mv_help :: string
  mv_labels :: "string list"

definition httpRequestsTotal :: metric_vec where
  "httpRequestsTotal = \<lparr>mv_name = ''http_requests_total'', mv_help = ''Total number of HTTP requests.'',
     mv_labels = [''method'', ''path'', ''status'']\<rparr>"

definition httpRequestDuration :: metric_vec where
  "httpRequestDuration = \<lparr>mv_name = ''http_request_duration_seconds'',
     mv_help = ''HTTP request duration in seconds.'', mv_labels = [''method'', ''path'']\<rparr>"

definition WithLabelValues :: "ext \<Rightarrow> metric_vec \<Rightarrow> string list \<Rightarrow> (string \<times> string) list option" where
  "WithLabelValues x vec vals =
     (if length vals = length (mv_labels vec) \<and> list_all (label_value_ok x) vals
      then Some (zip (mv_labels vec) vals) else None)"

definition labels_documented :: "ext \<Rightarrow> bool" where
  "labels_documented x \<longleftrightarrow> (\<forall>v. is_ascii v \<longrightarrow> label_value_ok x v)"

definition Metrics :: "ext \<Rightarrow> middleware" where
  "Metrics x next r e =
     (let start = app_now (ev_world e) in
      case next r (wrap_writer e) of
        (Panicked, e') \<Rightarrow> (Panicked, e')
      | (Returned, e') \<Rightarrow>
          (let route = (if ev_route e' \<noteq> '''' then ev_route e' else rq_path r);
               elapsed = app_now (ev_world e') - start;
               status = decimal (hd (ev_writers e'))
           in case WithLabelValues x httpRequestsTotal [rq_method r, route, status] of
                None \<Rightarrow> (Panicked, e')
              | Some _ \<Rightarrow>
                  (let e'' = e'\<lparr>ev_counts := ev_counts e' @ [(rq_method r, route, hd (ev_writers e'))]\<rparr>
                   in case WithLabelValues x httpRequestDuration [rq_method r, route] of
                        None \<Rightarrow> (Panicked, e'')
                      | Some _ \<Rightarrow> finish (unwrap_writer e''\<lparr>
                          ev_durations := ev_durations e'' @ [(rq_method r, route, elapsed)]\<rparr>))))"

subsection \<open>Recovery\<close>

definition isProductionEnv :: "string \<Rightarrow> bool" where
  "isProductionEnv env = equal_fold env ''production''"

definition Recover :: "string \<Rightarrow> middleware" where
  "Recover env next r e = (case next r e of
     (Returned, e') \<Rightarrow> (Returned, e')
   | (Panicked, e') \<Rightarrow>
       finish (Error 500 ''INTERNAL_ERROR'' ''an unexpected error occurred''
         (e'\<lparr>ev_writers := ev_writers e,
             ev_log := ev_log e' @ [PanicLog (rq_method r) (rq_path r) (\<not> isProductionEnv env)]\<rparr>)))"

subsection \<open>Guards\<close>

text \<open>
  A middleware that lets a request through or answers it itself. Its clients, the routes, rely on
  one law: what lies behind runs exactly on the requests that pass, as the guard hands them on.
\<close>

locale guard =
  fixes m :: middleware
    and pass :: "request \<Rightarrow> env \<Rightarrow> (request \<times> env) option"
    and deny :: "request \<Rightarrow> env \<Rightarrow> env"
  assumes guard: "m next r e =
    (case pass r e of None \<Rightarrow> finish (deny r e) | Some (r', e') \<Rightarrow> next r' e')"
begin

lemma passes: "pass r e = Some (r', e') \<Longrightarrow> m next r e = next r' e'"
  by (simp add: guard)

lemma blocks: "pass r e = None \<Longrightarrow> m next r e = (Returned, deny r e)"
  by (simp add: guard finish_def)

lemma block_ignores_next: "pass r e = None \<Longrightarrow> m next r e = m next' r e"
  by (simp add: guard)

lemma panic_comes_from_next:
  "fst (m next r e) = Panicked \<Longrightarrow> \<exists>r' e'. pass r e = Some (r', e') \<and> fst (next r' e') = Panicked"
  by (auto simp: guard finish_def split: option.splits)

end

text \<open>A guard whose own answers are client or server errors: success proves that it let through.\<close>

locale strict_guard = guard +
  assumes deny_error: "pass r e = None \<Longrightarrow> unsent e \<Longrightarrow> 400 \<le> final_status (ev_response (deny r e))"
begin

lemma success_passed:
  assumes "unsent e" and "final_status (ev_response (snd (m next r e))) < 400"
  shows "\<exists>r' e'. pass r e = Some (r', e')"
proof (rule ccontr)
  assume "\<not> ?thesis"
  then have "pass r e = None" by (cases "pass r e") auto
  with blocks [OF this, of "next"] deny_error [OF this assms(1)] assms(2) show False by simp
qed

end

lemma guard_compose:
  assumes "guard m p d" and "guard n q c"
  shows "guard (\<lambda>next. m (n next))
    (\<lambda>r e. case p r e of None \<Rightarrow> None | Some (r', e') \<Rightarrow> q r' e')
    (\<lambda>r e. case p r e of None \<Rightarrow> d r e | Some (r', e') \<Rightarrow> c r' e')"
  using assms by (auto simp: guard_def split: option.splits prod.splits)

subsection \<open>The decisions of the guards\<close>

text \<open>
  What it takes to be authenticated: the token of a well-formed header, its claims, and where
  there is a reader, the user's current version. The result is the message or the claims.
\<close>

definition bearer_token :: "string \<Rightarrow> string + string" where
  "bearer_token header =
     (if header = '''' then Inl ''missing authorization header''
      else if \<not> has_prefix header ''Bearer '' then Inl ''invalid authorization header format''
      else if drop 7 header = '''' then Inl ''missing token''
      else Inr (drop 7 header))"

definition current_version :: "ext \<Rightarrow> user_reader option \<Rightarrow> claims \<Rightarrow> world \<Rightarrow> bool \<times> world" where
  "current_version x reader c w = (case reader of
     None \<Rightarrow> (True, w)
   | Some get \<Rightarrow>
       (case uuid_parse x (cl_subject c) of
          None \<Rightarrow> (False, w)
        | Some i \<Rightarrow> (case get i w of
             (Inl _, w') \<Rightarrow> (False, w')
           | (Inr u, w') \<Rightarrow> (us_token_version u = cl_token_version c, w'))))"

definition authenticate ::
    "ext \<Rightarrow> string \<Rightarrow> string \<Rightarrow> string \<Rightarrow> user_reader option \<Rightarrow> request \<Rightarrow> world \<Rightarrow> (string + claims) \<times> world" where
  "authenticate x secret issuer audience reader r w = (case bearer_token (header_get r ''Authorization'') of
     Inl message \<Rightarrow> (Inl message, w)
   | Inr t \<Rightarrow>
       (case ValidateAccessToken x (app_now w) t secret issuer audience of
          Inl _ \<Rightarrow> (Inl ''invalid or expired token'', w)
        | Inr c \<Rightarrow> (case current_version x reader c w of
             (True, w') \<Rightarrow> (Inr c, w')
           | (False, w') \<Rightarrow> (Inl ''invalid or expired token'', w'))))"

definition auth_pass where
  "auth_pass x secret issuer audience reader r e =
     (case authenticate x secret issuer audience reader r (ev_world e) of
        (Inl _, _) \<Rightarrow> None
      | (Inr c, w') \<Rightarrow>
          Some (r\<lparr>rq_context := ContextWithClaims (rq_context r) (Some c)\<rparr>, e\<lparr>ev_world := w'\<rparr>))"

definition auth_deny where
  "auth_deny x secret issuer audience reader r e =
     (case authenticate x secret issuer audience reader r (ev_world e) of
        (Inl message, w') \<Rightarrow> Error 401 CodeUnauthorized message (e\<lparr>ev_world := w'\<rparr>)
      | (Inr _, _) \<Rightarrow> e)"

text \<open>\<open>strings.SplitN(header, " ", 2)\<close> with first part \<open>Bearer\<close> is a test for the prefix.\<close>

lemma takeWhile_not_in: "c \<notin> set p \<Longrightarrow> takeWhile (\<lambda>d. d \<noteq> c) (p @ c # s) = p"
  and dropWhile_not_in: "c \<notin> set p \<Longrightarrow> dropWhile (\<lambda>d. d \<noteq> c) (p @ c # s) = c # s"
  by (induction p) auto

lemma split_n2_prefix:
  assumes "c \<notin> set p"
  shows "split_n2 c s = [p, t] \<longleftrightarrow> s = p @ c # t"
proof
  assume s: "split_n2 c s = [p, t]"
  have "s = takeWhile (\<lambda>d. d \<noteq> c) s @ dropWhile (\<lambda>d. d \<noteq> c) s" by simp
  moreover from s obtain d where "dropWhile (\<lambda>d. d \<noteq> c) s = d # t" "takeWhile (\<lambda>d. d \<noteq> c) s = p"
    by (auto simp: split_n2_def Let_def split: list.splits)
  moreover from this have "d = c" by (metis (mono_tags, lifting) hd_dropWhile list.sel(1) list.distinct(1))
  ultimately show "s = p @ c # t" by simp
next
  assume "s = p @ c # t"
  with assms show "split_n2 c s = [p, t]"
    by (simp add: split_n2_def takeWhile_not_in dropWhile_not_in)
qed

lemma split_n2_cases: "(\<exists>a b. split_n2 c s = [a, b]) \<or> split_n2 c s = [s]"
  by (auto simp: split_n2_def Let_def split: list.splits)

lemma bearer_prefix: "has_prefix s ''Bearer '' \<longleftrightarrow> (\<exists>t. s = ''Bearer'' @ CHR '' '' # t)"
proof
  assume "has_prefix s ''Bearer ''"
  moreover have "length ''Bearer '' = 7" by simp
  ultimately have "take 7 s = ''Bearer ''" by (metis has_prefix_def)
  then have "s = ''Bearer '' @ drop 7 s" by (metis append_take_drop_id)
  then have "s = ''Bearer'' @ CHR '' '' # drop 7 s" unfolding append_Cons append_Nil .
  then show "\<exists>t. s = ''Bearer'' @ CHR '' '' # t" ..
qed (auto simp: has_prefix_def)

lemma bearer_token_split:
  "bearer_token h =
     (if h = '''' then Inl ''missing authorization header''
      else case split_n2 CHR '' '' h of
          [scheme, t] \<Rightarrow>
            if scheme \<noteq> ''Bearer'' then Inl ''invalid authorization header format''
            else if t = '''' then Inl ''missing token'' else Inr t
        | _ \<Rightarrow> Inl ''invalid authorization header format'')"
proof (cases "has_prefix h ''Bearer ''")
  case True
  then obtain t where h: "h = ''Bearer'' @ CHR '' '' # t" using bearer_prefix by blast
  then have "split_n2 CHR '' '' h = [''Bearer'', t]" by (subst split_n2_prefix) simp_all
  with h True show ?thesis by (simp add: bearer_token_def)
next
  case False
  have "scheme \<noteq> ''Bearer''" if "split_n2 CHR '' '' h = [scheme, t]" for scheme t
    using False that split_n2_prefix [of "CHR '' ''" "''Bearer''" h t] bearer_prefix by auto
  with False split_n2_cases [of "CHR '' ''" h] show ?thesis by (auto simp: bearer_token_def)
qed

lemma update_world_self [simp]: "e\<lparr>ev_world := ev_world e\<rparr> = e"
  by simp

interpretation auth: strict_guard
  "Auth x secret issuer audience reader" "auth_pass x secret issuer audience reader"
  "auth_deny x secret issuer audience reader"
  for x secret issuer audience reader
proof
  fix "next" r e
  show "Auth x secret issuer audience reader next r e =
    (case auth_pass x secret issuer audience reader r e of
       None \<Rightarrow> finish (auth_deny x secret issuer audience reader r e) | Some (r', e') \<Rightarrow> next r' e')"
    by (auto simp: Auth_def auth_pass_def auth_deny_def authenticate_def bearer_token_split Let_def
        unauthorized_def current_version_def with_world_def split: list.splits option.splits sum.splits prod.splits)
next
  fix r e
  assume "auth_pass x secret issuer audience reader r e = None" and "unsent e"
  then show "400 \<le> final_status (ev_response (auth_deny x secret issuer audience reader r e))"
    by (auto simp: auth_pass_def auth_deny_def http_rules unsent_def split: sum.splits prod.splits)
qed

definition role_pass :: "string list \<Rightarrow> request \<Rightarrow> env \<Rightarrow> (request \<times> env) option" where
  "role_pass roles r e = (case IdentityFromRequest r of
     None \<Rightarrow> None | Some i \<Rightarrow> if Role i \<in> set roles then Some (r, e) else None)"

definition role_deny :: "request \<Rightarrow> env \<Rightarrow> env" where
  "role_deny r e =
     (if IdentityFromRequest r = None then Error 401 CodeUnauthorized ''missing authenticated identity'' e
      else Error 403 CodeForbidden ''insufficient permissions'' e)"

interpretation role: strict_guard "RequireRole roles" "role_pass roles" role_deny for roles
proof
  fix "next" r e
  show "RequireRole roles next r e =
    (case role_pass roles r e of None \<Rightarrow> finish (role_deny r e) | Some (r', e') \<Rightarrow> next r' e')"
    using IdentityFromContext_fields
    by (auto simp: RequireRole_def role_pass_def role_deny_def unauthorized_def HasAnyRole_iff
        IdentityFromRequest_def split: option.splits)
qed (simp add: role_deny_def http_rules)

definition org_pass :: "(request \<Rightarrow> string \<times> bool) \<Rightarrow> request \<Rightarrow> env \<Rightarrow> (request \<times> env) option" where
  "org_pass f r e = (case IdentityFromRequest r of
     None \<Rightarrow> None | Some i \<Rightarrow> if f r = (OrgID i, True) then Some (r, e) else None)"

definition org_deny :: "(request \<Rightarrow> string \<times> bool) \<Rightarrow> request \<Rightarrow> env \<Rightarrow> env" where
  "org_deny f r e =
     (if IdentityFromRequest r = None then Error 401 CodeUnauthorized ''missing authenticated identity'' e
      else if \<not> snd (f r) \<or> fst (f r) = '''' then Error 400 CodeBadRequest ''missing org id'' e
      else Error 403 CodeForbidden ''cannot access requested org'' e)"

interpretation org_access: strict_guard "RequireOrgAccess f" "org_pass f" "org_deny f" for f
proof
  fix "next" r e
  show "RequireOrgAccess f next r e =
    (case org_pass f r e of None \<Rightarrow> finish (org_deny f r e) | Some (r', e') \<Rightarrow> next r' e')"
    using IdentityFromContext_fields
    by (auto simp: RequireOrgAccess_def org_pass_def org_deny_def unauthorized_def CanAccessOrg_def
        IdentityFromRequest_def split: option.splits prod.splits)
qed (simp add: org_deny_def http_rules)

text \<open>CORS answers preflight requests itself.\<close>

definition cors_env :: "string list \<Rightarrow> request \<Rightarrow> env \<Rightarrow> env" where
  "cors_env allowed r e =
     (let e1 = header_add ''Vary'' ''Origin'' e
      in if header_get r ''Origin'' \<in> trim_space ` set allowed
         then cors_headers (header_get r ''Origin'') e1 else e1)"

interpretation cors: guard "CORS allowed"
  "\<lambda>r e. if rq_method r = ''OPTIONS'' then None else Some (r, cors_env allowed r e)"
  "\<lambda>r e. write_header 204 (cors_env allowed r e)" for allowed
  by unfold_locales (simp add: CORS_def cors_env_def Let_def)

subsection \<open>Handlers that answer once\<close>

text \<open>
  \<open>consistent\<close>: every wrapper around the writer has recorded the status the client gets.
  A handler \<open>responds\<close> if from an unsent and consistent response it leaves a consistent one,
  unwinds its wrappers and writes no log line or metric. The rules follow the structure of the
  handlers.
\<close>

definition consistent :: "env \<Rightarrow> bool" where
  "consistent e \<longleftrightarrow> (\<forall>c \<in> set (ev_writers e). c = final_status (ev_response e))"

definition same_records :: "env \<Rightarrow> env \<Rightarrow> bool" where
  "same_records e e' \<longleftrightarrow> length (ev_writers e') = length (ev_writers e) \<and> ev_log e' = ev_log e
     \<and> ev_counts e' = ev_counts e \<and> ev_durations e' = ev_durations e"

definition responds :: "(env \<Rightarrow> outcome \<times> env) \<Rightarrow> bool" where
  "responds k \<longleftrightarrow> (\<forall>e. unsent e \<longrightarrow> consistent e \<longrightarrow>
     consistent (snd (k e)) \<and> same_records e (snd (k e)))"

lemma env_frame [simp]:
  "unsent (e\<lparr>ev_world := w\<rparr>) = unsent e" "consistent (e\<lparr>ev_world := w\<rparr>) = consistent e"
  "unsent (e\<lparr>ev_route := p\<rparr>) = unsent e" "consistent (e\<lparr>ev_route := p\<rparr>) = consistent e"
  by (simp_all add: unsent_def consistent_def)

lemma unsent_header [simp]:
  "unsent (header_set k v e) = unsent e" "unsent (header_add k v e) = unsent e"
  "consistent (header_set k v e) = consistent e" "consistent (header_add k v e) = consistent e"
  by (simp_all add: unsent_def consistent_def writer_defs Let_def)

lemma responds_Error: "responds (\<lambda>e. finish (Error c a b e))"
  and responds_JSON: "responds (\<lambda>e. finish (JSON c j e))"
  and responds_NoContent: "responds (\<lambda>e. finish (NoContent e))"
  and responds_panic: "responds (\<lambda>e. (Panicked, e))"
  by (simp_all add: responds_def finish_def consistent_def same_records_def http_rules)

lemma responds_with_world: "(\<And>res. responds (k res)) \<Longrightarrow> responds (with_world m k)"
  by (auto simp: responds_def with_world_def same_records_def split: prod.splits)

lemma responds_if: "responds k \<Longrightarrow> responds l \<Longrightarrow> responds (\<lambda>e. if b then k e else l e)"
  by (cases b) simp_all

lemma responds_sum:
  "(\<And>a. responds (f a)) \<Longrightarrow> (\<And>a. responds (g a)) \<Longrightarrow>
    responds (\<lambda>e. case s of Inl a \<Rightarrow> f a e | Inr a \<Rightarrow> g a e)"
  by (cases s) simp_all

lemma responds_option:
  "responds n \<Longrightarrow> (\<And>a. responds (j a)) \<Longrightarrow>
    responds (\<lambda>e. case p of None \<Rightarrow> n e | Some a \<Rightarrow> j a e)"
  by (cases p) simp_all

lemmas responds_intros =
  responds_Error responds_JSON responds_NoContent responds_panic responds_with_world responds_if
  responds_sum responds_option

text \<open>The log line and the metric of a handler that responds have the client's status.\<close>

lemma wrap_ok: "unsent e \<Longrightarrow> consistent e \<Longrightarrow> unsent (wrap_writer e) \<and> consistent (wrap_writer e)"
  by (simp add: wrap_writer_def unsent_def consistent_def final_status_def)

lemma wrap_writer_simps [simp]:
  "ev_world (wrap_writer e) = ev_world e" "ev_log (wrap_writer e) = ev_log e"
  "ev_counts (wrap_writer e) = ev_counts e" "ev_durations (wrap_writer e) = ev_durations e"
  "ev_response (wrap_writer e) = ev_response e" "ev_route (wrap_writer e) = ev_route e"
  "ev_writers (wrap_writer e) = 200 # ev_writers e"
  by (simp_all add: wrap_writer_def)

lemma Logger_result:
  assumes "responds (nx r)" and "unsent e" and "consistent e" and "fst (nx r (wrap_writer e)) = Returned"
  shows "\<exists>e' ms. Logger nx r e = (Returned, e') \<and> consistent e' \<and> length (ev_writers e') = length (ev_writers e)
    \<and> ev_log e' = ev_log e @ [RequestLog (rq_method r) (rq_path r) (final_status (ev_response e')) ms (rq_remote_addr r)]
    \<and> ev_counts e' = ev_counts e \<and> ev_durations e' = ev_durations e
    \<and> ev_response e' = ev_response (snd (nx r (wrap_writer e)))
    \<and> ev_world e' = ev_world (snd (nx r (wrap_writer e)))
    \<and> ev_route e' = ev_route (snd (nx r (wrap_writer e)))"
proof -
  obtain e1 where run: "nx r (wrap_writer e) = (Returned, e1)" using assms(4) by (metis prod.collapse)
  with assms(1) wrap_ok [OF assms(2,3)] have ok: "consistent e1" "same_records (wrap_writer e) e1"
    by (auto simp: responds_def)
  then obtain c cs where w: "ev_writers e1 = c # cs" "length cs = length (ev_writers e)"
    by (cases "ev_writers e1") (auto simp: same_records_def)
  with ok show ?thesis
    by (simp add: Logger_def run finish_def unwrap_writer_def consistent_def same_records_def)
qed

definition metric_route :: "request \<Rightarrow> env \<Rightarrow> string" where
  "metric_route r e = (if ev_route e \<noteq> '''' then ev_route e else rq_path r)"

lemma Metrics_result:
  assumes "unsent e" and "consistent e"
    and run: "nx r (wrap_writer e) = (Returned, e1)" and "consistent e1"
    and "length (ev_writers e1) = Suc (length (ev_writers e))"
    and "label_value_ok x (rq_method r)" and "label_value_ok x (metric_route r e1)"
    and "label_value_ok x (decimal (final_status (ev_response e1)))"
  shows "\<exists>e' d. Metrics x nx r e = (Returned, e') \<and> consistent e' \<and> length (ev_writers e') = length (ev_writers e)
    \<and> ev_counts e' = ev_counts e1 @ [(rq_method r, metric_route r e1, final_status (ev_response e'))]
    \<and> ev_log e' = ev_log e1 \<and> ev_response e' = ev_response e1 \<and> ev_world e' = ev_world e1
    \<and> ev_route e' = ev_route e1"
proof -
  obtain c cs where w: "ev_writers e1 = c # cs" "length cs = length (ev_writers e)"
    using assms(5) by (cases "ev_writers e1") auto
  then show ?thesis
    using assms(4,6-8)
    by (simp add: Metrics_def run finish_def unwrap_writer_def consistent_def metric_route_def Let_def
        WithLabelValues_def httpRequestsTotal_def httpRequestDuration_def)
qed

lemma Metrics_panics:
  assumes "nx r (wrap_writer e) = (Returned, e1)"
    and "\<not> label_value_ok x (rq_method r) \<or> \<not> label_value_ok x (metric_route r e1)"
  shows "Metrics x nx r e = (Panicked, e1)"
  using assms by (auto simp: Metrics_def metric_route_def WithLabelValues_def Let_def)

text \<open>In any case it changes neither what the rest answers nor the world.\<close>

lemma Metrics_frame:
  "ev_world (snd (Metrics x nx r e)) = ev_world (snd (nx r (wrap_writer e)))"
  "ev_response (snd (Metrics x nx r e)) = ev_response (snd (nx r (wrap_writer e)))"
  by (auto simp: Metrics_def unwrap_writer_def finish_def Let_def split: prod.splits outcome.splits option.splits)

lemma decimal_ascii: "is_ascii (decimal n)"
proof (induction n rule: decimal.induct)
  case (1 n)
  have "of_char (char_of (48 + k) :: char) < (128 :: nat)" if "k < 10" for k :: nat using that by simp
  moreover have "n mod 10 < 10" by simp
  then have "n mod 10 < 80" by linarith
  ultimately show ?case using 1 by (subst decimal.simps) (simp add: is_ascii_def)
qed

end
