(* ===== verification/Handlers.thy ===== *)
theory Handlers
  imports Middleware ServiceInv
begin

text \<open>
  \<open>internal/auth/handler.go\<close>: the HTTP handlers over the interface \<open>Servicer\<close>, with
  strict decoding of the body. A body is cut off by \<open>http.MaxBytesReader\<close> after a mebibyte,
  where decoding fails; a nil body makes the reader panic.
\<close>

subsection \<open>Requests\<close>

text \<open>The request structs are structs of strings: their JSON names, in the order of the fields.\<close>

definition registerRequest :: "string list" where
  "registerRequest = [''email'', ''password'', ''full_name'']"

definition loginRequest :: "string list" where
  "loginRequest = [''email'', ''password'', ''org_id'']"

definition refreshRequest :: "string list" where
  "refreshRequest = [''refresh_token'']"

definition logoutRequest :: "string list" where
  "logoutRequest = [''refresh_token'']"

definition changePasswordRequest :: "string list" where
  "changePasswordRequest = [''current_password'', ''new_password'']"

lemmas request_structs =
  registerRequest_def loginRequest_def refreshRequest_def logoutRequest_def changePasswordRequest_def

declare request_structs [simp]

subsection \<open>Decoding\<close>

definition max_bytes :: nat where
  "max_bytes = 1048576"

datatype decoded = DecodePanic | DecodeError | Decoded "string \<Rightarrow> string"

text \<open>
  \<open>decodeJSONStrict\<close>: one value and then the end of the body. The second \<open>Decode\<close> sees the
  end only if the whole body could be read.
\<close>

definition decodeJSONStrict :: "string list \<Rightarrow> body option \<Rightarrow> decoded" where
  "decodeJSONStrict names b = (case b of
     None \<Rightarrow> DecodePanic
   | Some b \<Rightarrow>
       if bd_fails b \<or> length (bd_bytes b) > max_bytes then DecodeError
       else (case decode_struct True names (bd_bytes b) of
           None \<Rightarrow> DecodeError | Some f \<Rightarrow> Decoded f))"

definition with_body ::
    "string list \<Rightarrow> ((string \<Rightarrow> string) \<Rightarrow> env \<Rightarrow> outcome \<times> env) \<Rightarrow> handler" where
  "with_body names k r e = (case decodeJSONStrict names (rq_body r) of
     DecodePanic \<Rightarrow> (Panicked, e)
   | DecodeError \<Rightarrow> finish (Error 400 CodeBadRequest ''invalid request body'' e)
   | Decoded f \<Rightarrow> k f e)"

subsection \<open>The interface\<close>

record servicer =
  sv_Register :: "string \<Rightarrow> string \<Rightarrow> string \<Rightarrow> auth_response op"
  sv_Login :: "string \<Rightarrow> string \<Rightarrow> string \<Rightarrow> auth_response op"
  sv_Refresh :: "string \<Rightarrow> refresh_response op"
  sv_Logout :: "string \<Rightarrow> unit op"
  sv_Me :: "string \<Rightarrow> string \<Rightarrow> me_response op"
  sv_ForgotPassword :: "string \<Rightarrow> unit op"
  sv_ResetPassword :: "string \<Rightarrow> string \<Rightarrow> unit op"
  sv_ChangePassword :: "string \<Rightarrow> string \<Rightarrow> string \<Rightarrow> unit op"

text \<open>The service as a \<open>Servicer\<close>.\<close>

definition service_servicer :: "ext \<Rightarrow> service \<Rightarrow> servicer" where
  "service_servicer x s =
     \<lparr>sv_Register = Register x s, sv_Login = Login x s, sv_Refresh = Refresh x s,
      sv_Logout = Logout x, sv_Me = Me x, sv_ForgotPassword = ForgotPassword x s,
      sv_ResetPassword = ResetPassword x, sv_ChangePassword = ChangePassword x\<rparr>"

subsection \<open>The responses as JSON\<close>

definition user_info_json :: "user_info \<Rightarrow> json" where
  "user_info_json u = JObj [(''id'', JStr (ui_id u)), (''email'', JStr (ui_email u)),
     (''full_name'', JStr (ui_full_name u))]"

definition auth_response_json :: "auth_response \<Rightarrow> json" where
  "auth_response_json a = JObj [(''access_token'', JStr (ar_access_token a)),
     (''refresh_token'', JStr (ar_refresh_token a)), (''user'', user_info_json (ar_user a)),
     (''expires_in'', JNum (int_text (ar_expires_in a)))]"

definition refresh_response_json :: "refresh_response \<Rightarrow> json" where
  "refresh_response_json a = JObj [(''access_token'', JStr (rr_access_token a)),
     (''refresh_token'', JStr (rr_refresh_token a)), (''expires_in'', JNum (int_text (rr_expires_in a)))]"

definition me_response_json :: "me_response \<Rightarrow> json" where
  "me_response_json m = JObj [(''id'', JStr (me_id m)), (''email'', JStr (me_email m)),
     (''full_name'', JStr (me_full_name m)), (''org_id'', JStr (me_org_id m)),
     (''org_name'', JStr (me_org_name m)), (''role'', JStr (me_role m))]"

subsection \<open>Public endpoints\<close>

definition bad_request :: "string \<Rightarrow> env \<Rightarrow> outcome \<times> env" where
  "bad_request message e = finish (Error 400 CodeBadRequest message e)"

definition internal_error :: "string \<Rightarrow> env \<Rightarrow> outcome \<times> env" where
  "internal_error message e = finish (Error 500 CodeInternalError message e)"

definition handle_Register :: "ext \<Rightarrow> servicer \<Rightarrow> handler" where
  "handle_Register x sv r e = with_body registerRequest (\<lambda>req e.
     if req ''email'' = '''' \<or> req ''password'' = '''' \<or> req ''full_name'' = ''''
     then bad_request ''email, password, and full_name are required'' e
     else case normalizeEmail x (req ''email'') of
         Inl _ \<Rightarrow> bad_request ''invalid email address'' e
       | Inr email \<Rightarrow>
           with_world (sv_Register sv email (req ''password'') (req ''full_name'')) (\<lambda>res e.
             case res of
               Inl err \<Rightarrow>
                 if errors_is err ErrInvalidEmail then bad_request ''invalid email address'' e
                 else if errors_is err ErrWeakPassword
                   then bad_request ''password does not meet complexity requirements'' e
                 else if errors_is err ErrEmailExists
                   then finish (Error 409 CodeConflict ''email already registered'' e)
                 else internal_error ''registration failed'' e
             | Inr a \<Rightarrow> finish (JSON 201 (auth_response_json a) e)) e) r e"

definition handle_Login :: "ext \<Rightarrow> servicer \<Rightarrow> handler" where
  "handle_Login x sv r e = with_body loginRequest (\<lambda>req e.
     if req ''email'' = '''' \<or> req ''password'' = ''''
     then bad_request ''email and password are required'' e
     else case normalizeEmail x (req ''email'') of
         Inl _ \<Rightarrow> bad_request ''invalid email address'' e
       | Inr email \<Rightarrow>
           with_world (sv_Login sv email (req ''password'') (req ''org_id'')) (\<lambda>res e.
             case res of
               Inl err \<Rightarrow>
                 if errors_is err ErrOrgSelectionRequired
                   then bad_request ''org_id is required for multi-org users'' e
                 else if errors_is err ErrInvalidOrgSelection then bad_request ''invalid org_id'' e
                 else if errors_is err ErrInvalidCredentials
                   then finish (Error 401 CodeUnauthorized ''invalid credentials'' e)
                 else internal_error ''login failed'' e
             | Inr a \<Rightarrow> finish (JSON 200 (auth_response_json a) e)) e) r e"

definition handle_Refresh :: "servicer \<Rightarrow> handler" where
  "handle_Refresh sv r e = with_body refreshRequest (\<lambda>req e.
     if req ''refresh_token'' = '''' then bad_request ''refresh_token is required'' e
     else with_world (sv_Refresh sv (req ''refresh_token'')) (\<lambda>res e.
       case res of
         Inl err \<Rightarrow>
           if errors_is err ErrInvalidToken
           then finish (Error 401 CodeUnauthorized ''invalid or expired token'' e)
           else internal_error ''token refresh failed'' e
       | Inr a \<Rightarrow> finish (JSON 200 (refresh_response_json a) e)) e) r e"

definition handle_Logout :: "servicer \<Rightarrow> handler" where
  "handle_Logout sv r e = with_body logoutRequest (\<lambda>req e.
     if req ''refresh_token'' = '''' then bad_request ''refresh_token is required'' e
     else with_world (sv_Logout sv (req ''refresh_token'')) (\<lambda>_ e. finish (NoContent e)) e) r e"

definition forgot_message :: json where
  "forgot_message =
     JObj [(''message'', JStr ''if that email is registered, a reset link has been sent'')]"

definition handle_ForgotPassword :: "ext \<Rightarrow> servicer \<Rightarrow> handler" where
  "handle_ForgotPassword x sv r e = (case decodeJSONStrict [''email''] (rq_body r) of
     DecodePanic \<Rightarrow> (Panicked, e)
   | d \<Rightarrow>
       (let email = (case d of Decoded f \<Rightarrow> f ''email'' | _ \<Rightarrow> '''');
            email' = (if email = '''' then ''''
                      else case normalizeEmail x email of Inr n \<Rightarrow> n | Inl _ \<Rightarrow> '''')
        in with_world (sv_ForgotPassword sv email') (\<lambda>_ e. finish (JSON 200 forgot_message e)) e))"

definition handle_ResetPassword :: "servicer \<Rightarrow> handler" where
  "handle_ResetPassword sv r e = with_body [''token'', ''password''] (\<lambda>req e.
     if req ''token'' = '''' \<or> req ''password'' = ''''
     then bad_request ''token and password are required'' e
     else with_world (sv_ResetPassword sv (req ''token'') (req ''password'')) (\<lambda>res e.
       case res of
         Inl err \<Rightarrow>
           if errors_is err ErrWeakPassword
             then bad_request ''password does not meet complexity requirements'' e
           else if errors_is err ErrInvalidToken
             then finish (Error 401 CodeUnauthorized ''invalid or expired reset token'' e)
           else internal_error ''password reset failed'' e
       | Inr _ \<Rightarrow> finish (NoContent e)) e) r e"

subsection \<open>Protected endpoints\<close>

definition handle_Me :: "servicer \<Rightarrow> handler" where
  "handle_Me sv r e = (case IdentityFromRequest r of
     None \<Rightarrow> unauthorized ''missing auth context'' e
   | Some identity \<Rightarrow>
       with_world (sv_Me sv (UserID identity) (OrgID identity)) (\<lambda>res e.
         case res of
           Inl _ \<Rightarrow> internal_error ''failed to fetch user'' e
         | Inr m \<Rightarrow> finish (JSON 200 (me_response_json m) e)) e)"

definition handle_ChangePassword :: "servicer \<Rightarrow> handler" where
  "handle_ChangePassword sv r e = (case IdentityFromRequest r of
     None \<Rightarrow> unauthorized ''missing auth context'' e
   | Some identity \<Rightarrow> with_body changePasswordRequest (\<lambda>req e.
       if req ''current_password'' = '''' \<or> req ''new_password'' = ''''
       then bad_request ''current_password and new_password are required'' e
       else with_world (sv_ChangePassword sv (UserID identity) (req ''current_password'')
                          (req ''new_password'')) (\<lambda>res e.
         case res of
           Inl err \<Rightarrow>
             if errors_is err ErrWrongPassword
               then finish (Error 401 CodeUnauthorized ''current password is incorrect'' e)
             else if errors_is err ErrWeakPassword
               then bad_request ''password does not meet complexity requirements'' e
             else internal_error ''failed to update password'' e
         | Inr _ \<Rightarrow> finish (NoContent e)) e) r e)"

subsection \<open>Every handler answers once\<close>

lemma responds_unauthorized: "responds (unauthorized message)"
  and responds_bad_request: "responds (bad_request message)"
  and responds_internal_error: "responds (internal_error message)"
  by (simp_all add: unauthorized_def [abs_def] bad_request_def [abs_def] internal_error_def [abs_def]
      responds_Error)

lemma responds_with_body:
  assumes "\<And>f. responds (k f)"
  shows "responds (with_body names k r)"
  unfolding with_body_def
  by (cases "decodeJSONStrict names (rq_body r)") (simp_all add: assms responds_Error responds_panic)

lemmas responds_handler =
  responds_intros responds_unauthorized responds_bad_request responds_internal_error responds_with_body

lemma handlers_respond:
  "responds (handle_Register x sv r)" "responds (handle_Login x sv r)" "responds (handle_Refresh sv r)"
  "responds (handle_Logout sv r)" "responds (handle_ResetPassword sv r)" "responds (handle_Me sv r)"
  "responds (handle_ChangePassword sv r)"
  unfolding handle_Register_def handle_Login_def handle_Refresh_def handle_Logout_def
    handle_ResetPassword_def handle_Me_def handle_ChangePassword_def
  by (intro responds_handler)+

lemma forgot_responds: "responds (handle_ForgotPassword x sv r)"
  unfolding handle_ForgotPassword_def Let_def
  by (cases "decodeJSONStrict [''email''] (rq_body r)") (simp_all add: responds_with_world responds_JSON responds_panic)

text \<open>With a body to read, no handler panics.\<close>

definition returns :: "(env \<Rightarrow> outcome \<times> env) \<Rightarrow> bool" where
  "returns k \<longleftrightarrow> (\<forall>e. fst (k e) = Returned)"

lemma returns_finish: "returns (\<lambda>e. finish (f e))"
  by (simp add: returns_def finish_def)

lemma returns_with_world: "(\<And>res. returns (k res)) \<Longrightarrow> returns (with_world m k)"
  by (auto simp: returns_def with_world_def split: prod.splits)

lemma returns_if: "returns k \<Longrightarrow> returns l \<Longrightarrow> returns (\<lambda>e. if b then k e else l e)"
  by (cases b) simp_all

lemma returns_sum:
  "(\<And>a. returns (f a)) \<Longrightarrow> (\<And>a. returns (g a)) \<Longrightarrow>
    returns (\<lambda>e. case s of Inl a \<Rightarrow> f a e | Inr a \<Rightarrow> g a e)"
  by (cases s) simp_all

lemma returns_option:
  "returns n \<Longrightarrow> (\<And>a. returns (j a)) \<Longrightarrow> returns (\<lambda>e. case p of None \<Rightarrow> n e | Some a \<Rightarrow> j a e)"
  by (cases p) simp_all

lemma returns_answers:
  "returns (unauthorized message)" "returns (bad_request message)" "returns (internal_error message)"
  by (simp_all add: returns_def unauthorized_def bad_request_def internal_error_def finish_def)

lemma decode_returns: "rq_body r \<noteq> None \<Longrightarrow> decodeJSONStrict names (rq_body r) \<noteq> DecodePanic"
  by (auto simp: decodeJSONStrict_def split: option.splits)

lemma returns_with_body:
  assumes "rq_body r \<noteq> None" and "\<And>f. returns (k f)"
  shows "returns (with_body names k r)"
  unfolding with_body_def using decode_returns [OF assms(1), of names]
  by (cases "decodeJSONStrict names (rq_body r)") (simp_all add: assms(2) returns_finish)

lemmas returns_intros = returns_finish returns_with_world returns_if returns_sum returns_option
  returns_answers returns_with_body

lemma handlers_return:
  assumes "rq_body r \<noteq> None"
  shows "returns (handle_Register x sv r)" "returns (handle_Login x sv r)" "returns (handle_Refresh sv r)"
    "returns (handle_Logout sv r)" "returns (handle_ResetPassword sv r)" "returns (handle_Me sv r)"
    "returns (handle_ChangePassword sv r)"
  unfolding handle_Register_def handle_Login_def handle_Refresh_def handle_Logout_def
    handle_ResetPassword_def handle_Me_def handle_ChangePassword_def
  by (intro returns_intros assms)+

lemma forgot_returns: "rq_body r \<noteq> None \<Longrightarrow> returns (handle_ForgotPassword x sv r)"
  using decode_returns [of r "[''email'']"]
  unfolding handle_ForgotPassword_def Let_def
  by (cases "decodeJSONStrict [''email''] (rq_body r)")
     (simp_all add: returns_with_world returns_finish)

subsection \<open>The contract of a Servicer\<close>

text \<open>
  What the handlers rely on: the operations keep an invariant of the world. Then so do the
  handlers, whatever the request.
\<close>

locale servicer_contract =
  fixes I :: "world \<Rightarrow> bool" and sv :: servicer
  assumes register: "preserves I (sv_Register sv a b c)"
    and login: "preserves I (sv_Login sv a b c)"
    and refresh: "preserves I (sv_Refresh sv a)"
    and logout: "preserves I (sv_Logout sv a)"
    and me: "preserves I (sv_Me sv a b)"
    and forgot: "preserves I (sv_ForgotPassword sv a)"
    and reset: "preserves I (sv_ResetPassword sv a b)"
    and change: "preserves I (sv_ChangePassword sv a b c)"
begin

definition keeps :: "(env \<Rightarrow> outcome \<times> env) \<Rightarrow> bool" where
  "keeps k \<longleftrightarrow> (\<forall>e. I (ev_world e) \<longrightarrow> I (ev_world (snd (k e))))"

lemma keeps_answers:
  "keeps (\<lambda>e. finish (Error c a b e))" "keeps (\<lambda>e. finish (JSON c j e))"
  "keeps (\<lambda>e. finish (NoContent e))" "keeps (\<lambda>e. (Panicked, e))" "keeps (unauthorized m)"
  "keeps (bad_request m)" "keeps (internal_error m)"
  by (simp_all add: keeps_def finish_def unauthorized_def bad_request_def internal_error_def)

lemma keeps_with_world: "preserves I m \<Longrightarrow> (\<And>res. keeps (k res)) \<Longrightarrow> keeps (with_world m k)"
  by (auto simp: keeps_def with_world_def preserves_def split: prod.splits)

lemma keeps_if: "keeps k \<Longrightarrow> keeps l \<Longrightarrow> keeps (\<lambda>e. if b then k e else l e)"
  by (cases b) simp_all

lemma keeps_sum:
  "(\<And>a. keeps (f a)) \<Longrightarrow> (\<And>a. keeps (g a)) \<Longrightarrow>
    keeps (\<lambda>e. case s of Inl a \<Rightarrow> f a e | Inr a \<Rightarrow> g a e)"
  by (cases s) simp_all

lemma keeps_option:
  "keeps n \<Longrightarrow> (\<And>a. keeps (j a)) \<Longrightarrow> keeps (\<lambda>e. case p of None \<Rightarrow> n e | Some a \<Rightarrow> j a e)"
  by (cases p) simp_all

lemma keeps_with_body: "(\<And>f. keeps (k f)) \<Longrightarrow> keeps (with_body names k r)"
  unfolding with_body_def
  by (cases "decodeJSONStrict names (rq_body r)") (simp_all add: keeps_answers)

lemmas keeps_intros = keeps_answers keeps_with_world keeps_if keeps_sum keeps_option keeps_with_body

lemma handlers_keep:
  "keeps (handle_Register x sv r)" "keeps (handle_Login x sv r)" "keeps (handle_Refresh sv r)"
  "keeps (handle_Logout sv r)" "keeps (handle_ResetPassword sv r)" "keeps (handle_Me sv r)"
  "keeps (handle_ChangePassword sv r)"
  unfolding handle_Register_def handle_Login_def handle_Refresh_def handle_Logout_def
    handle_ResetPassword_def handle_Me_def handle_ChangePassword_def
  by (intro keeps_intros register login refresh logout reset me change)+

lemma forgot_keeps: "keeps (handle_ForgotPassword x sv r)"
  unfolding handle_ForgotPassword_def Let_def
  by (cases "decodeJSONStrict [''email''] (rq_body r)") (simp_all add: keeps_with_world forgot keeps_answers)

end

interpretation integrity: servicer_contract "on_db (db_ok x)" "service_servicer x s" for x s
  by unfold_locales (simp_all add: service_servicer_def service_preserves)

end
