(* ===== verification/RateLimit.thy ===== *)
theory RateLimit
  imports Middleware Security
begin

text \<open>
  \<open>internal/middleware/ratelimit.go\<close>: which requests are counted under which key, and the
  decision on the count the Redis script returns. A request without an address to count under
  passes.
\<close>

datatype rate_limit_scope = RateLimitScopeIP | RateLimitScopeAuthEmailIP

record rate_limit_policy =
  pl_name :: string
  pl_limit :: int
  pl_window :: duration
  pl_scope :: rate_limit_scope

text \<open>A network of the configuration may be nil.\<close>

record client_ip_options =
  TrustProxyHeaders :: bool
  TrustedProxies :: "ipnet option list"

definition shouldSkipRateLimit :: "string \<Rightarrow> bool" where
  "shouldSkipRateLimit path \<longleftrightarrow> path \<in> {''/healthz'', ''/readyz'', ''/metrics''}"

definition rate_policy :: "string \<Rightarrow> int \<Rightarrow> duration \<Rightarrow> rate_limit_scope \<Rightarrow> rate_limit_policy" where
  "rate_policy name limit window scope =
     \<lparr>pl_name = name, pl_limit = limit, pl_window = window, pl_scope = scope\<rparr>"

definition policyForRequest :: "request \<Rightarrow> rate_limit_policy" where
  "policyForRequest r =
     (let p = rq_path r in
      if p = ''/api/v1/auth/login'' then rate_policy ''auth-login'' 10 minute RateLimitScopeAuthEmailIP
      else if p = ''/api/v1/auth/forgot-password''
        then rate_policy ''auth-forgot-password'' 5 (15 * minute) RateLimitScopeAuthEmailIP
      else if p = ''/api/v1/auth/reset-password''
        then rate_policy ''auth-reset-password'' 10 (15 * minute) RateLimitScopeIP
      else if p = ''/api/v1/auth/refresh'' then rate_policy ''auth-refresh'' 20 minute RateLimitScopeIP
      else if p = ''/api/v1/auth/register''
        then rate_policy ''auth-register'' 10 (15 * minute) RateLimitScopeAuthEmailIP
      else rate_policy ''default'' 100 minute RateLimitScopeIP)"

subsection \<open>The client's address\<close>

definition isTrustedProxy :: "ip \<Rightarrow> ipnet option list \<Rightarrow> bool" where
  "isTrustedProxy a trusted \<longleftrightarrow>
     list_ex (\<lambda>n. case n of None \<Rightarrow> False | Some network \<Rightarrow> contains network a) trusted"

fun first_ip :: "string list \<Rightarrow> string" where
  "first_ip [] = ''''"
| "first_ip (part # parts) =
     (let candidate = trim_space part in
      if candidate = '''' then first_ip parts
      else if parse_ip candidate \<noteq> None then candidate
      else first_ip parts)"

definition firstForwardedIP :: "string \<Rightarrow> string" where
  "firstForwardedIP xff = (if xff = '''' then '''' else first_ip (split_on CHR '','' xff))"

definition clientIP :: "request \<Rightarrow> client_ip_options \<Rightarrow> string" where
  "clientIP r opts =
     (let host = (case split_host_port (rq_remote_addr r) of Some h \<Rightarrow> h | None \<Rightarrow> rq_remote_addr r) in
      case parse_ip host of
        None \<Rightarrow> host
      | Some a \<Rightarrow>
          if TrustProxyHeaders opts \<and> isTrustedProxy a (TrustedProxies opts)
          then (let forwarded = firstForwardedIP (header_get r ''X-Forwarded-For'');
                    realIP = trim_space (header_get r ''X-Real-Ip'')
                in if forwarded \<noteq> '''' then forwarded
                   else if realIP \<noteq> '''' \<and> parse_ip realIP \<noteq> None then realIP
                   else host)
          else host)"

subsection \<open>The e-mail of the body\<close>

definition max_body :: nat where
  "max_body = 1048576"

definition normalizeRateLimitEmail :: "ext \<Rightarrow> string \<Rightarrow> string" where
  "normalizeRateLimitEmail x email = trim_space (to_lower (unicode x) email)"

text \<open>
  The body is read up to a mebibyte and put back, cut there; after a failed read it is empty.
  The result is the e-mail and the request as the handlers behind get it.
\<close>

definition requestEmail :: "ext \<Rightarrow> request \<Rightarrow> string \<times> request" where
  "requestEmail x r = (case rq_body r of
     None \<Rightarrow> ('''', r)
   | Some b \<Rightarrow>
       if bd_fails b \<and> length (bd_bytes b) < max_body
       then ('''', r\<lparr>rq_body := Some \<lparr>bd_bytes = '''', bd_fails = False\<rparr>\<rparr>)
       else (let bytes = take max_body (bd_bytes b);
                 r' = r\<lparr>rq_body := Some \<lparr>bd_bytes = bytes, bd_fails = False\<rparr>\<rparr>
             in case decode_struct False [''email''] bytes of
                  None \<Rightarrow> ('''', r')
                | Some f \<Rightarrow> (normalizeRateLimitEmail x (f ''email''), r')))"

definition rateLimitKey ::
    "ext \<Rightarrow> request \<Rightarrow> client_ip_options \<Rightarrow> rate_limit_policy \<Rightarrow> string option \<times> request" where
  "rateLimitKey x r opts policy =
     (let addr = clientIP r opts;
          ip_key = ''ratelimit:'' @ pl_name policy @ '':ip:'' @ addr
      in if addr = '''' then (None, r)
         else case pl_scope policy of
             RateLimitScopeAuthEmailIP \<Rightarrow>
               (case requestEmail x r of (email, r') \<Rightarrow>
                  (Some (if email = '''' then ip_key else ip_key @ '':email:'' @ email), r'))
           | RateLimitScopeIP \<Rightarrow> (Some ip_key, r))"

subsection \<open>The decision\<close>

definition milliseconds :: "duration \<Rightarrow> duration" where
  "milliseconds d = d div 1000000 * 1000000"

text \<open>\<open>rdb\<close> says whether there is a Redis client.\<close>

definition RateLimit :: "ext \<Rightarrow> bool \<Rightarrow> client_ip_options \<Rightarrow> middleware" where
  "RateLimit x rdb opts next r e =
     (if shouldSkipRateLimit (rq_path r) \<or> \<not> rdb then next r e
      else let policy = policyForRequest r in
        case rateLimitKey x r opts policy of
          (None, r') \<Rightarrow> next r' e
        | (Some key, r') \<Rightarrow>
            with_world (redis_call (rateLimitScript key (milliseconds (pl_window policy))))
              (\<lambda>res e. case res of
                 Inl _ \<Rightarrow> finish (Error 503 CodeInternalError ''rate limiter unavailable'' e)
               | Inr count \<Rightarrow>
                   if count > pl_limit policy
                   then finish (Error 429 CodeRateLimited ''too many requests'' e)
                   else next r' e) e)"

subsection \<open>The limiter as a guard\<close>

datatype verdict = Admit | Reject | Unavailable

definition rate_check :: "string \<Rightarrow> rate_limit_policy \<Rightarrow> world \<Rightarrow> verdict \<times> world" where
  "rate_check key policy w =
     (case redis_call (rateLimitScript key (milliseconds (pl_window policy))) w of
        (Inl _, w') \<Rightarrow> (Unavailable, w')
      | (Inr count, w') \<Rightarrow> (if count > pl_limit policy then Reject else Admit, w'))"

definition counted :: "ext \<Rightarrow> bool \<Rightarrow> client_ip_options \<Rightarrow> request \<Rightarrow> string option \<times> request" where
  "counted x rdb opts r =
     (if shouldSkipRateLimit (rq_path r) \<or> \<not> rdb then (None, r)
      else rateLimitKey x r opts (policyForRequest r))"

definition rate_pass :: "ext \<Rightarrow> bool \<Rightarrow> client_ip_options \<Rightarrow> request \<Rightarrow> env \<Rightarrow> (request \<times> env) option" where
  "rate_pass x rdb opts r e = (case counted x rdb opts r of
     (None, r') \<Rightarrow> Some (r', e)
   | (Some key, r') \<Rightarrow>
       (case rate_check key (policyForRequest r) (ev_world e) of
          (Admit, w') \<Rightarrow> Some (r', e\<lparr>ev_world := w'\<rparr>)
        | _ \<Rightarrow> None))"

definition rate_deny :: "ext \<Rightarrow> bool \<Rightarrow> client_ip_options \<Rightarrow> request \<Rightarrow> env \<Rightarrow> env" where
  "rate_deny x rdb opts r e = (case counted x rdb opts r of
     (None, r') \<Rightarrow> e
   | (Some key, r') \<Rightarrow>
       (case rate_check key (policyForRequest r) (ev_world e) of
          (Admit, w') \<Rightarrow> e
        | (Reject, w') \<Rightarrow> Error 429 CodeRateLimited ''too many requests'' (e\<lparr>ev_world := w'\<rparr>)
        | (Unavailable, w') \<Rightarrow>
            Error 503 CodeInternalError ''rate limiter unavailable'' (e\<lparr>ev_world := w'\<rparr>)))"

interpretation limiter: strict_guard "RateLimit x rdb opts" "rate_pass x rdb opts" "rate_deny x rdb opts"
  for x rdb opts
proof
  fix "next" r e
  show "RateLimit x rdb opts next r e = (case rate_pass x rdb opts r e of
      None \<Rightarrow> finish (rate_deny x rdb opts r e) | Some (r', e') \<Rightarrow> next r' e')"
    by (auto simp: RateLimit_def rate_pass_def rate_deny_def counted_def rate_check_def with_world_def
        Let_def split: prod.splits option.splits sum.splits)
next
  fix r e
  assume "rate_pass x rdb opts r e = None" and "unsent e"
  then show "400 \<le> final_status (ev_response (rate_deny x rdb opts r e))"
    by (auto simp: rate_pass_def rate_deny_def http_rules unsent_def
        split: prod.splits option.splits verdict.splits)
qed

end
