(* ===== verification/Config.thy ===== *)
theory Config
  imports NetIP Runtime
begin

text \<open>
  \<open>internal/config/config.go\<close>: the configuration from the environment, with
  \<open>strconv.ParseBool\<close> and \<open>time.ParseDuration\<close>. The environment maps names to values,
  the empty string standing for an unset variable, as \<open>os.Getenv\<close> does. Two things are
  parameters: the floating-point product \<open>ParseDuration\<close> uses for fractions of a unit, and
  the order in which Go iterates over the map of required variables.
\<close>

type_synonym environment = "string \<Rightarrow> string"

definition getEnv :: "environment \<Rightarrow> string \<Rightarrow> string \<Rightarrow> string" where
  "getEnv env key fallback = (if env key \<noteq> '''' then env key else fallback)"

subsection \<open>ParseBool\<close>

definition parse_bool :: "string \<Rightarrow> bool option" where
  "parse_bool s =
     (if s \<in> {''1'', ''t'', ''T'', ''TRUE'', ''true'', ''True''} then Some True
      else if s \<in> {''0'', ''f'', ''F'', ''FALSE'', ''false'', ''False''} then Some False
      else None)"

definition parseBool :: "environment \<Rightarrow> string \<Rightarrow> bool \<Rightarrow> err + bool" where
  "parseBool env key fallback =
     (let val = env key in
      if val = '''' then Inr fallback
      else case parse_bool val of
          None \<Rightarrow> Inl (ErrWrap (''invalid boolean for '' @ key) (ErrText ''strconv.ParseBool''))
        | Some b \<Rightarrow> Inr b)"

subsection \<open>ParseDuration\<close>

text \<open>\<open>float_part f unit scale\<close> is \<open>uint64(float64(f) * (float64(unit) / scale))\<close>.\<close>

type_synonym float_part = "nat \<Rightarrow> nat \<Rightarrow> nat \<Rightarrow> nat"

definition two63 :: nat where
  "two63 = 9223372036854775808"

definition unit_ns :: "string \<Rightarrow> nat option" where
  "unit_ns u =
     (if u = ''ns'' then Some 1
      else if u = ''us'' \<or> u = [CHR 0xC2, CHR 0xB5, CHR ''s''] \<or> u = [CHR 0xCE, CHR 0xBC, CHR ''s'']
        then Some 1000
      else if u = ''ms'' then Some 1000000
      else if u = ''s'' then Some 1000000000
      else if u = ''m'' then Some 60000000000
      else if u = ''h'' then Some 3600000000000
      else None)"

text \<open>\<open>leadingInt\<close>: the digits must not exceed 2^63 on the way.\<close>

fun leading_int :: "string \<Rightarrow> nat \<Rightarrow> (nat \<times> string) option" where
  "leading_int [] v = Some (v, [])"
| "leading_int (c # cs) v =
     (if \<not> is_digit c then Some (v, c # cs)
      else if v > two63 div 10 then None
      else (let v' = v * 10 + (of_char c - 48)
            in if v' > two63 then None else leading_int cs v'))"

text \<open>\<open>leadingFraction\<close>: digits that no longer fit are read and dropped.\<close>

fun leading_fraction :: "string \<Rightarrow> nat \<Rightarrow> nat \<Rightarrow> bool \<Rightarrow> nat \<times> nat \<times> string" where
  "leading_fraction [] f scale full = (f, scale, [])"
| "leading_fraction (c # cs) f scale full =
     (if \<not> is_digit c then (f, scale, c # cs)
      else if full \<or> f > (two63 - 1) div 10 then leading_fraction cs f scale True
      else (let f' = f * 10 + (of_char c - 48)
            in if f' > two63 then leading_fraction cs f scale True
               else leading_fraction cs f' (scale * 10) False))"

definition unit_char :: "char \<Rightarrow> bool" where
  "unit_char c \<longleftrightarrow> c \<noteq> CHR ''.'' \<and> \<not> is_digit c"

text \<open>One round of the loop: the nanoseconds of the first number with unit, and the rest.\<close>

definition duration_item :: "float_part \<Rightarrow> string \<Rightarrow> (nat \<times> string) option" where
  "duration_item fp s =
     (if s = [] \<or> unit_char (hd s) then None
      else case leading_int s 0 of
          None \<Rightarrow> None
        | Some (v, s1) \<Rightarrow>
            (let pre = length s1 \<noteq> length s;
                 (f, scale, s2) = (if s1 \<noteq> [] \<and> hd s1 = CHR ''.'' then leading_fraction (tl s1) 0 1 False
                                   else (0, 1, s1));
                 post = s1 \<noteq> [] \<and> hd s1 = CHR ''.'' \<and> length s2 \<noteq> length (tl s1);
                 u = takeWhile unit_char s2; rest = dropWhile unit_char s2
             in if \<not> pre \<and> \<not> post then None
                else case unit_ns u of
                    None \<Rightarrow> None
                  | Some unit \<Rightarrow>
                      if v > two63 div unit then None
                      else (let n = v * unit + (if f > 0 then fp f unit scale else 0)
                            in if n > two63 then None else Some (n, rest))))"

text \<open>Each round reads at least the unit, so as many rounds as bytes are enough.\<close>

fun duration_loop :: "float_part \<Rightarrow> nat \<Rightarrow> string \<Rightarrow> nat \<Rightarrow> nat option" where
  "duration_loop fp fuel [] d = Some d"
| "duration_loop fp 0 (c # cs) d = None"
| "duration_loop fp (Suc fuel) (c # cs) d = (case duration_item fp (c # cs) of
     None \<Rightarrow> None
   | Some (n, rest) \<Rightarrow> if d + n > two63 then None else duration_loop fp fuel rest (d + n))"

definition parse_duration :: "float_part \<Rightarrow> string \<Rightarrow> duration option" where
  "parse_duration fp s0 =
     (let neg = s0 \<noteq> [] \<and> hd s0 = CHR ''-'';
          s = (if s0 \<noteq> [] \<and> (hd s0 = CHR ''-'' \<or> hd s0 = CHR ''+'') then tl s0 else s0)
      in if s = ''0'' then Some 0
         else if s = '''' then None
         else case duration_loop fp (length s) s 0 of
             None \<Rightarrow> None
           | Some d \<Rightarrow> if neg then Some (- int d) else if d > two63 - 1 then None else Some (int d))"

definition parseDuration :: "float_part \<Rightarrow> environment \<Rightarrow> string \<Rightarrow> duration \<Rightarrow> err + duration" where
  "parseDuration fp env key fallback =
     (let val = env key in
      if val = '''' then Inr fallback
      else case parse_duration fp val of
          None \<Rightarrow> Inl (ErrWrap (''invalid duration for '' @ key) (ErrText ''time: invalid duration''))
        | Some d \<Rightarrow> Inr d)"

subsection \<open>Networks\<close>

fun cidr_list :: "string list \<Rightarrow> ipnet list option" where
  "cidr_list [] = Some []"
| "cidr_list (part # parts) =
     (let candidate = trim_space part in
      if candidate = '''' then cidr_list parts
      else case parse_cidr candidate of
          None \<Rightarrow> None
        | Some network \<Rightarrow> map_option ((#) network) (cidr_list parts))"

definition parseCIDRs :: "environment \<Rightarrow> string \<Rightarrow> err + ipnet list" where
  "parseCIDRs env key =
     (if trim_space (env key) = '''' then Inr []
      else case cidr_list (split_on CHR '','' (env key)) of
          None \<Rightarrow> Inl (ErrText (''invalid cidr for '' @ key))
        | Some networks \<Rightarrow> Inr networks)"

subsection \<open>Load\<close>

definition minJWTSecretLength :: nat where
  "minJWTSecretLength = 32"

definition placeholderJWTSecret :: string where
  "placeholderJWTSecret = ''changeme-use-openssl-rand-base64-32''"

record config =
  cf_Port :: string
  cf_Env :: string
  cf_DatabaseURL :: string
  cf_RedisURL :: string
  cf_JWTSecret :: string
  cf_JWTAccessTokenIssuer :: string
  cf_JWTAccessTokenAudience :: string
  cf_ResendAPIKey :: string
  cf_EmailFrom :: string
  cf_EmailFromName :: string
  cf_MetricsBearerToken :: string
  cf_AppBaseURL :: string
  cf_AllowedOrigins :: "string list"
  cf_TrustProxyHeaders :: bool
  cf_TrustedProxyCIDRs :: "ipnet list"
  cf_JWTExpiry :: duration
  cf_RefreshExpiry :: duration

type_synonym map_order = "string list \<Rightarrow> string list"

definition missing_variables :: "config \<Rightarrow> string list" where
  "missing_variables c =
     map fst (filter (\<lambda>p. snd p = '''')
       [(''DATABASE_URL'', cf_DatabaseURL c), (''REDIS_URL'', cf_RedisURL c),
        (''JWT_SECRET'', cf_JWTSecret c)])"

definition validate :: "map_order \<Rightarrow> config \<Rightarrow> err option" where
  "validate order c =
     (if missing_variables c \<noteq> [] then
        Some (ErrText (''missing required environment variables: '' @
          join_with '', '' (order (missing_variables c))))
      else if cf_JWTSecret c = placeholderJWTSecret then
        Some (ErrText ''JWT_SECRET must be changed from the example placeholder value'')
      else if length (cf_JWTSecret c) < minJWTSecretLength then
        Some (ErrText ''JWT_SECRET must be at least 32 characters'')
      else None)"

text \<open>\<open>env\<close> is the environment after \<open>godotenv.Load\<close>, whose error is ignored.\<close>

definition allowed_origins :: "environment \<Rightarrow> string list" where
  "allowed_origins env =
     (let origins = env ''ALLOWED_ORIGINS''
      in if origins \<noteq> '''' then map trim_space (split_on CHR '','' origins) else [])"

definition Load :: "float_part \<Rightarrow> map_order \<Rightarrow> environment \<Rightarrow> err + config" where
  "Load fp order env =
     (case parseBool env ''TRUST_PROXY_HEADERS'' False of
        Inl e \<Rightarrow> Inl e
      | Inr trust \<Rightarrow>
     (case parseCIDRs env ''TRUSTED_PROXY_CIDRS'' of
        Inl e \<Rightarrow> Inl e
      | Inr cidrs \<Rightarrow>
     (case parseDuration fp env ''JWT_EXPIRY'' (15 * minute) of
        Inl e \<Rightarrow> Inl e
      | Inr jwtExpiry \<Rightarrow>
     (case parseDuration fp env ''REFRESH_EXPIRY'' (168 * hour) of
        Inl e \<Rightarrow> Inl e
      | Inr refreshExpiry \<Rightarrow>
     (let c = \<lparr>cf_Port = getEnv env ''PORT'' ''8080'', cf_Env = getEnv env ''ENV'' ''development'',
           cf_DatabaseURL = env ''DATABASE_URL'', cf_RedisURL = env ''REDIS_URL'',
           cf_JWTSecret = env ''JWT_SECRET'',
           cf_JWTAccessTokenIssuer = getEnv env ''JWT_ACCESS_TOKEN_ISSUER'' ''go-backend-scaffold'',
           cf_JWTAccessTokenAudience =
             getEnv env ''JWT_ACCESS_TOKEN_AUDIENCE'' ''go-backend-scaffold-api'',
           cf_ResendAPIKey = env ''RESEND_API_KEY'', cf_EmailFrom = env ''EMAIL_FROM'',
           cf_EmailFromName = env ''EMAIL_FROM_NAME'',
           cf_MetricsBearerToken = env ''METRICS_BEARER_TOKEN'', cf_AppBaseURL = env ''APP_BASE_URL'',
           cf_AllowedOrigins = allowed_origins env, cf_TrustProxyHeaders = trust,
           cf_TrustedProxyCIDRs = cidrs, cf_JWTExpiry = jwtExpiry, cf_RefreshExpiry = refreshExpiry\<rparr>
      in case validate order c of None \<Rightarrow> Inr c | Some e \<Rightarrow> Inl e)))))"

subsection \<open>What a loaded configuration has\<close>

lemma validate_None:
  "validate order c = None \<longleftrightarrow> cf_DatabaseURL c \<noteq> '''' \<and> cf_RedisURL c \<noteq> ''''
     \<and> cf_JWTSecret c \<noteq> placeholderJWTSecret \<and> 32 \<le> length (cf_JWTSecret c)"
  by (auto simp: validate_def missing_variables_def minJWTSecretLength_def)

lemma getEnv_nonempty: "fallback \<noteq> '''' \<Longrightarrow> getEnv env key fallback \<noteq> ''''"
  by (simp add: getEnv_def)

lemma Load_okD:
  assumes "Load fp order env = Inr c"
  shows "validate order c = None \<and> cf_JWTAccessTokenIssuer c \<noteq> '''' \<and> cf_JWTAccessTokenAudience c \<noteq> ''''
    \<and> cf_Port c \<noteq> '''' \<and> cf_Env c \<noteq> '''' \<and> cf_AllowedOrigins c = allowed_origins env"
  using assms
  by (auto simp: Load_def Let_def getEnv_nonempty split: sum.splits option.splits)

end
