(* ===== verification/Router.thy ===== *)
theory Router
  imports Handlers RateLimit Config
begin

text \<open>
  \<open>internal/server/router.go\<close>, \<open>internal/auth/routes.go\<close>,
  \<open>internal/platform/health\<close> and \<open>internal/exampledomain\<close>: the routes with their
  handlers and middleware.

  The router itself is \<open>chi\<close>, code outside the repository: a record of functions, with its
  documented behaviour as the predicate \<open>chi_documented\<close>. The handler of the metrics page
  is a parameter too.
\<close>

subsection \<open>The router library\<close>

datatype chi_match = Matched nat "(string \<times> string) list" | MethodNotAllowed | NotFound

record chi =
  chi_chain :: "middleware list \<Rightarrow> handler \<Rightarrow> handler"
  chi_route :: "(string option \<times> string) list \<Rightarrow> string \<Rightarrow> string \<Rightarrow> chi_match"
  chi_not_found :: handler
  chi_not_allowed :: handler

record route =
  rte_method :: "string option"
  rte_pattern :: string
  rte_stack :: "middleware list"
  rte_handler :: handler

record router =
  rtr_stack :: "middleware list"
  rtr_routes :: "route list"

definition route_key :: "route \<Rightarrow> string option \<times> string" where
  "route_key t = (rte_method t, rte_pattern t)"

definition dispatch :: "chi \<Rightarrow> route list \<Rightarrow> handler" where
  "dispatch c routes r e =
     (case chi_route c (map route_key routes) (rq_method r) (rq_path r) of
        Matched i params \<Rightarrow>
          (let t = routes ! i
           in chi_chain c (rte_stack t) (rte_handler t) (r\<lparr>rq_params := params\<rparr>)
                (e\<lparr>ev_route := rte_pattern t\<rparr>))
      | MethodNotAllowed \<Rightarrow> chi_not_allowed c r e
      | NotFound \<Rightarrow> chi_not_found c r e)"

definition serve :: "chi \<Rightarrow> router \<Rightarrow> handler" where
  "serve c rt = chi_chain c (rtr_stack rt) (dispatch c (rtr_routes rt))"

text \<open>\<open>r.Get\<close>, \<open>r.Post\<close>, \<open>r.Handle\<close>, \<open>r.With\<close> and \<open>r.Route\<close>.\<close>

definition Get :: "string \<Rightarrow> handler \<Rightarrow> route" where
  "Get p h = \<lparr>rte_method = Some ''GET'', rte_pattern = p, rte_stack = [], rte_handler = h\<rparr>"

definition Post :: "string \<Rightarrow> handler \<Rightarrow> route" where
  "Post p h = \<lparr>rte_method = Some ''POST'', rte_pattern = p, rte_stack = [], rte_handler = h\<rparr>"

definition Handle :: "string \<Rightarrow> handler \<Rightarrow> route" where
  "Handle p h = \<lparr>rte_method = None, rte_pattern = p, rte_stack = [], rte_handler = h\<rparr>"

definition With :: "middleware \<Rightarrow> route \<Rightarrow> route" where
  "With m t = t\<lparr>rte_stack := m # rte_stack t\<rparr>"

definition Under :: "string \<Rightarrow> route list \<Rightarrow> route list" where
  "Under prefix = map (\<lambda>t. t\<lparr>rte_pattern := prefix @ rte_pattern t\<rparr>)"

text \<open>
  Documented: a stack runs in the order it was given, the endpoint last; a route with a static
  pattern (no parameter, no wildcard) matches the path that equals it and its method; a path that
  only routes of other methods match is answered with 405, any other with 404; a method that is
  not one of HTTP's is answered with 405.
\<close>

definition http_methods :: "string list" where
  "http_methods = [''CONNECT'', ''DELETE'', ''GET'', ''HEAD'', ''OPTIONS'', ''PATCH'', ''POST'', ''PUT'', ''TRACE'']"

definition static_pattern :: "string \<Rightarrow> bool" where
  "static_pattern p \<longleftrightarrow> CHR ''{'' \<notin> set p \<and> CHR ''*'' \<notin> set p"

definition key_matches :: "string \<Rightarrow> string \<Rightarrow> string option \<times> string \<Rightarrow> bool" where
  "key_matches m p k \<longleftrightarrow> snd k = p \<and> (fst k = None \<or> fst k = Some m)"

definition static_route :: "(string option \<times> string) list \<Rightarrow> string \<Rightarrow> string \<Rightarrow> chi_match" where
  "static_route keys m p =
     (case find (\<lambda>i. key_matches m p (keys ! i)) [0..<length keys] of
        Some i \<Rightarrow> Matched i []
      | None \<Rightarrow> if list_ex (\<lambda>k. snd k = p) keys then MethodNotAllowed else NotFound)"

definition answers :: "handler \<Rightarrow> nat \<Rightarrow> bool" where
  "answers h status \<longleftrightarrow> (\<forall>r. returns (h r) \<and> responds (h r))
     \<and> (\<forall>r e. ev_world (snd (h r e)) = ev_world e
          \<and> (unsent e \<longrightarrow> final_status (ev_response (snd (h r e))) = status))"

definition chi_documented :: "chi \<Rightarrow> bool" where
  "chi_documented c \<longleftrightarrow>
     (\<forall>ms h. chi_chain c ms h = foldr (\<lambda>m. m) ms h)
     \<and> (\<forall>keys m p. m \<in> set http_methods \<longrightarrow> distinct keys \<longrightarrow> list_all (static_pattern \<circ> snd) keys \<longrightarrow>
          chi_route c keys m p = static_route keys m p)
     \<and> (\<forall>keys m p. m \<notin> set http_methods \<longrightarrow> chi_route c keys m p = MethodNotAllowed)
     \<and> answers (chi_not_found c) 404 \<and> answers (chi_not_allowed c) 405"

subsection \<open>Health\<close>

text \<open>A \<open>Checker\<close> may be nil.\<close>

type_synonym checker = "unit op option"

record health =
  hl_db :: checker
  hl_cache :: checker

text \<open>\<open>Ping\<close> of the connection pool and of the Redis client: one call.\<close>

definition ping :: "unit op" where
  "ping = call take_fault (\<lambda>f. case f of Inr NoFault \<Rightarrow> ret () | _ \<Rightarrow> fail ErrConn)"

definition check :: "checker \<Rightarrow> world \<Rightarrow> bool option \<times> world" where
  "check c w = (case c of
     None \<Rightarrow> (None, w)
   | Some m \<Rightarrow> (case m w of (Inl _, w') \<Rightarrow> (Some False, w') | (Inr _, w') \<Rightarrow> (Some True, w')))"

definition check_member :: "string \<Rightarrow> bool option \<Rightarrow> (string \<times> json) list" where
  "check_member name result = (case result of None \<Rightarrow> [] | Some _ \<Rightarrow> [(name, JStr ''ok'')])"

definition Healthz :: handler where
  "Healthz r e = finish (JSON 200 (JObj [(''status'', JStr ''ok'')]) e)"

definition Readyz :: "health \<Rightarrow> handler" where
  "Readyz h r e =
     (case check (hl_db h) (ev_world e) of
        (d, w1) \<Rightarrow> (case check (hl_cache h) w1 of
          (c, w2) \<Rightarrow>
            (let e' = e\<lparr>ev_world := w2\<rparr> in
             if d = Some False \<or> c = Some False
             then finish (Error 503 ''NOT_READY'' ''one or more dependencies are unhealthy'' e')
             else finish (JSON 200 (JObj (check_member ''cache'' c @ check_member ''database'' d)) e'))))"

subsection \<open>The routes of auth\<close>

definition registerPublicRoutes :: "ext \<Rightarrow> servicer \<Rightarrow> route list" where
  "registerPublicRoutes x sv =
     [Post ''/register'' (handle_Register x sv), Post ''/login'' (handle_Login x sv),
      Post ''/refresh'' (handle_Refresh sv), Post ''/logout'' (handle_Logout sv),
      Post ''/forgot-password'' (handle_ForgotPassword x sv),
      Post ''/reset-password'' (handle_ResetPassword sv)]"

definition registerProtectedRoutes :: "servicer \<Rightarrow> route list" where
  "registerProtectedRoutes sv =
     [Get ''/me'' (handle_Me sv), Post ''/change-password'' (handle_ChangePassword sv)]"

definition RegisterRoutes :: "ext \<Rightarrow> servicer \<Rightarrow> middleware option \<Rightarrow> route list" where
  "RegisterRoutes x sv authMiddleware =
     registerPublicRoutes x sv @
     (case authMiddleware of
        None \<Rightarrow> registerProtectedRoutes sv
      | Some m \<Rightarrow> map (With m) (registerProtectedRoutes sv))"

definition Routes :: "ext \<Rightarrow> servicer \<Rightarrow> router" where
  "Routes x sv = \<lparr>rtr_stack = [], rtr_routes = registerPublicRoutes x sv\<rparr>"

definition ProtectedRoutes :: "servicer \<Rightarrow> router" where
  "ProtectedRoutes sv = \<lparr>rtr_stack = [], rtr_routes = registerProtectedRoutes sv\<rparr>"

subsection \<open>The router of the server\<close>

definition metricsBearerAuth :: "string \<Rightarrow> middleware" where
  "metricsBearerAuth token next r e =
     (if header_get r ''Authorization'' \<noteq> ''Bearer '' @ token
      then unauthorized ''missing or invalid metrics token'' e
      else next r e)"

record handlers =
  hs_health :: health
  hs_auth :: servicer

definition metrics_routes :: "config \<Rightarrow> handler \<Rightarrow> route list" where
  "metrics_routes cfg prom =
     (if cf_Env cfg \<noteq> ''production'' then [Handle ''/metrics'' prom]
      else if cf_MetricsBearerToken cfg \<noteq> ''''
        then [With (metricsBearerAuth (cf_MetricsBearerToken cfg)) (Handle ''/metrics'' prom)]
      else [])"

definition NewRouter ::
    "ext \<Rightarrow> handler \<Rightarrow> config \<Rightarrow> user_reader option \<Rightarrow> bool \<Rightarrow> handlers \<Rightarrow> router" where
  "NewRouter x prom cfg reader rdb h =
     \<lparr>rtr_stack =
        [Recover (cf_Env cfg), Metrics x, Logger, CORS (cf_AllowedOrigins cfg),
         RateLimit x rdb \<lparr>TrustProxyHeaders = cf_TrustProxyHeaders cfg,
                          TrustedProxies = map Some (cf_TrustedProxyCIDRs cfg)\<rparr>],
      rtr_routes =
        [Get ''/healthz'' Healthz, Get ''/readyz'' (Readyz (hs_health h))]
        @ metrics_routes cfg prom
        @ Under ''/api/v1'' (Under ''/auth'' (RegisterRoutes x (hs_auth h)
            (Some (Auth x (cf_JWTSecret cfg) (cf_JWTAccessTokenIssuer cfg)
                     (cf_JWTAccessTokenAudience cfg) reader))))\<rparr>"

subsection \<open>The example domain\<close>

record resource =
  re_id :: string
  re_org_id :: string
  re_name :: string

type_synonym resource_store = "string \<Rightarrow> resource list op"

definition List :: "resource_store \<Rightarrow> string \<Rightarrow> resource list op" where
  "List store orgID = (if orgID = '''' then fail ErrMissingOrgID else store orgID)"

definition resource_json :: "resource \<Rightarrow> json" where
  "resource_json a = JObj [(''id'', JStr (re_id a)), (''org_id'', JStr (re_org_id a)), (''name'', JStr (re_name a))]"

definition ListResources :: "(string \<Rightarrow> resource list op) \<Rightarrow> handler" where
  "ListResources list r e = (case IdentityFromRequest r of
     None \<Rightarrow> unauthorized ''missing auth context'' e
   | Some identity \<Rightarrow>
       with_world (list (OrgID identity)) (\<lambda>res e. case res of
           Inl err \<Rightarrow>
             if errors_is err ErrMissingOrgID then bad_request ''missing org id'' e
             else internal_error ''failed to list resources'' e
         | Inr rs \<Rightarrow> finish (JSON 200 (JArr (map resource_json rs)) e)) e)"

definition orgIDFromRoute :: "request \<Rightarrow> string \<times> bool" where
  "orgIDFromRoute r = (let orgID = url_param r ''orgID'' in (orgID, orgID \<noteq> ''''))"

definition resource_routes :: "(string \<Rightarrow> resource list op) \<Rightarrow> route list" where
  "resource_routes list =
     Under ''/orgs/{orgID}/resources''
       [With (RequireOrgAccess orgIDFromRoute) (Get ''/'' (ListResources list))]"

end
