(* ===== verification/RateWindow.thy ===== *)
theory RateWindow
  imports RateLimit ServiceInv
begin

text \<open>
  The counters of the rate limiter over time: no operation of the service touches them, a window
  starts with the first request and keeps its end, and no more requests are admitted in a
  window than the policy allows, whatever calls fail and whatever runs in between.
\<close>

subsection \<open>The service leaves the counters alone\<close>

definition limit_frame :: "string \<Rightarrow> world \<Rightarrow> world \<Rightarrow> bool" where
  "limit_frame key v w \<longleftrightarrow> cache w key = cache v key \<and> redis_now w = redis_now v"

interpretation counter: world_order "limit_frame key" for key
  by unfold_locales (simp_all add: limit_frame_def)

definition rate_key :: "string \<Rightarrow> bool" where
  "rate_key key \<longleftrightarrow> has_prefix key ''ratelimit:''"

lemma rate_key_not_reset: "rate_key key \<Longrightarrow> key \<noteq> passwordResetCacheKey x t"
  by (auto simp: rate_key_def has_prefix_def passwordResetCacheKey_def)

lemma evolves_limit_exec: "evolves (limit_frame key) (exec s)"
  and evolves_limit_exec_now: "evolves (limit_frame key) (\<lambda>w. exec (s' w) w)"
  by (auto simp: evolves_def limit_frame_def exec_eq split: fault.splits)

lemma evolves_limit_oracles:
  "evolves (limit_frame key) rand_read" "evolves (limit_frame key) gen_random_uuid"
  by (simp_all add: evolves_def rand_read_def gen_random_uuid_def limit_frame_def)

lemma evolves_limit_queries:
  "evolves (limit_frame key) (ConsumeRefreshToken t)"
  "evolves (limit_frame key) (CreateOrg name)"
  "evolves (limit_frame key) (CreateOrgMembership u r role)"
  "evolves (limit_frame key) (CreateRefreshToken t u r expires)"
  "evolves (limit_frame key) (CreateUser x email hash name)"
  "evolves (limit_frame key) (GetOrg i)"
  "evolves (limit_frame key) (GetOrgMembershipByUser u r)"
  "evolves (limit_frame key) (GetUserByEmail x email)"
  "evolves (limit_frame key) (GetUserByID i)"
  "evolves (limit_frame key) (IncrementUserTokenVersion i)"
  "evolves (limit_frame key) (ListOrgMembershipsByUser u)"
  "evolves (limit_frame key) (RevokeAllUserRefreshTokens u)"
  "evolves (limit_frame key) (UpdateUserPassword i hash)"
  unfolding query_defs
  by (intro evolves_limit_exec evolves_limit_exec_now counter.evolves_intros evolves_limit_oracles)+

lemma evolves_limit_WithTx:
  assumes "evolves (limit_frame key) fn"
  shows "evolves (limit_frame key) (WithTxQueries fn)"
proof -
  have "limit_frame key w (snd (WithTx fn w))" for w
    using assms [unfolded evolves_def, rule_format, of "next_fault w"]
    by (auto simp: WithTx_eq limit_frame_def split: prod.splits sum.splits fault.splits)
  then show ?thesis by (simp add: evolves_def WithTxQueries_def)
qed

lemma evolves_limit_redis:
  "rate_key key \<Longrightarrow> evolves (limit_frame key) (redis_call (set_command (passwordResetCacheKey x t) v ttl))"
  "rate_key key \<Longrightarrow> evolves (limit_frame key) (redis_call (getdel_command (passwordResetCacheKey x t)))"
  using rate_key_not_reset [of key x t]
  by (auto simp: evolves_def limit_frame_def redis_call_eq set_command_def getdel_command_def
      split: fault.splits)

lemma evolves_limit_send: "evolves (limit_frame key) (SendPasswordReset s a b)"
  by (cases s) (auto simp: evolves_def limit_frame_def ret_def send_email_eq split: fault.splits)

lemma evolves_limit_tokens:
  "evolves (limit_frame key) GenerateRefreshToken"
  "evolves (limit_frame key) (GenerateAccessToken x u r role v secret iss aud expiry)"
  unfolding GenerateRefreshToken_def GenerateAccessToken_def
  by (intro counter.evolves_intros evolves_limit_oracles evolves_if evolves_option)+

lemma service_limit:
  assumes "rate_key key"
  shows "evolves (limit_frame key) (Register x s email password fullName)"
    and "evolves (limit_frame key) (Login x s email password orgID)"
    and "evolves (limit_frame key) (Refresh x s token)"
    and "evolves (limit_frame key) (Logout x token)"
    and "evolves (limit_frame key) (Me x userID orgID)"
    and "evolves (limit_frame key) (ForgotPassword x s email)"
    and "evolves (limit_frame key) (ResetPassword x token password)"
    and "evolves (limit_frame key) (ChangePassword x userID current_pw next_pw)"
  unfolding service_defs
  by (intro counter.evolves_intros evolves_option evolves_sum evolves_if evolves_prod
      evolves_limit_queries evolves_limit_oracles evolves_limit_WithTx evolves_limit_send
      evolves_limit_tokens evolves_limit_redis assms)+

lemma step_limit:
  "step x s v w \<Longrightarrow> rate_key key \<Longrightarrow> cache w key = cache v key \<and> redis_now v \<le> redis_now w"
proof (induction rule: step.induct)
  case (step_time w a b c)
  then show ?case by simp
qed (use service_limit [of key] in \<open>simp_all add: evolves_def limit_frame_def\<close>)

subsection \<open>Runs of one counter\<close>

text \<open>
  \<open>limited x s key policy u a w\<close>: from \<open>u\<close> to \<open>w\<close> the operations of the service,
  the passing of time, requests under other keys and requests under \<open>key\<close> ran in any order,
  and \<open>a\<close> of the last were admitted.
\<close>

inductive limited ::
    "ext \<Rightarrow> service \<Rightarrow> string \<Rightarrow> rate_limit_policy \<Rightarrow> world \<Rightarrow> nat \<Rightarrow> world \<Rightarrow> bool"
  for x s key policy u where
  limited_start: "limited x s key policy u 0 u"
| limited_step: "limited x s key policy u a v \<Longrightarrow> step x s v w \<Longrightarrow> limited x s key policy u a w"
| limited_other: "limited x s key policy u a v \<Longrightarrow> j \<noteq> key \<Longrightarrow> rate_check j q v = (d, w)
    \<Longrightarrow> limited x s key policy u a w"
| limited_check: "limited x s key policy u a v \<Longrightarrow> rate_check key policy v = (d, w)
    \<Longrightarrow> limited x s key policy u (if d = Admit then Suc a else a) w"

inductive_cases limited_cases: "limited x s key policy u a w"

text \<open>The script under its key, by what the key holds.\<close>

definition count_of :: "string \<Rightarrow> world \<Rightarrow> (int \<times> time) option" where
  "count_of key w = (case cache w key of Some (RInt m, Some t) \<Rightarrow> Some (m, t) | _ \<Rightarrow> None)"

lemma count_of_iff: "count_of key w = Some (m, t) \<longleftrightarrow> cache w key = Some (RInt m, Some t)"
  by (auto simp: count_of_def split: option.splits redis_value.splits prod.splits)

lemma rate_check_other:
  "rate_check j q v = (d, w) \<Longrightarrow> j \<noteq> key \<Longrightarrow> cache w key = cache v key \<and> redis_now w = redis_now v"
  by (auto simp: rate_check_def redis_call_eq script_other_key
      split: prod.splits sum.splits fault.splits if_splits)

lemma rate_check_now: "rate_check key policy v = (d, w) \<Longrightarrow> redis_now w = redis_now v"
  by (auto simp: rate_check_def redis_call_eq split: prod.splits sum.splits fault.splits if_splits)

lemma rate_check_first:
  assumes "rate_check key policy v = (d, w)" and "live (redis_now v) (cache v) key = None"
  shows "cache w key = cache v key \<and> d = Unavailable
    \<or> cache w key = Some (RInt 1, Some (redis_now v + milliseconds (pl_window policy)))
      \<and> (d = Admit \<longrightarrow> 1 \<le> pl_limit policy)"
  using assms
  by (auto simp: rate_check_def redis_call_eq script_first split: prod.splits sum.splits fault.splits if_splits)

lemma script_live:
  assumes "ks k = Some (RInt m, Some t)" and "now < t" and "1 \<le> m"
  shows "rateLimitScript k window now ks =
    (if m \<ge> max_int64 then (Inl ErrCacheType, ks) else (Inr (m + 1), ks(k \<mapsto> (RInt (m + 1), Some t))))"
  using assms by (simp add: rateLimitScript_def incr_command_def live_def)

lemma rate_check_next:
  assumes "rate_check key policy v = (d, w)" and "cache v key = Some (RInt m, Some t)"
    and "redis_now v < t" and "1 \<le> m"
  shows "cache w key = Some (RInt m, Some t) \<and> d = Unavailable
    \<or> cache w key = Some (RInt (m + 1), Some t) \<and> (d = Admit \<longrightarrow> m + 1 \<le> pl_limit policy)"
  using assms
  by (auto simp: rate_check_def redis_call_eq script_live split: prod.splits sum.splits fault.splits if_splits)

lemma limited_time: "limited x s key policy u a w \<Longrightarrow> rate_key key \<Longrightarrow> redis_now u \<le> redis_now w"
proof (induction rule: limited.induct)
  case (limited_step a v w)
  then show ?case using step_limit by fastforce
next
  case (limited_other a v j q d w)
  then show ?case using rate_check_other by fastforce
next
  case (limited_check a v d w)
  then show ?case using rate_check_now by fastforce
qed simp

text \<open>Absent and no request admitted, or counting with at least the admitted ones.\<close>

definition window_state :: "string \<Rightarrow> int \<Rightarrow> time \<Rightarrow> nat \<Rightarrow> world \<Rightarrow> bool" where
  "window_state key limit until a w \<longleftrightarrow>
     a = 0 \<and> live (redis_now w) (cache w) key = None
     \<or> (\<exists>m t. cache w key = Some (RInt m, Some t) \<and> until \<le> t \<and> 1 \<le> m \<and> int a \<le> m \<and> int a \<le> max 0 limit)"

lemma dead_stays_dead:
  "live now ks k = None \<Longrightarrow> now \<le> now' \<Longrightarrow> ks' k = ks k \<Longrightarrow> live now' ks' k = None"
  by (auto simp: live_def split: option.splits prod.splits if_splits)

lemma window_frame:
  assumes "window_state key limit until a v" and "cache w key = cache v key" and "redis_now v \<le> redis_now w"
  shows "window_state key limit until a w"
  using assms dead_stays_dead [of "redis_now v" "cache v" key "redis_now w" "cache w"]
  by (auto simp: window_state_def)

lemma window_check:
  assumes "window_state key (pl_limit policy) (s0 + milliseconds (pl_window policy)) a v"
    and "rate_check key policy v = (d, w)" and "s0 \<le> redis_now v"
    and "redis_now v < s0 + milliseconds (pl_window policy)"
  shows "window_state key (pl_limit policy) (s0 + milliseconds (pl_window policy))
    (if d = Admit then Suc a else a) w"
  using assms(1) unfolding window_state_def [of _ _ _ a]
proof (elim disjE exE conjE)
  assume "a = 0" and dead: "live (redis_now v) (cache v) key = None"
  with rate_check_first [OF assms(2) dead] rate_check_now [OF assms(2)] assms(3)
  show ?thesis
    using dead_stays_dead [OF dead, of "redis_now w" "cache w"] by (auto simp: window_state_def)
next
  fix m t
  assume "cache v key = Some (RInt m, Some t)" "s0 + milliseconds (pl_window policy) \<le> t" "1 \<le> m"
    "int a \<le> m" "int a \<le> max 0 (pl_limit policy)"
  with rate_check_next [OF assms(2), of m t] assms(4)
  show ?thesis by (auto simp: window_state_def)
qed

lemma limited_window:
  assumes "limited x s key policy u a w" and "rate_key key"
    and "live (redis_now u) (cache u) key = None"
    and "redis_now w < redis_now u + milliseconds (pl_window policy)"
  shows "window_state key (pl_limit policy) (redis_now u + milliseconds (pl_window policy)) a w"
  using assms
proof (induction rule: limited.induct)
  case limited_start
  then show ?case by (simp add: window_state_def)
next
  case (limited_step a v w)
  note frame = step_limit [OF limited_step.hyps(2) limited_step.prems(1)]
  then have "redis_now v < redis_now u + milliseconds (pl_window policy)"
    using limited_step.prems(3) by linarith
  then show ?case
    using window_frame limited_step.IH [OF limited_step.prems(1,2)] frame by blast
next
  case (limited_other a v j q d w)
  note frame = rate_check_other [OF limited_other.hyps(3,2)]
  then have "redis_now v < redis_now u + milliseconds (pl_window policy)"
    using limited_other.prems(3) by linarith
  then show ?case
    using window_frame limited_other.IH [OF limited_other.prems(1,2)] frame by (metis order_refl)
next
  case (limited_check a v d w)
  then have "redis_now v < redis_now u + milliseconds (pl_window policy)"
    using rate_check_now [OF limited_check.hyps(2)] by simp
  then show ?case
    using window_check limited_check.IH [OF limited_check.prems(1,2)] limited_check.hyps(2)
      limited_time [OF limited_check.hyps(1) limited_check.prems(1)] by blast
qed

end
