(* ===== verification/RouterProps.thy ===== *)
theory RouterProps
  imports Router RateWindow
begin

text \<open>
  The router as a whole: the stack unfolded, where a request goes, and that everything behind
  the stack answers once and returns.
\<close>

subsection \<open>The stack\<close>

lemma serve_stack:
  assumes "chi_documented c"
  shows "serve c (NewRouter x prom cfg reader rdb h) =
    Recover (cf_Env cfg) (Metrics x (Logger (CORS (cf_AllowedOrigins cfg)
      (RateLimit x rdb \<lparr>TrustProxyHeaders = cf_TrustProxyHeaders cfg,
                        TrustedProxies = map Some (cf_TrustedProxyCIDRs cfg)\<rparr>
        (dispatch c (rtr_routes (NewRouter x prom cfg reader rdb h)))))))"
  using assms by (simp add: chi_documented_def serve_def NewRouter_def)

lemma chain_eq: "chi_documented c \<Longrightarrow> chi_chain c ms h = foldr (\<lambda>m. m) ms h"
  by (simp add: chi_documented_def)

subsection \<open>The table\<close>

definition static_keys :: "route list \<Rightarrow> bool" where
  "static_keys routes \<longleftrightarrow> distinct (map route_key routes)
     \<and> list_all (static_pattern \<circ> snd) (map route_key routes)"

lemmas route_defs = Get_def Post_def Handle_def With_def Under_def RegisterRoutes_def
  registerPublicRoutes_def registerProtectedRoutes_def metrics_routes_def route_key_def

lemma router_static: "static_keys (rtr_routes (NewRouter x prom cfg reader rdb h))"
  by (simp add: static_keys_def NewRouter_def route_defs static_pattern_def)

lemma static_route_Matched:
  "static_route keys m p = Matched i params \<Longrightarrow>
     i < length keys \<and> key_matches m p (keys ! i) \<and> params = []"
  by (auto simp: static_route_def split: option.splits if_splits dest: find_SomeD)

lemma route_Matched:
  assumes "chi_documented c" and "static_keys routes"
    and "chi_route c (map route_key routes) m p = Matched i params"
  shows "i < length routes \<and> key_matches m p (route_key (routes ! i)) \<and> params = []"
proof -
  have "m \<in> set http_methods"
  proof (rule ccontr)
    assume "m \<notin> set http_methods"
    then have "chi_route c (map route_key routes) m p = MethodNotAllowed"
      using assms(1) unfolding chi_documented_def by blast
    with assms(3) show False by simp
  qed
  then have "static_route (map route_key routes) m p = Matched i params"
    using assms by (auto simp: chi_documented_def static_keys_def)
  from static_route_Matched [OF this] show ?thesis by auto
qed

text \<open>What lies behind the dispatcher answers once and returns if all its routes do.\<close>

lemma dispatch_all:
  assumes "chi_documented c" and "static_keys routes"
    and "\<And>t. t \<in> set routes \<Longrightarrow> P (foldr (\<lambda>m. m) (rte_stack t) (rte_handler t) (r\<lparr>rq_params := []\<rparr>))"
    and "P (chi_not_found c r)" and "P (chi_not_allowed c r)"
    and "\<And>k p. P k \<Longrightarrow> P (\<lambda>e. k (e\<lparr>ev_route := p\<rparr>))"
  shows "P (dispatch c routes r)"
proof (cases "chi_route c (map route_key routes) (rq_method r) (rq_path r)")
  case (Matched i params)
  with route_Matched [OF assms(1,2)] have "i < length routes" "params = []" by auto
  then have "dispatch c routes r = (\<lambda>e. foldr (\<lambda>m. m) (rte_stack (routes ! i)) (rte_handler (routes ! i))
      (r\<lparr>rq_params := []\<rparr>) (e\<lparr>ev_route := rte_pattern (routes ! i)\<rparr>))"
    using Matched by (simp add: fun_eq_iff dispatch_def Let_def chain_eq [OF assms(1)])
  then show ?thesis using assms(3) [of "routes ! i"] assms(6) \<open>i < length routes\<close> by simp
next
  case MethodNotAllowed
  then have "dispatch c routes r = chi_not_allowed c r" by (simp add: fun_eq_iff dispatch_def)
  then show ?thesis using assms(5) by simp
next
  case NotFound
  then have "dispatch c routes r = chi_not_found c r" by (simp add: fun_eq_iff dispatch_def)
  then show ?thesis using assms(4) by simp
qed

subsection \<open>Guards answer once\<close>

lemma responds_Auth:
  assumes "\<And>ctx. responds (next (r\<lparr>rq_context := ctx\<rparr>))"
  shows "responds (Auth x secret issuer audience reader next r)"
  unfolding responds_def
proof (intro allI impI)
  fix e
  assume e: "unsent e" "consistent e"
  show "consistent (snd (Auth x secret issuer audience reader next r e))
      \<and> same_records e (snd (Auth x secret issuer audience reader next r e))"
  proof (cases "authenticate x secret issuer audience reader r (ev_world e)")
    case (Pair res w')
    let ?e = "e\<lparr>ev_world := w'\<rparr>"
    show ?thesis
    proof (cases res)
      case (Inl message)
      with Pair e responds_Error [of 401 CodeUnauthorized message, unfolded responds_def, rule_format, of ?e]
      show ?thesis by (simp add: auth.guard auth_pass_def auth_deny_def same_records_def)
    next
      case (Inr cl)
      with Pair e assms [of "ContextWithClaims (rq_context r) (Some cl)", unfolded responds_def,
          rule_format, of ?e]
      show ?thesis by (simp add: auth.guard auth_pass_def same_records_def)
    qed
  qed
qed

lemma returns_Auth:
  assumes "\<And>ctx. returns (next (r\<lparr>rq_context := ctx\<rparr>))"
  shows "returns (Auth x secret issuer audience reader next r)"
  using assms
  by (auto simp: returns_def auth.guard auth_pass_def finish_def split: option.splits prod.splits sum.splits)

lemma responds_bearer: "responds (next r) \<Longrightarrow> responds (metricsBearerAuth token next r)"
  and returns_bearer: "returns (next r) \<Longrightarrow> returns (metricsBearerAuth token next r)"
  unfolding metricsBearerAuth_def
  by (intro responds_if responds_unauthorized, assumption)
     (intro returns_if returns_answers, assumption)

lemma responds_CORS:
  assumes "responds (next r)"
  shows "responds (CORS allowed next r)"
  unfolding responds_def
proof (intro allI impI)
  fix e
  assume e: "unsent e" "consistent e"
  let ?e = "cors_env allowed r e"
  have "unsent ?e \<and> consistent ?e \<and> same_records e ?e"
    using e by (simp add: cors_env_def cors_headers_def Let_def same_records_def)
  moreover have "consistent (write_header 204 ?e) \<and> same_records e (write_header 204 ?e)"
    using calculation by (auto simp: same_records_def consistent_def unsent_def writer_defs)
  ultimately show "consistent (snd (CORS allowed next r e)) \<and> same_records e (snd (CORS allowed next r e))"
    using assms [unfolded responds_def, rule_format, of ?e]
    by (auto simp: cors.guard finish_def same_records_def)
qed

lemma returns_CORS: "returns (next r) \<Longrightarrow> returns (CORS allowed next r)"
  by (simp add: returns_def cors.guard finish_def)

text \<open>The limiter hands on the request itself or with a body put back.\<close>

lemma counted_request:
  "snd (counted x rdb opts r) = r \<or> (\<exists>b. snd (counted x rdb opts r) = r\<lparr>rq_body := Some b\<rparr>)"
  by (auto simp: counted_def rateLimitKey_def requestEmail_def Let_def
      split: option.splits rate_limit_scope.splits prod.splits)

lemma responds_RateLimit:
  assumes "responds (next (snd (counted x rdb opts r)))"
  shows "responds (RateLimit x rdb opts next r)"
  unfolding responds_def
proof (intro allI impI)
  fix e
  assume e: "unsent e" "consistent e"
  obtain key r' where c: "counted x rdb opts r = (key, r')" by fastforce
  note n = assms [unfolded responds_def c snd_conv, rule_format]
  show "consistent (snd (RateLimit x rdb opts next r e)) \<and> same_records e (snd (RateLimit x rdb opts next r e))"
  proof (cases key)
    case None
    with c n [of e] e show ?thesis by (simp add: limiter.guard rate_pass_def)
  next
    case (Some k)
    obtain d w' where d: "rate_check k (policyForRequest r) (ev_world e) = (d, w')" by fastforce
    let ?e = "e\<lparr>ev_world := w'\<rparr>"
    note err = responds_Error [unfolded responds_def, rule_format, of ?e]
    show ?thesis
      using c Some d n [of ?e] e err [of 429 CodeRateLimited "''too many requests''"]
        err [of 503 CodeInternalError "''rate limiter unavailable''"]
      by (cases d) (simp_all add: limiter.guard rate_pass_def rate_deny_def same_records_def)
  qed
qed

lemma returns_RateLimit:
  "returns (next (snd (counted x rdb opts r))) \<Longrightarrow> returns (RateLimit x rdb opts next r)"
  by (auto simp: returns_def limiter.guard rate_pass_def finish_def
      split: option.splits prod.splits verdict.splits)

subsection \<open>Every route answers once\<close>

lemma health_answers:
  "responds (Healthz r)" "returns (Healthz r)" "responds (Readyz hl r)" "returns (Readyz hl r)"
proof -
  have frame: "responds k \<Longrightarrow> responds (\<lambda>e. k (e\<lparr>ev_world := g (ev_world e)\<rparr>))" for k g
    by (auto simp: responds_def same_records_def)
  show "responds (Healthz r)" "returns (Healthz r)"
    by (simp_all add: Healthz_def [abs_def] responds_JSON returns_finish)
  show "returns (Readyz hl r)"
    by (auto simp: returns_def Readyz_def finish_def Let_def split: prod.splits)
  show "responds (Readyz hl r)"
    unfolding responds_def
  proof (intro allI impI)
    fix e
    assume e: "unsent e" "consistent e"
    obtain d w1 where d: "check (hl_db hl) (ev_world e) = (d, w1)" by fastforce
    obtain c w2 where c: "check (hl_cache hl) w1 = (c, w2)" by fastforce
    show "consistent (snd (Readyz hl r e)) \<and> same_records e (snd (Readyz hl r e))"
      using e responds_Error [unfolded responds_def, rule_format, of "e\<lparr>ev_world := w2\<rparr>"]
        responds_JSON [unfolded responds_def, rule_format, of "e\<lparr>ev_world := w2\<rparr>"]
      by (auto simp: Readyz_def d c same_records_def Let_def)
  qed
qed

definition page_ok :: "handler \<Rightarrow> bool" where
  "page_ok h \<longleftrightarrow> (\<forall>r. responds (h r) \<and> returns (h r))"

lemma route_responds:
  assumes "page_ok prom" and "t \<in> set (rtr_routes (NewRouter x prom cfg reader rdb h))"
  shows "responds (foldr (\<lambda>m. m) (rte_stack t) (rte_handler t) r)"
  using assms
  by (auto simp: NewRouter_def route_defs page_ok_def health_answers handlers_respond forgot_responds
      responds_Auth responds_bearer split: if_splits)

lemma route_returns:
  assumes "page_ok prom" and "t \<in> set (rtr_routes (NewRouter x prom cfg reader rdb h))"
    and "rq_body r \<noteq> None"
  shows "returns (foldr (\<lambda>m. m) (rte_stack t) (rte_handler t) r)"
  using assms
  by (auto simp: NewRouter_def route_defs page_ok_def health_answers handlers_return forgot_returns
      returns_bearer split: if_splits intro!: returns_Auth)

lemma route_field: "responds k \<Longrightarrow> responds (\<lambda>e. k (e\<lparr>ev_route := p\<rparr>))"
  and route_field_returns: "returns k \<Longrightarrow> returns (\<lambda>e. k (e\<lparr>ev_route := p\<rparr>))"
  by (auto simp: responds_def returns_def same_records_def)

lemma dispatch_responds:
  assumes "chi_documented c" and "page_ok prom"
  shows "responds (dispatch c (rtr_routes (NewRouter x prom cfg reader rdb h)) r)"
proof (rule dispatch_all [where P = responds, OF assms(1) router_static])
  show "responds (chi_not_found c r)" and "responds (chi_not_allowed c r)"
    using assms(1) by (simp_all add: chi_documented_def answers_def)
qed (simp_all add: route_responds [OF assms(2)] route_field)

lemma dispatch_returns:
  assumes "chi_documented c" and "page_ok prom" and "rq_body r \<noteq> None"
  shows "returns (dispatch c (rtr_routes (NewRouter x prom cfg reader rdb h)) r)"
proof (rule dispatch_all [where P = returns, OF assms(1) router_static])
  show "returns (chi_not_found c r)" and "returns (chi_not_allowed c r)"
    using assms(1) by (simp_all add: chi_documented_def answers_def)
qed (simp_all add: route_returns [OF assms(2)] route_field_returns assms(3))

text \<open>
  So every request with a body to read, which all requests of a server have, returns and is logged
  once. Where method and route are taken as labels it is counted once, with the status the client
  gets; otherwise the metrics middleware panics after the answer, and \<open>Recover\<close> adds its own.
\<close>

definition new_env :: "world \<Rightarrow> env" where
  "new_env w = \<lparr>ev_world = w, ev_response = new_response, ev_writers = [], ev_log = [],
     ev_counts = [], ev_durations = [], ev_route = ''''\<rparr>"

lemma new_env_simps [simp]:
  "ev_world (new_env w) = w" "unsent (new_env w)" "consistent (new_env w)" "ev_writers (new_env w) = []"
  "ev_log (new_env w) = []" "ev_counts (new_env w) = []" "ev_durations (new_env w) = []"
  "ev_response (new_env w) = new_response" "ev_route (new_env w) = ''''"
  by (simp_all add: new_env_def unsent_def new_response_def consistent_def)

lemma serve_recorded:
  assumes "chi_documented c" and "page_ok prom" and "rq_body r \<noteq> None" and "labels_documented x"
  shows "\<exists>e ms status. serve c (NewRouter x prom cfg reader rdb h) r (new_env w) = (Returned, e)
    \<and> (if label_value_ok x (rq_method r) \<and> label_value_ok x (metric_route r e)
       then status = final_status (ev_response e)
         \<and> ev_log e = [RequestLog (rq_method r) (rq_path r) status ms (rq_remote_addr r)]
         \<and> ev_counts e = [(rq_method r, metric_route r e, status)]
       else final_status (ev_response e) \<in> {status, 500}
         \<and> ev_log e = [RequestLog (rq_method r) (rq_path r) status ms (rq_remote_addr r),
             PanicLog (rq_method r) (rq_path r) (\<not> isProductionEnv (cf_Env cfg))]
         \<and> ev_counts e = [])"
proof -
  let ?d = "dispatch c (rtr_routes (NewRouter x prom cfg reader rdb h))"
  let ?o = "\<lparr>TrustProxyHeaders = cf_TrustProxyHeaders cfg, TrustedProxies = map Some (cf_TrustedProxyCIDRs cfg)\<rparr>"
  let ?n = "CORS (cf_AllowedOrigins cfg) (RateLimit x rdb ?o ?d)"
  let ?e = "wrap_writer (new_env w)"
  have resp: "responds (?n r)"
    by (intro responds_CORS responds_RateLimit dispatch_responds assms)
  have "rq_body (snd (counted x rdb ?o r)) \<noteq> None"
    using counted_request [of x rdb ?o r] assms(3) by auto
  then have "returns (?n r)" by (intro returns_CORS returns_RateLimit dispatch_returns assms(1,2))
  then have ret: "fst (?n r (wrap_writer ?e)) = Returned" by (simp add: returns_def)
  from wrap_ok [of "new_env w"] have u: "unsent ?e" "consistent ?e" by simp_all
  from Logger_result [where nx = ?n, OF resp u ret] obtain e1 ms where l:
    "Logger ?n r ?e = (Returned, e1)" "consistent e1" "length (ev_writers e1) = 1"
    "ev_log e1 = [RequestLog (rq_method r) (rq_path r) (final_status (ev_response e1)) ms (rq_remote_addr r)]"
    "ev_counts e1 = []"
    by auto
  show ?thesis
  proof (cases "label_value_ok x (rq_method r) \<and> label_value_ok x (metric_route r e1)")
    case True
    have st: "label_value_ok x (decimal (final_status (ev_response e1)))"
      using assms(4) decimal_ascii by (simp add: labels_documented_def)
    from Metrics_result [where nx = "Logger ?n" and r = r and x = x, OF _ _ l(1,2) _ _ _ st] l(3) True obtain e2 where m:
      "Metrics x (Logger ?n) r (new_env w) = (Returned, e2)"
      "ev_counts e2 = ev_counts e1 @ [(rq_method r, metric_route r e1, final_status (ev_response e2))]"
      "ev_log e2 = ev_log e1" "ev_response e2 = ev_response e1" "ev_route e2 = ev_route e1"
      by auto
    moreover from m(5) have "metric_route r e2 = metric_route r e1" by (simp add: metric_route_def)
    ultimately show ?thesis
      using l True by (simp add: serve_stack [OF assms(1)] Recover_def)
  next
    case False
    with Metrics_panics [where nx = "Logger ?n" and r = r, OF l(1)]
    have "Metrics x (Logger ?n) r (new_env w) = (Panicked, e1)" by blast
    moreover define e2 where "e2 = Error 500 ''INTERNAL_ERROR'' ''an unexpected error occurred''
      (e1\<lparr>ev_writers := [], ev_log := ev_log e1 @ [PanicLog (rq_method r) (rq_path r) (\<not> isProductionEnv (cf_Env cfg))]\<rparr>)"
    ultimately have "serve c (NewRouter x prom cfg reader rdb h) r (new_env w) = (Returned, e2)"
      by (simp add: serve_stack [OF assms(1)] Recover_def finish_def)
    moreover have "final_status (ev_response e2) \<in> {final_status (ev_response e1), 500}"
      by (cases "unsent e1") (auto simp: e2_def unsent_def http_rules)
    ultimately show ?thesis
      using False l(4,5) by (auto simp: e2_def metric_route_def)
  qed
qed

end
