(* ===== verification/AccessTheorems.thy ===== *)
theory AccessTheorems
  imports PasswordTheorems RouterProps
begin

text \<open>
  The properties of the authentication middleware, and what the operations of the service mean for
  the access tokens it lets through.
\<close>

subsection \<open>Access tokens\<close>

text \<open>
  \<open>admitted ... r w c\<close>: the request carries a bearer token that validates to the claims
  \<open>c\<close>, and the user they name exists and has the token version of the claims.
\<close>

definition admitted ::
    "ext \<Rightarrow> string \<Rightarrow> string \<Rightarrow> string \<Rightarrow> request \<Rightarrow> world \<Rightarrow> claims \<Rightarrow> bool" where
  "admitted x secret issuer audience r w c \<longleftrightarrow> (\<exists>t i u.
     header_get r ''Authorization'' = ''Bearer '' @ t \<and> t \<noteq> ''''
     \<and> ValidateAccessToken x (app_now w) t secret issuer audience = Inr c
     \<and> uuid_parse x (cl_subject c) = Some i \<and> find_user i (db w) = Some u
     \<and> us_token_version u = cl_token_version c)"

lemma bearer_token_Inr: "bearer_token h = Inr t \<longleftrightarrow> h = ''Bearer '' @ t \<and> t \<noteq> ''''"
proof
  assume "bearer_token h = Inr t"
  then have p: "has_prefix h ''Bearer ''" and t: "t = drop 7 h" "t \<noteq> ''''"
    by (auto simp: bearer_token_def split: if_splits)
  have "length ''Bearer '' = 7" by simp
  with p have "take 7 h = ''Bearer ''" by (metis has_prefix_def)
  with t show "h = ''Bearer '' @ t \<and> t \<noteq> ''''" by (metis append_take_drop_id)
qed (simp add: bearer_token_def has_prefix_def)

lemma admitted_bearer:
  "admitted x secret issuer audience r w c \<longleftrightarrow> (\<exists>t i u.
     bearer_token (header_get r ''Authorization'') = Inr t
     \<and> ValidateAccessToken x (app_now w) t secret issuer audience = Inr c
     \<and> uuid_parse x (cl_subject c) = Some i \<and> find_user i (db w) = Some u
     \<and> us_token_version u = cl_token_version c)"
  by (simp only: admitted_def bearer_token_Inr conj_assoc)

lemma GetUserByID_healthy:
  "healthy w \<Longrightarrow> GetUserByID i w = (one_row (find_user i (db w)), next_fault w)"
  by (simp add: queries_healthy)

lemma authenticate_iff:
  assumes "healthy w"
  shows "authenticate x secret issuer audience (Some GetUserByID) r w = (Inr c, w') \<longleftrightarrow>
    admitted x secret issuer audience r w c \<and> w' = next_fault w"
  using assms
  by (auto simp: authenticate_def admitted_bearer current_version_def GetUserByID_healthy
      one_row_def split: sum.splits option.splits prod.splits bool.splits)

lemma authenticate_db:
  "db (snd (authenticate x secret issuer audience (Some GetUserByID) r w)) = db w"
  by (auto simp: authenticate_def current_version_def GetUserByID_def exec_eq
      split: sum.splits option.splits prod.splits bool.splits fault.splits)

text \<open>C10: The authentication middleware runs what lies behind it exactly for requests with a bearer
  token that validates, whose user exists and has the version the token was issued for; the
  identity behind it is that of the claims. Every other request is answered with 401, whatever
  lies behind, and the tables are only read.\<close>

theorem auth_middleware:
  assumes "healthy (ev_world e)"
  shows "if \<exists>c. admitted x secret issuer audience r (ev_world e) c
    then \<exists>c. admitted x secret issuer audience r (ev_world e) c \<and>
      (\<forall>nx. Auth x secret issuer audience (Some GetUserByID) nx r e =
        nx (r\<lparr>rq_context := ContextWithIdentity (rq_context r) (cl_subject c) (cl_org_id c) (cl_role c)\<rparr>)
           (e\<lparr>ev_world := next_fault (ev_world e)\<rparr>))
    else \<exists>e'. (\<forall>nx. Auth x secret issuer audience (Some GetUserByID) nx r e = (Returned, e'))
      \<and> db (ev_world e') = db (ev_world e) \<and> (unsent e \<longrightarrow> final_status (ev_response e') = 401)"
proof (cases "authenticate x secret issuer audience (Some GetUserByID) r (ev_world e)")
  case (Pair res w')
  show ?thesis
  proof (cases res)
    case (Inr c)
    with Pair authenticate_iff [OF assms] have "admitted x secret issuer audience r (ev_world e) c"
      and w': "w' = next_fault (ev_world e)" by auto
    then show ?thesis
      using Pair Inr by (auto simp: auth.guard auth_pass_def ContextWithClaims_def intro!: exI [of _ c])
  next
    case (Inl message)
    have none: "\<not> (\<exists>c. admitted x secret issuer audience r (ev_world e) c)"
    proof
      assume "\<exists>c. admitted x secret issuer audience r (ev_world e) c"
      then obtain c where "admitted x secret issuer audience r (ev_world e) c" ..
      with authenticate_iff [OF assms] Pair Inl show False by (metis Inl_Inr_False prod.inject)
    qed
    moreover have "db w' = db (ev_world e)"
      using authenticate_db [of x secret issuer audience r "ev_world e"] Pair by simp
    ultimately show ?thesis
      using Pair Inl by (auto simp: auth.guard auth_pass_def auth_deny_def finish_def http_rules unsent_def)
  qed
qed

text \<open>A request and a response to begin with, for the examples.\<close>

definition sample_request :: request where
  "sample_request = \<lparr>rq_method = ''GET'', rq_path = ''/api/v1/auth/me'', rq_headers = [],
     rq_remote_addr = ''10.0.0.7:4000'', rq_body = Some \<lparr>bd_bytes = '''', bd_fails = False\<rparr>,
     rq_context = [], rq_params = []\<rparr>"

definition with_bearer :: "string \<Rightarrow> request \<Rightarrow> request" where
  "with_bearer t r = r\<lparr>rq_headers := (''Authorization'', ''Bearer '' @ t) # rq_headers r\<rparr>"

lemma with_bearer_header [simp]: "header_get (with_bearer t r) ''Authorization'' = ''Bearer '' @ t"
  by (simp add: with_bearer_def header_get_def)

lemma sample_request_header [simp]: "header_get sample_request k = ''''"
  by (simp add: sample_request_def header_get_def)

lemma auth_middleware_witness:
  "\<exists>e'. Auth sample_ext ''key'' ''iss'' ''api'' (Some GetUserByID) (\<lambda>r e. (Panicked, e)) sample_request
      (new_env sample_world) = (Returned, e') \<and> final_status (ev_response e') = 401"
proof -
  have none: "\<not> (\<exists>c. admitted sample_ext ''key'' ''iss'' ''api'' sample_request (ev_world (new_env sample_world)) c)"
    by (simp add: admitted_def)
  have "healthy (ev_world (new_env sample_world))" by simp
  from auth_middleware [OF this, of sample_ext "''key''" "''iss''" "''api''" sample_request]
  show ?thesis unfolding if_not_P [OF none] by (meson new_env_simps(2))
qed

text \<open>A token that was issued for a version the user has left is refused from then on.\<close>

lemma stale_token_rejected:
  assumes "jwt_sound x" and "uuid_roundtrip x"
    and "signs x s v r role j now at" and "us_id v = i"
    and "find_user i (db (ev_world e)) = Some u" and "us_token_version v < us_token_version u"
    and "header_get rq ''Authorization'' = ''Bearer '' @ at"
  shows "\<exists>e'. \<forall>nx. Auth x (jwtSecret s) (jwtIssuer s) (jwtAudience s) (Some GetUserByID) nx rq e = (Returned, e')
    \<and> (unsent e \<longrightarrow> final_status (ev_response e') = 401)"
proof -
  let ?c = "issued_claims x (uuid_string x (us_id v)) (uuid_string x r) role (us_token_version v)
          (hex_encode j) (jwtIssuer s) (jwtAudience s) now (jwtExpiry s)"
  let ?a = "authenticate x (jwtSecret s) (jwtIssuer s) (jwtAudience s) (Some GetUserByID) rq (ev_world e)"
  have sign: "jwt_sign x (jwtSecret s) ?c = Some at" using assms(3) by (simp add: signs_def)
  have valid: "c = ?c" if "ValidateAccessToken x n at (jwtSecret s) (jwtIssuer s) (jwtAudience s) = Inr c" for n c
    using that sign assms(1)
    by (auto simp: ValidateAccessToken_def jwt_sound_def key_func_def split: option.splits if_splits)
  have "uuid_parse x (cl_subject ?c) = Some i"
    using assms(2,4) by (simp add: issued_claims_def uuid_roundtrip_def)
  moreover have "us_token_version u \<noteq> cl_token_version ?c" using assms(6) by (simp add: issued_claims_def)
  ultimately have stale: "fst (current_version x (Some GetUserByID) ?c w) = False"
    if "db w = db (ev_world e)" for w
    using that assms(5)
    by (auto simp: current_version_def GetUserByID_def exec_eq one_row_def
        split: sum.splits prod.splits fault.splits)
  have "\<exists>m. fst ?a = Inl m"
  proof (cases "bearer_token (header_get rq ''Authorization'')")
    case (Inl m)
    then show ?thesis by (simp add: authenticate_def)
  next
    case (Inr t)
    then have "t = at" using assms(7) by (simp add: bearer_token_Inr)
    then show ?thesis
      using Inr valid stale [OF refl]
      by (auto simp: authenticate_def split: sum.splits prod.splits bool.splits)
  qed
  then obtain m w' where "?a = (Inl m, w')" by (metis prod.collapse)
  then show ?thesis
    by (auto simp: auth.guard auth_pass_def auth_deny_def finish_def http_rules unsent_def)
qed

lemma rejected_if_stale:
  assumes "jwt_sound x" and "uuid_roundtrip x"
    and "signs x s v r role j now at" and "us_token_version v \<le> us_token_version u"
    and "find_user (us_id v) (db w1) = Some u1" and "us_token_version u < us_token_version u1"
    and "steps x s w1 (ev_world e)" and "header_get rq ''Authorization'' = ''Bearer '' @ at"
  shows "\<exists>e'. \<forall>nx. Auth x (jwtSecret s) (jwtIssuer s) (jwtAudience s) (Some GetUserByID) nx rq e = (Returned, e')
    \<and> (unsent e \<longrightarrow> final_status (ev_response e') = 401)"
proof -
  from steps_evolve [OF assms(7)] assms(5) obtain u2 where
    "find_user (us_id v) (db (ev_world e)) = Some u2" "us_token_version u1 \<le> us_token_version u2"
    unfolding db_le_def user_le_def by blast
  then show ?thesis using stale_token_rejected [OF assms(1,2,3) refl _ _ assms(8)] assms(4,6) by auto
qed

text \<open>C6: A logout ends access too: an access token that was issued to the user before, for any org and
  however long it is still valid, is answered with 401 by the authentication middleware in every
  later state, whatever calls fail there.\<close>

theorem logout_ends_access:
  assumes "jwt_sound x" and "uuid_roundtrip x" and "healthy w" and "db_ok x (db w)"
    and "live_token (db_now w) (hashOpaqueToken x t) (db w) = Some k"
    and "find_user (rt_user_id k) (db w) = Some u" and "us_token_version u < max_int32"
    and "signs x s v r role j now at" and "us_id v = rt_user_id k"
    and "us_token_version v \<le> us_token_version u"
    and "steps x s (snd (Logout x t w)) (ev_world e)"
    and "header_get rq ''Authorization'' = ''Bearer '' @ at"
  shows "\<exists>e'. \<forall>nx. Auth x (jwtSecret s) (jwtIssuer s) (jwtAudience s) (Some GetUserByID) nx rq e = (Returned, e')
    \<and> (unsent e \<longrightarrow> final_status (ev_response e') = 401)"
proof (rule rejected_if_stale [OF assms(1,2,8,10) _ _ assms(11,12)])
  show "find_user (us_id v) (db (snd (Logout x t w))) =
      Some (u\<lparr>us_token_version := us_token_version u + 1, us_updated_at := db_now w\<rparr>)"
    using Logout_live [OF assms(3-7)] assms(6,9) find_userD [OF assms(6)]
    by (auto simp: logged_out_users bump_row_def)
qed simp

lemma logout_ends_access_witness:
  "\<exists>at. signs sample_ext sample_service ann 2 ''admin'' ''j'' 0 at \<and>
     (\<exists>e'. Auth sample_ext ''key'' ''iss'' ''api'' (Some GetUserByID) (\<lambda>r e. (Panicked, e))
        (with_bearer at sample_request) (new_env (snd (Logout sample_ext ''tok'' sample_world))) = (Returned, e')
      \<and> final_status (ev_response e') = 401)"
proof -
  obtain at where at: "signs sample_ext sample_service ann 2 ''admin'' ''j'' 0 at" using sample_signs by blast
  have cfg: "jwtSecret sample_service = ''key''" "jwtIssuer sample_service = ''iss''"
    "jwtAudience sample_service = ''api''" by (simp_all add: sample_service_def NewService_def)
  from logout_ends_access [OF sample_jwt_sound sample_uuid_roundtrip _ _ _ _ _ at, of sample_world "''tok''"
      ann_token ann "new_env (snd (Logout sample_ext ''tok'' sample_world))" "with_bearer at sample_request"]
  show ?thesis using at by (auto simp: cfg max_int32_def steps_refl)
qed

text \<open>C14: A password reset ends access: an access token issued to the user before it is answered with
  401 in every later state.\<close>

theorem reset_ends_access:
  assumes "jwt_sound x" and "uuid_roundtrip x" and "healthy w" and "validatePassword x password = None"
    and "live_reset x w token = Some i" and "find_user i (db w) = Some u"
    and "rand_src w (rand_pos w) = Some salt" and "bcrypt_generate x salt password 12 = Some hash"
    and "version_left i (db w)"
    and "signs x s v r role j now at" and "us_id v = i" and "us_token_version v \<le> us_token_version u"
    and "steps x s (snd (ResetPassword x token password w)) (ev_world e)"
    and "header_get rq ''Authorization'' = ''Bearer '' @ at"
  shows "\<exists>e'. \<forall>nx. Auth x (jwtSecret s) (jwtIssuer s) (jwtAudience s) (Some GetUserByID) nx rq e = (Returned, e')
    \<and> (unsent e \<longrightarrow> final_status (ev_response e') = 401)"
proof (rule rejected_if_stale [OF assms(1,2,10,12) _ _ assms(13,14)])
  show "find_user (us_id v) (db (snd (ResetPassword x token password w))) =
      Some (u\<lparr>us_password_hash := hash, us_updated_at := db_now w, us_token_version := us_token_version u + 1\<rparr>)"
    using ResetPassword_live [OF assms(3-5,7-9)] password_changed_effect(1) [of i] assms(6,11) by simp
qed simp

lemma reset_ends_access_witness:
  "\<exists>at. signs sample_ext sample_service ann 2 ''admin'' ''j'' 0 at \<and>
     (\<exists>e'. Auth sample_ext ''key'' ''iss'' ''api'' (Some GetUserByID) (\<lambda>r e. (Panicked, e))
        (with_bearer at sample_request)
        (new_env (snd (ResetPassword sample_ext ''r'' ''N3wPassword!'' reset_world))) = (Returned, e')
      \<and> final_status (ev_response e') = 401)"
proof -
  obtain at where at: "signs sample_ext sample_service ann 2 ''admin'' ''j'' 0 at" using sample_signs by blast
  have cfg: "jwtSecret sample_service = ''key''" "jwtIssuer sample_service = ''iss''"
    "jwtAudience sample_service = ''api''" by (simp_all add: sample_service_def NewService_def)
  from reset_ends_access [OF sample_jwt_sound sample_uuid_roundtrip _ _ _ _ _ _ _ at, of reset_world
      "''N3wPassword!''" "''r''" 1 ann "[char_of (0::nat)]" "''N3wPassword!''"
      "new_env (snd (ResetPassword sample_ext ''r'' ''N3wPassword!'' reset_world))" "with_bearer at sample_request"]
  show ?thesis using at by (auto simp: cfg sample_hash_new steps_refl)
qed

text \<open>C23: The life of an access token: as long as its user has the version it was issued for, it
  admits requests, as that user in that org with that role, until the whole second in which its
  lifetime ends, and is refused from then on.\<close>

theorem access_token_lifetime:
  assumes "jwt_sound x" and "numeric_date_floor x" and "uuid_roundtrip x"
    and "signs x s v r role j now at" and "at \<noteq> ''''" and "healthy (ev_world e)"
    and "find_user (us_id v) (db (ev_world e)) = Some u" and "us_token_version u = us_token_version v"
    and "header_get rq ''Authorization'' = ''Bearer '' @ at"
  shows "if app_now (ev_world e) < (now + jwtExpiry s) div second * second
    then \<forall>nx. Auth x (jwtSecret s) (jwtIssuer s) (jwtAudience s) (Some GetUserByID) nx rq e =
      nx (rq\<lparr>rq_context := ContextWithIdentity (rq_context rq) (uuid_string x (us_id v)) (uuid_string x r) role\<rparr>)
         (e\<lparr>ev_world := next_fault (ev_world e)\<rparr>)
    else \<exists>e'. (\<forall>nx. Auth x (jwtSecret s) (jwtIssuer s) (jwtAudience s) (Some GetUserByID) nx rq e = (Returned, e'))
      \<and> (unsent e \<longrightarrow> final_status (ev_response e') = 401)"
proof -
  let ?c = "issued_claims x (uuid_string x (us_id v)) (uuid_string x r) role (us_token_version v)
          (hex_encode j) (jwtIssuer s) (jwtAudience s) now (jwtExpiry s)"
  let ?auth = "authenticate x (jwtSecret s) (jwtIssuer s) (jwtAudience s) (Some GetUserByID) rq (ev_world e)"
  have sign: "jwt_sign x (jwtSecret s) ?c = Some at" using assms(4) by (simp add: signs_def)
  have expires: "jwt_numeric_date x (now + jwtExpiry s) = (now + jwtExpiry s) div second"
    using assms(2) by (simp add: numeric_date_floor_def)
  have bearer: "bearer_token (header_get rq ''Authorization'') = Inr at"
    using assms(5,9) by (simp add: bearer_token_Inr)
  have valid: "ValidateAccessToken x n at (jwtSecret s) (jwtIssuer s) (jwtAudience s) =
      (if n < (now + jwtExpiry s) div second * second then Inr ?c else Inl (ErrJwt ''parse''))" for n
    using sign assms(1)
    by (simp add: ValidateAccessToken_def jwt_sound_def key_func_def issued_claims_def expires)
  show ?thesis
  proof (cases "app_now (ev_world e) < (now + jwtExpiry s) div second * second")
    case True
    then have "?auth = (Inr ?c, next_fault (ev_world e))"
      using authenticate_iff [OF assms(6)] valid bearer assms(3,7,8)
      by (auto simp: admitted_bearer issued_claims_def uuid_roundtrip_def)
    with True show ?thesis
      by (simp add: auth.guard auth_pass_def ContextWithClaims_def) (simp add: issued_claims_def)
  next
    case False
    then have "?auth = (Inl ''invalid or expired token'', ev_world e)"
      using valid bearer by (simp add: authenticate_def)
    with False show ?thesis
      by (auto simp: auth.guard auth_pass_def auth_deny_def finish_def http_rules unsent_def)
  qed
qed

lemma access_token_lifetime_witness:
  "\<exists>at. signs sample_ext sample_service ann 2 ''admin'' ''j'' 0 at \<and>
     (\<exists>e. Auth sample_ext ''key'' ''iss'' ''api'' (Some GetUserByID) (\<lambda>r e. (Panicked, e))
        (with_bearer at sample_request) (new_env sample_world) = (Panicked, e))"
proof -
  obtain at where at: "signs sample_ext sample_service ann 2 ''admin'' ''j'' 0 at" using sample_signs by blast
  have cfg: "jwtSecret sample_service = ''key''" "jwtIssuer sample_service = ''iss''"
    "jwtAudience sample_service = ''api''" "jwtExpiry sample_service = 15 * minute"
    by (simp_all add: sample_service_def NewService_def)
  have "at \<noteq> ''''" using at by (auto simp: signs_def sample_ext_def sample_sign_def claim_fields_def enc_nonempty)
  moreover have "numeric_date_floor sample_ext" by (simp add: numeric_date_floor_def sample_ext_def)
  ultimately show ?thesis
    using access_token_lifetime [OF sample_jwt_sound _ sample_uuid_roundtrip at, of "new_env sample_world" ann
        "with_bearer at sample_request"] at
    by (auto simp: cfg duration_units)
qed

end
