(* ===== verification/MiddlewareTheorems.thy ===== *)
theory MiddlewareTheorems
  imports AccessTheorems
begin

text \<open>
  The properties of the other middleware: authorization, the rate limiter and the client's
  address, recovery, CORS.
\<close>

subsection \<open>Authorization\<close>

text \<open>Access to an org: behind \<open>RequireOrgAccess\<close> runs exactly a request with an identity
  whose org is the one of the request; without an identity the answer is 401, without an org in
  the request 400, for any other org 403. Likewise \<open>RequireRole\<close> with the identity's role.\<close>

theorem authorization_decision:
  "RequireOrgAccess f nx r e = (case IdentityFromRequest r of
       None \<Rightarrow> (Returned, Error 401 CodeUnauthorized ''missing authenticated identity'' e)
     | Some i \<Rightarrow>
         if f r = (OrgID i, True) then nx r e
         else if snd (f r) \<and> fst (f r) \<noteq> '''' then (Returned, Error 403 CodeForbidden ''cannot access requested org'' e)
         else (Returned, Error 400 CodeBadRequest ''missing org id'' e))
   \<and> RequireRole roles nx r e = (case IdentityFromRequest r of
       None \<Rightarrow> (Returned, Error 401 CodeUnauthorized ''missing authenticated identity'' e)
     | Some i \<Rightarrow>
         if Role i \<in> set roles then nx r e
         else (Returned, Error 403 CodeForbidden ''insufficient permissions'' e))"
  by (auto simp: org_access.guard org_pass_def org_deny_def role.guard role_pass_def role_deny_def
      finish_def split: option.splits)

subsection \<open>The client's address\<close>

definition peer_host :: "request \<Rightarrow> string" where
  "peer_host r = (case split_host_port (rq_remote_addr r) of Some h \<Rightarrow> h | None \<Rightarrow> rq_remote_addr r)"

definition peer_trusted :: "request \<Rightarrow> client_ip_options \<Rightarrow> bool" where
  "peer_trusted r opts \<longleftrightarrow> TrustProxyHeaders opts
     \<and> (\<exists>a. parse_ip (peer_host r) = Some a \<and> isTrustedProxy a (TrustedProxies opts))"

lemma first_ip_found:
  "first_ip parts \<noteq> '''' \<Longrightarrow> first_ip parts \<in> trim_space ` set parts \<and> parse_ip (first_ip parts) \<noteq> None"
  by (induction parts) (auto simp: Let_def split: if_splits)

lemma clientIP_cases:
  "clientIP r opts =
    (if peer_trusted r opts
     then (let forwarded = firstForwardedIP (header_get r ''X-Forwarded-For'');
               realIP = trim_space (header_get r ''X-Real-Ip'')
           in if forwarded \<noteq> '''' then forwarded
              else if realIP \<noteq> '''' \<and> parse_ip realIP \<noteq> None then realIP
              else peer_host r)
     else peer_host r)"
  by (auto simp: clientIP_def peer_trusted_def peer_host_def Let_def split: option.splits)

text \<open>C40: The address a request is counted under is that of the peer unless the peer is a trusted
  proxy and proxy headers are enabled; then it may be one that a header gives, and is an IP
  address. A peer that is not trusted cannot change it by any header.\<close>

theorem client_ip_trust:
  "(clientIP r opts = peer_host r
    \<or> peer_trusted r opts \<and> parse_ip (clientIP r opts) \<noteq> None
      \<and> (clientIP r opts \<in> trim_space ` set (split_on CHR '','' (header_get r ''X-Forwarded-For''))
         \<or> clientIP r opts = trim_space (header_get r ''X-Real-Ip'')))
   \<and> (\<not> peer_trusted r opts \<longrightarrow> clientIP (r\<lparr>rq_headers := h\<rparr>) opts = peer_host r)"
proof
  show "clientIP r opts = peer_host r
    \<or> peer_trusted r opts \<and> parse_ip (clientIP r opts) \<noteq> None
      \<and> (clientIP r opts \<in> trim_space ` set (split_on CHR '','' (header_get r ''X-Forwarded-For''))
         \<or> clientIP r opts = trim_space (header_get r ''X-Real-Ip''))"
    using first_ip_found [of "split_on CHR '','' (header_get r ''X-Forwarded-For'')"]
    by (auto simp: clientIP_cases Let_def firstForwardedIP_def)
  have "peer_trusted (r\<lparr>rq_headers := h\<rparr>) opts = peer_trusted r opts"
    "peer_host (r\<lparr>rq_headers := h\<rparr>) = peer_host r"
    by (simp_all add: peer_trusted_def peer_host_def split: option.split)
  then show "\<not> peer_trusted r opts \<longrightarrow> clientIP (r\<lparr>rq_headers := h\<rparr>) opts = peer_host r"
    by (simp add: clientIP_cases)
qed

lemma client_ip_trust_witness:
  "clientIP (sample_request\<lparr>rq_headers := [(''X-Forwarded-For'', ''1.2.3.4'')]\<rparr>)
     \<lparr>TrustProxyHeaders = False, TrustedProxies = []\<rparr> = ''10.0.0.7''"
  using client_ip_trust [of sample_request "\<lparr>TrustProxyHeaders = False, TrustedProxies = []\<rparr>"
      "[(''X-Forwarded-For'', ''1.2.3.4'')]"]
  by (simp add: peer_trusted_def peer_host_def split_host_port_def last_colon_def sample_request_def)

subsection \<open>The rate limiter\<close>



text \<open>The verdict of the limiter on a counted request where Redis works: the request goes on
  exactly if the count with it is within the policy's limit, else the answer is 429 whatever lies
  behind. The first request of a window starts the count at 1 and sets the window's end, later
  ones leave the end where it is.\<close>

theorem rate_limit_verdict:
  assumes "healthy (ev_world e)" and "\<not> shouldSkipRateLimit (rq_path r)"
    and "rateLimitKey x r opts (policyForRequest r) = (Some key, r')" and "n < max_int64"
    and "live (redis_now (ev_world e)) (cache (ev_world e)) key = None \<and> n = 0
           \<and> until = redis_now (ev_world e) + milliseconds (pl_window (policyForRequest r))
      \<or> cache (ev_world e) key = Some (RInt n, Some until) \<and> redis_now (ev_world e) < until \<and> 1 \<le> n"
  shows "\<exists>w'. cache w' = (cache (ev_world e))(key \<mapsto> (RInt (n + 1), Some until))
    \<and> db w' = db (ev_world e)
    \<and> (\<forall>nx. RateLimit x True opts nx r e =
        (if n + 1 \<le> pl_limit (policyForRequest r) then nx r' (e\<lparr>ev_world := w'\<rparr>)
         else (Returned, Error 429 CodeRateLimited ''too many requests'' (e\<lparr>ev_world := w'\<rparr>))))"
proof -
  let ?p = "policyForRequest r" and ?w = "ev_world e"
  let ?w' = "next_fault ?w\<lparr>cache := (cache ?w)(key \<mapsto> (RInt (n + 1), Some until))\<rparr>"
  have "rate_check key ?p ?w = (if n + 1 > pl_limit ?p then Reject else Admit, ?w')"
    using assms(1,4,5) by (auto simp: rate_check_def redis_call_healthy script_first script_live)
  with assms(2,3) show ?thesis
    by (intro exI [of _ ?w'])
       (auto simp: limiter.guard rate_pass_def rate_deny_def counted_def finish_def)
qed

lemma rate_limit_verdict_witness:
  "\<exists>e. RateLimit sample_ext True \<lparr>TrustProxyHeaders = False, TrustedProxies = []\<rparr> (\<lambda>r e. (Panicked, e))
     sample_request (new_env sample_world) = (Panicked, e)"
proof -
  let ?o = "\<lparr>TrustProxyHeaders = False, TrustedProxies = []\<rparr>"
  have "policyForRequest sample_request = rate_policy ''default'' 100 minute RateLimitScopeIP"
    by (simp add: policyForRequest_def sample_request_def)
  moreover have "clientIP sample_request ?o = ''10.0.0.7''"
    by (simp add: clientIP_cases peer_trusted_def peer_host_def split_host_port_def last_colon_def
        sample_request_def)
  ultimately show ?thesis
    using rate_limit_verdict [of "new_env sample_world" sample_request sample_ext ?o
        "''ratelimit:default:ip:10.0.0.7''" sample_request 0 minute]
    by (auto simp: rateLimitKey_def rate_policy_def shouldSkipRateLimit_def sample_request_def live_def
        max_int64_def milliseconds_def duration_units)
qed

subsection \<open>Recovery\<close>

text \<open>Recovery: no panic leaves the middleware. A handler that returns is left alone; one that
  panics before it answered is answered with 500 and the error as JSON, one that panics later
  keeps the status it sent, and the panic is logged once, with the stack unless the environment
  is production in whatever case.\<close>

theorem recover_total:
  "case nx r e of
     (Returned, e') \<Rightarrow> Recover env nx r e = (Returned, e')
   | (Panicked, e') \<Rightarrow> \<exists>e''. Recover env nx r e = (Returned, e'')
       \<and> final_status (ev_response e'') = (if unsent e' then 500 else final_status (ev_response e'))
       \<and> (unsent e' \<longrightarrow> rs_body (ev_response e'') = rs_body (ev_response e')
            @ json_text (error_body ''INTERNAL_ERROR'' ''an unexpected error occurred'') @ [CHR 0x0A])
       \<and> ev_log e'' = ev_log e' @
            [PanicLog (rq_method r) (rq_path r) (map lower_byte env \<noteq> ''production'')]
       \<and> ev_world e'' = ev_world e'"
proof (cases "nx r e")
  case (Pair out e')
  show ?thesis
  proof (cases out)
    case Returned
    with Pair show ?thesis by (simp add: Recover_def)
  next
    case Panicked
    let ?e = "e'\<lparr>ev_writers := ev_writers e, ev_log := ev_log e' @
        [PanicLog (rq_method r) (rq_path r) (\<not> isProductionEnv env)]\<rparr>"
    have "unsent ?e = unsent e'" by (simp add: unsent_def)
    moreover have "isProductionEnv env \<longleftrightarrow> map lower_byte env = ''production''"
      by (simp add: isProductionEnv_def equal_fold_def lower_byte_def in_range_def)
    ultimately show ?thesis
      using Pair Panicked first_status(1) [of ?e] second_status [of ?e] first_body(1) [of ?e 500]
      by (auto simp: Recover_def finish_def)
  qed
qed

lemma recover_total_witness:
  "\<exists>e. Recover ''production'' (\<lambda>r e. (Panicked, e)) sample_request (new_env sample_world) = (Returned, e)
     \<and> final_status (ev_response e) = 500"
  using recover_total [where nx = "\<lambda>r e. (Panicked, e)" and r = sample_request
      and e = "new_env sample_world" and env = "''production''"]
  by auto

subsection \<open>CORS\<close>

text \<open>CORS: a preflight request is answered with 204 and goes no further; any other request goes
  on, with the allowed origin named in the response only if the request's origin is in the list.
  \<open>Vary: Origin\<close> is added in every case.\<close>

theorem cors_policy:
  "\<exists>e'. (\<forall>nx. CORS allowed nx r e =
       (if rq_method r = ''OPTIONS'' then (Returned, write_header 204 e') else nx r e'))
    \<and> rs_header (ev_response e') ''Access-Control-Allow-Origin'' =
        (if header_get r ''Origin'' \<in> trim_space ` set allowed then Some [header_get r ''Origin'']
         else rs_header (ev_response e) ''Access-Control-Allow-Origin'')
    \<and> (\<exists>vs. rs_header (ev_response e') ''Vary'' = Some (vs @ [''Origin'']))
    \<and> unsent e' = unsent e \<and> ev_world e' = ev_world e"
  by (intro exI [of _ "cors_env allowed r e"])
     (auto simp: cors.guard finish_def cors_env_def cors_headers_def Let_def header_set_def header_add_def
       unsent_def split: option.splits)

end
