(* ===== verification/NetworkTheorems.thy ===== *)
theory NetworkTheorems
  imports AccessTheorems
begin

text \<open>
  The properties of the addresses and e-mails the rate limiter works on.
\<close>

unbundle bit_operations_syntax

subsection \<open>Networks of trusted proxies\<close>









subsection \<open>The e-mail in the key\<close>

lemma concat_map_single: "concat (map (\<lambda>c. [c]) s) = s"
  by (induction s) simp_all

lemma trim_space_ascii:
  assumes "is_ascii s"
  shows "trim_space s = rev (dropWhile (\<lambda>c. is_space_rune (of_char c)) (rev (dropWhile (\<lambda>c. is_space_rune (of_char c)) s)))"
proof -
  have dw: "dropWhile (\<lambda>p. is_space_rune (fst p)) (map (\<lambda>c. (of_char c, [c])) t)
      = map (\<lambda>c. (of_char c, [c])) (dropWhile (\<lambda>c. is_space_rune (of_char c)) t)" for t
    by (induction t) auto
  show ?thesis
    by (simp add: trim_space_def trim_segments_def segments_ascii [OF assms] dw rev_map o_def concat_map_single)
qed

lemma ascii_lower: "is_ascii s \<Longrightarrow> is_ascii (map lower_byte s)"
  by (induction s) (simp_all add: is_ascii_lower_byte)

lemma ascii_dropWhile: "is_ascii s \<Longrightarrow> is_ascii (dropWhile P s)"
  by (induction s) auto

lemma ascii_rev [simp]: "is_ascii (rev s) = is_ascii s"
  by (auto simp: is_ascii_def list_all_iff)

lemma ascii_trim: "is_ascii s \<Longrightarrow> is_ascii (trim_space s)"
  by (simp add: trim_space_ascii ascii_dropWhile)

lemma dropWhile_lower:
  "dropWhile (\<lambda>c. is_space_rune (of_char c)) (map lower_byte s) =
     map lower_byte (dropWhile (\<lambda>c. is_space_rune (of_char c)) s)"
  by (induction s) (simp_all add: lower_byte_space)

lemma trim_lower: "is_ascii s \<Longrightarrow> trim_space (map lower_byte s) = map lower_byte (trim_space s)"
  by (simp add: trim_space_ascii ascii_lower rev_map dropWhile_lower)

text \<open>The limiter counts attempts on one account together: for an ASCII e-mail that the service
  accepts, the e-mail in the key is the normalised one under which the account is found, so all
  spellings of it share a counter.\<close>

theorem rate_key_email:
  assumes "normalizeEmail x e = Inr email" and "is_ascii e"
  shows "normalizeRateLimitEmail x e = email"
proof -
  from assms(1) have "email = to_lower (unicode x) (trim_space e)"
    by (auto simp: normalizeEmail_def Let_def split: if_splits option.splits)
  then show ?thesis
    using assms(2) by (simp add: normalizeRateLimitEmail_def to_lower_def ascii_trim trim_lower)
qed

lemma rate_key_email_witness: "normalizeRateLimitEmail sample_ext '' Ann@x.io'' = ''ann@x.io''"
  by (rule rate_key_email) simp_all

end
