(* ===== verification/JsonProps.thy ===== *)
theory JsonProps
  imports Json
begin

text \<open>
  What \<open>Encode\<close> writes \<open>Decode\<close> reads back: for values whose strings are ASCII the lexer
  turns the text into the tokens of the value, and the stack machine the tokens into the value.
\<close>

text \<open>The tokens a piece of text contributes, before those of the rest.\<close>

definition emit :: "token list \<Rightarrow> token list option \<Rightarrow> token list option" where
  "emit ts p = map_option ((@) ts) p"

lemma emit_emit [simp]: "emit a (emit b p) = emit (a @ b) p"
  by (cases p) (simp_all add: emit_def)

lemma emit_Nil [simp]: "emit [] p = p"
  by (cases p) (simp_all add: emit_def)

lemma emit_Some [simp]: "emit a (Some b) = Some (a @ b)"
  by (simp add: emit_def)

lemma lex_Cons: "lex s (r # rs) = (case lex_step s r of None \<Rightarrow> None | Some (s', ts) \<Rightarrow> emit ts (lex s' rs))"
  by (simp add: emit_def split: option.split)

declare lex.simps(2) [simp del]
declare lex_Cons [simp]

subsection \<open>Strings\<close>

definition small_unit :: "string_item \<Rightarrow> bool" where
  "small_unit i = (case i of Plain r \<Rightarrow> True | Unit u \<Rightarrow> u < 128)"

definition item_text :: "string_item \<Rightarrow> string" where
  "item_text i = (case i of Plain r \<Rightarrow> encode_rune r | Unit u \<Rightarrow> encode_rune u)"

lemma items_text_flat: "list_all small_unit is \<Longrightarrow> items_text is = concat (map item_text is)"
  by (induction "is" rule: items_text.induct) (auto simp: item_text_def small_unit_def in_range_def)

lemma encode_ascii: "r < 128 \<Longrightarrow> encode_rune r = [char_of r]"
  by (simp add: encode_rune_def in_range_def)

definition escape_char :: "char \<Rightarrow> string" where
  "escape_char c = escape_segment (of_char c, [c])"

lemma quote_ascii: "is_ascii s \<Longrightarrow> quote_text s = CHR 0x22 # concat (map escape_char s) @ [CHR 0x22]"
  by (simp add: quote_text_def segments_ascii escape_char_def [abs_def] o_def)

lemma hex_digit_rune:
  assumes "n < 16"
  shows "hex_rune_value (of_char (hex_digit n)) = Some n" and "(of_char (hex_digit n) :: nat) < 128"
proof -
  have "list_all (\<lambda>k. hex_rune_value (of_char (hex_digit k)) = Some k \<and> (of_char (hex_digit k) :: nat) < 128)
      [0..<16]"
    by code_simp
  then show "hex_rune_value (of_char (hex_digit n)) = Some n" and "(of_char (hex_digit n) :: nat) < 128"
    using assms by (simp_all add: list_all_iff)
qed

text \<open>One character of a string, escaped or not, is one item.\<close>

definition one_item :: "char \<Rightarrow> string_item \<Rightarrow> bool" where
  "one_item c i \<longleftrightarrow> small_unit i \<and> item_text i = [c]
     \<and> (\<forall>is rest. lex (InStr is) (map of_char (escape_char c) @ rest) = lex (InStr (i # is)) rest)"

lemma one_item_special:
  assumes "(of_char c :: nat) \<in> {34, 92, 8, 12, 10, 13, 9}"
  shows "one_item c (Plain (of_char c))"
proof -
  have "c = char_of (of_char c :: nat)" by simp
  with assms have "c \<in> char_of ` {34, 92, 8, 12, 10, 13, 9 :: nat}" by blast
  then show ?thesis
    by (auto simp: one_item_def small_unit_def item_text_def encode_ascii escape_char_def
        escape_segment_def simple_escape_def)
qed

lemma one_item_unicode:
  assumes r: "r = of_char c" and "r < 32 \<or> r = 60 \<or> r = 62 \<or> r = 38" and "r \<notin> {34, 92, 8, 12, 10, 13, 9}"
  shows "one_item c (Unit r)"
proof -
  have "r < 128" using assms(2) by auto
  then have "r div 16 < 16" "r mod 16 < 16" by auto
  moreover have "escape_char c = CHR 0x5C # ''u00'' @ [hex_digit (r div 16), hex_digit (r mod 16)]"
    using assms by (auto simp: escape_char_def escape_segment_def)
  ultimately show ?thesis
    using \<open>r < 128\<close> r hex_digit_rune [of "r div 16"] hex_digit_rune [of "r mod 16"]
    by (simp add: one_item_def small_unit_def item_text_def encode_ascii hex_rune_value_def in_range_def
        split: option.splits)
qed

lemma one_item_plain:
  assumes "r = of_char c" and "32 \<le> r" and "r < 128" and "r \<notin> {34, 92, 60, 62, 38}"
  shows "one_item c (Plain r)"
proof -
  have "escape_char c = [c]" using assms by (auto simp: escape_char_def escape_segment_def rune_error_def)
  then show ?thesis
    using assms by (simp add: one_item_def small_unit_def item_text_def encode_ascii)
qed

lemma one_item_exists:
  assumes "(of_char c :: nat) < 128"
  shows "\<exists>i. one_item c i"
proof -
  let ?r = "of_char c :: nat"
  consider "?r \<in> {34, 92, 8, 12, 10, 13, 9}"
    | "?r < 32 \<or> ?r = 60 \<or> ?r = 62 \<or> ?r = 38" "?r \<notin> {34, 92, 8, 12, 10, 13, 9}"
    | "32 \<le> ?r" "?r \<notin> {34, 92, 60, 62, 38}" by fastforce
  then show ?thesis
    using one_item_special one_item_unicode [OF refl] one_item_plain [OF refl _ assms] by cases blast+
qed

lemma lex_string:
  assumes "is_ascii s" and "list_all small_unit is"
  shows "lex (InStr is) (map of_char (concat (map escape_char s)) @ 34 # rest) =
    emit [TStr (concat (map item_text (rev is)) @ s)] (lex Ready rest)"
  using assms
proof (induction s arbitrary: "is")
  case Nil
  then show ?case by (simp add: items_text_flat)
next
  case (Cons c s)
  then obtain i where i: "one_item c i" using one_item_exists by auto
  then have "lex (InStr is) (map of_char (concat (map escape_char (c # s))) @ 34 # rest) =
      lex (InStr (i # is)) (map of_char (concat (map escape_char s)) @ 34 # rest)"
    by (simp add: one_item_def)
  also have "\<dots> = emit [TStr (concat (map item_text (rev (i # is))) @ s)] (lex Ready rest)"
    using Cons i by (intro Cons.IH) (simp_all add: one_item_def)
  finally show ?case using i by (simp add: one_item_def)
qed

subsection \<open>Numbers\<close>

fun num_run :: "num_state \<Rightarrow> string \<Rightarrow> num_state option" where
  "num_run n [] = Some n"
| "num_run n (c # cs) = (case num_next n (of_char c) of None \<Rightarrow> None | Some n' \<Rightarrow> num_run n' cs)"

definition num_ok :: "string \<Rightarrow> bool" where
  "num_ok s \<longleftrightarrow> is_ascii s \<and> (\<exists>c cs n n'. s = c # cs
     \<and> start_token (of_char c) = Some (InNum [c] n, []) \<and> num_run n cs = Some n' \<and> num_final n')"

text \<open>What follows a value in a text: nothing, a comma, a closing bracket or a space.\<close>

definition stops :: "rune list \<Rightarrow> bool" where
  "stops rest \<longleftrightarrow> rest = [] \<or> hd rest \<in> {44, 93, 125, 32}"

lemma lex_num_run:
  assumes "num_run n cs = Some n'" and "num_final n'" and "stops rest"
  shows "lex (InNum ds n) (map of_char cs @ rest) =
    emit [Lit (JNum (rev ds @ cs))] (lex Ready rest)"
  using assms(1)
proof (induction cs arbitrary: ds n)
  case Nil
  then have fin: "num_final n" using assms(2) by simp
  show ?case
  proof (cases rest)
    case Nil
    then show ?thesis using fin by (simp add: num_token_def)
  next
    case (Cons r rs)
    then have r: "r = 44 \<or> r = 93 \<or> r = 125 \<or> r = 32" using assms(3) by (auto simp: stops_def)
    then have "num_next n r = None" using fin
      by (auto simp: num_final_def num_next_def is_digit_r_def in_range_def)
    then show ?thesis using r Cons fin
      by (auto simp: start_token_def is_json_space_def num_token_def option.map_comp o_def)
  qed
next
  case (Cons c cs)
  then obtain m where "num_next n (of_char c) = Some m" "num_run m cs = Some n'"
    by (auto split: option.splits)
  with Cons.IH [of m "c # ds"] show ?case by simp
qed

lemma lex_num:
  assumes "num_ok s" and "stops rest"
  shows "lex Ready (map of_char s @ rest) = emit [Lit (JNum s)] (lex Ready rest)"
proof -
  from assms(1) obtain c cs n n' where s: "s = c # cs" "start_token (of_char c) = Some (InNum [c] n, [])"
    "num_run n cs = Some n'" "num_final n'" by (auto simp: num_ok_def)
  with s lex_num_run [OF s(3,4) assms(2), of "[c]"] show ?thesis by simp
qed

subsection \<open>Texts and tokens\<close>

fun json_ok :: "json \<Rightarrow> bool" where
  "json_ok JNull = True"
| "json_ok (JBool b) = True"
| "json_ok (JNum n) = num_ok n"
| "json_ok (JStr s) = is_ascii s"
| "json_ok (JArr vs) = (\<forall>v \<in> set vs. json_ok v)"
| "json_ok (JObj ms) = (\<forall>m \<in> set ms. is_ascii (fst m) \<and> json_ok (snd m))"

definition separate :: "token list list \<Rightarrow> token list" where
  "separate tss = (case tss of [] \<Rightarrow> [] | ts # tss' \<Rightarrow> ts @ concat (map ((#) Comma) tss'))"

fun tokens :: "json \<Rightarrow> token list" where
  "tokens JNull = [Lit JNull]"
| "tokens (JBool b) = [Lit (JBool b)]"
| "tokens (JNum n) = [Lit (JNum n)]"
| "tokens (JStr s) = [TStr s]"
| "tokens (JArr vs) = LBrack # separate (map tokens vs) @ [RBrack]"
| "tokens (JObj ms) = LBrace # separate (map (\<lambda>(k, v). TStr k # Colon # tokens v) ms) @ [RBrace]"

definition reads :: "string \<Rightarrow> token list \<Rightarrow> bool" where
  "reads s ts \<longleftrightarrow> (\<forall>rest. stops rest \<longrightarrow>
     lex Ready (map of_char s @ rest) = emit ts (lex Ready rest))"

lemma readsD: "reads s ts \<Longrightarrow> stops rest \<Longrightarrow>
    lex Ready (map of_char s @ rest) = emit ts (lex Ready rest)"
  by (simp add: reads_def)

lemma join_with_Cons: "join_with sep (s # ss) = s @ concat (map (\<lambda>t. sep @ t) ss)"
  by (induction ss arbitrary: s) simp_all

lemma lex_punctuation:
  "lex Ready (123 # rest) = emit [LBrace] (lex Ready rest)"
  "lex Ready (125 # rest) = emit [RBrace] (lex Ready rest)"
  "lex Ready (91 # rest) = emit [LBrack] (lex Ready rest)"
  "lex Ready (93 # rest) = emit [RBrack] (lex Ready rest)"
  "lex Ready (58 # rest) = emit [Colon] (lex Ready rest)"
  "lex Ready (44 # rest) = emit [Comma] (lex Ready rest)"
  by (simp_all add: start_token_def is_json_space_def)

lemma lex_quote:
  assumes "is_ascii s"
  shows "lex Ready (map of_char (quote_text s) @ rest) = emit [TStr s] (lex Ready rest)"
proof -
  have "start_token 34 = Some (InStr [], [])" by (simp add: start_token_def is_json_space_def)
  then show ?thesis
    using lex_string [OF assms, of "[]" rest] by (simp add: quote_ascii [OF assms])
qed

lemma stops_rest:
  assumes "stops rest" and "rest \<noteq> []"
  shows "stops (map of_char (concat (map (\<lambda>x. '','' @ t x) xs)) @ rest)"
  using assms by (cases xs) (auto simp: stops_def)

lemma reads_tail:
  assumes "\<And>x. x \<in> set xs \<Longrightarrow> reads (t x) (k x)" and "stops rest" and "rest \<noteq> []"
  shows "lex Ready (map of_char (concat (map (\<lambda>x. '','' @ t x) xs)) @ rest) =
    emit (concat (map (\<lambda>x. Comma # k x) xs)) (lex Ready rest)"
  using assms(1)
proof (induction xs)
  case (Cons x xs)
  then have "reads (t x) (k x)" by simp
  from readsD [OF this stops_rest [OF assms(2,3), of t xs]] Cons show ?case
    by (simp add: lex_punctuation del: lex_Cons)
qed simp

lemma reads_join:
  assumes "\<And>x. x \<in> set xs \<Longrightarrow> reads (t x) (k x)" and "stops rest" and "rest \<noteq> []"
  shows "lex Ready (map of_char (join_with '','' (map t xs)) @ rest) =
    emit (separate (map k xs)) (lex Ready rest)"
proof (cases xs)
  case Nil
  then show ?thesis by (simp add: separate_def)
next
  case (Cons x ys)
  have "reads (t x) (k x)" using assms(1) Cons by simp
  from readsD [OF this stops_rest [OF assms(2,3), of t ys]]
  have "lex Ready (map of_char (t x @ concat (map (\<lambda>x. '','' @ t x) ys)) @ rest) =
      emit (k x @ concat (map (\<lambda>x. Comma # k x) ys)) (lex Ready rest)"
    using reads_tail [of ys t k rest] assms Cons by simp
  moreover have "join_with '','' (map t xs) = t x @ concat (map (\<lambda>x. '','' @ t x) ys)"
    using Cons by (simp only: list.map join_with_Cons map_map o_def)
  moreover have "separate (map k xs) = k x @ concat (map (\<lambda>x. Comma # k x) ys)"
    using Cons by (simp add: separate_def o_def)
  ultimately show ?thesis by simp
qed

lemma lex_member:
  assumes "is_ascii k" and "reads s ts"
  shows "reads (quote_text k @ '':'' @ s) (TStr k # Colon # ts)"
proof -
  have "lex Ready (map of_char (quote_text k @ '':'' @ s) @ rest) = emit (TStr k # Colon # ts) (lex Ready rest)"
    if "stops rest" for rest
    using readsD [OF assms(2) that] by (simp add: lex_quote [OF assms(1)] lex_punctuation del: lex_Cons)
  then show ?thesis by (simp add: reads_def)
qed

lemma reads_json: "json_ok v \<Longrightarrow> reads (json_text v) (tokens v)"
proof (induction v rule: json_ok.induct)
  case (3 n)
  then show ?case using lex_num by (simp add: reads_def)
next
  case (4 s)
  then show ?case using lex_quote by (simp add: reads_def)
next
  case (5 vs)
  have "lex Ready (map of_char (join_with '','' (map json_text vs)) @ 93 # rest) =
      emit (separate (map tokens vs)) (lex Ready (93 # rest))" for rest
    using 5 by (intro reads_join) (auto simp: stops_def)
  then show ?case by (simp add: reads_def lex_punctuation del: lex_Cons)
next
  case (6 ms)
  let ?t = "\<lambda>(k, v). quote_text k @ '':'' @ json_text v" and ?k = "\<lambda>(k, v). TStr k # Colon # tokens v"
  have member: "reads (?t m) (?k m)" if "m \<in> set ms" for m
  proof -
    obtain k v where m: "m = (k, v)" by fastforce
    then have "is_ascii k" and "reads (json_text v) (tokens v)" using 6 that by auto
    then show ?thesis using lex_member m by simp
  qed
  have "lex Ready (map of_char (join_with '','' (map ?t ms)) @ 125 # rest) =
      emit (separate (map ?k ms)) (lex Ready (125 # rest))" for rest
    by (intro reads_join member) (auto simp: stops_def)
  then show ?case by (simp add: reads_def lex_punctuation del: lex_Cons)
qed (simp_all add: reads_def start_token_def is_json_space_def)

subsection \<open>Tokens and values\<close>

text \<open>A value that nests at most so deep.\<close>

fun nests :: "nat \<Rightarrow> json \<Rightarrow> bool" where
  "nests (Suc d) (JArr vs) = (\<forall>v \<in> set vs. nests d v)"
| "nests (Suc d) (JObj ms) = (\<forall>m \<in> set ms. nests d (snd m))"
| "nests 0 (JArr vs) = False"
| "nests 0 (JObj ms) = False"
| "nests d v = True"

definition parses :: "json \<Rightarrow> bool" where
  "parses v \<longleftrightarrow> (\<forall>st rest. nests (maxNestingDepth - length st) v \<longrightarrow>
     parse_tokens (st, WantValue) (tokens v @ rest) = parse_tokens (deliver st v) rest)"

lemma parsesD: "parses v \<Longrightarrow> nests (maxNestingDepth - length st) v \<Longrightarrow>
    parse_tokens (st, WantValue) (tokens v @ rest) = parse_tokens (deliver st v) rest"
  by (simp add: parses_def)

lemma deliver_frame:
  "deliver (ArrFrame vs # st) v = (ArrFrame (v # vs) # st, AfterValue)"
  "deliver (ObjFrame ms k # st) v = (ObjFrame ((k, v) # ms) k # st, AfterValue)"
  "deliver [] v = ([], Complete v)"
  by (simp_all add: deliver_def)

lemma parse_elements:
  assumes "\<And>v. v \<in> set vs \<Longrightarrow> parses v \<and> nests (maxNestingDepth - Suc (length st)) v"
  shows "parse_tokens (ArrFrame acc # st, AfterValue) (concat (map (\<lambda>v. Comma # tokens v) vs) @ RBrack # rest)
    = parse_tokens (deliver st (JArr (rev acc @ vs))) rest"
  using assms by (induction vs arbitrary: acc) (simp_all add: parsesD deliver_frame)

lemma parse_members:
  assumes "\<And>m. m \<in> set ms \<Longrightarrow> parses (snd m) \<and> nests (maxNestingDepth - Suc (length st)) (snd m)"
  shows "parse_tokens (ObjFrame acc k # st, AfterValue)
      (concat (map (\<lambda>m. Comma # TStr (fst m) # Colon # tokens (snd m)) ms) @ RBrace # rest)
    = parse_tokens (deliver st (JObj (rev acc @ ms))) rest"
  using assms by (induction ms arbitrary: acc k) (simp_all add: parsesD deliver_frame)

text \<open>After an opening bracket a value is read as anywhere else.\<close>

lemma parse_first:
  "parse_tokens (ArrFrame [] # st, WantValueOrEnd) (tokens v @ rest) =
   parse_tokens (ArrFrame [] # st, WantValue) (tokens v @ rest)"
  by (cases v) simp_all

lemma parses_json: "parses v"
proof (induction v rule: tokens.induct)
  case (5 vs)
  have "parse_tokens (st, WantValue) (tokens (JArr vs) @ rest) = parse_tokens (deliver st (JArr vs)) rest"
    if fits: "nests (maxNestingDepth - length st) (JArr vs)" for st rest
  proof -
    from fits obtain d where d: "maxNestingDepth - length st = Suc d" by (cases "maxNestingDepth - length st") auto
    then have "maxNestingDepth - Suc (length st) = d" and room: "length st < maxNestingDepth" by linarith+
    with 5 fits d have elements: "\<And>v. v \<in> set vs \<Longrightarrow> parses v \<and> nests (maxNestingDepth - Suc (length st)) v"
      by simp
    show ?thesis
    proof (cases vs)
      case Nil
      with room show ?thesis by (simp add: separate_def value_step_def)
    next
      case (Cons u us)
      then have "parse_tokens (ArrFrame [] # st, WantValue) (tokens u @ more) =
          parse_tokens (ArrFrame [u] # st, AfterValue) more" for more
        using elements [of u] parsesD [of u "ArrFrame [] # st" more] by (simp add: deliver_frame)
      with Cons room elements parse_elements [of us st "[u]" rest] show ?thesis
        by (simp add: separate_def value_step_def parse_first o_def)
    qed
  qed
  then show ?case by (simp add: parses_def)
next
  case (6 ms)
  have "parse_tokens (st, WantValue) (tokens (JObj ms) @ rest) = parse_tokens (deliver st (JObj ms)) rest"
    if fits: "nests (maxNestingDepth - length st) (JObj ms)" for st rest
  proof -
    from fits obtain d where d: "maxNestingDepth - length st = Suc d" by (cases "maxNestingDepth - length st") auto
    then have "maxNestingDepth - Suc (length st) = d" and room: "length st < maxNestingDepth" by linarith+
    with 6 fits d have members: "\<And>m. m \<in> set ms \<Longrightarrow>
        parses (snd m) \<and> nests (maxNestingDepth - Suc (length st)) (snd m)"
      by (metis nests.simps(2) prod.collapse)
    show ?thesis
    proof (cases ms)
      case Nil
      with room show ?thesis by (simp add: separate_def value_step_def)
    next
      case (Cons m us)
      obtain k u where m: "m = (k, u)" by fastforce
      then have "parse_tokens (ObjFrame [] k # st, WantValue) (tokens u @ more) =
          parse_tokens (ObjFrame [(k, u)] k # st, AfterValue) more" for more
        using members [of m] Cons parsesD [of u "ObjFrame [] k # st" more] by (simp add: deliver_frame)
      with Cons m room members parse_members [of us st "[(k, u)]" k rest] show ?thesis
        by (simp add: separate_def value_step_def o_def case_prod_beta)
    qed
  qed
  then show ?case by (simp add: parses_def)
qed (simp_all add: parses_def value_step_def)

lemma is_ascii_append [simp]: "is_ascii (s @ t) \<longleftrightarrow> is_ascii s \<and> is_ascii t"
  by (simp add: is_ascii_def)

lemma is_ascii_concat: "is_ascii (concat ss) \<longleftrightarrow> (\<forall>s \<in> set ss. is_ascii s)"
  by (induction ss) simp_all

lemma is_ascii_join: "(\<And>s. s \<in> set ss \<Longrightarrow> is_ascii s) \<Longrightarrow> is_ascii (join_with '','' ss)"
  by (cases ss) (auto simp: join_with_Cons is_ascii_concat)

lemma escape_char_ascii: "(of_char c :: nat) < 128 \<Longrightarrow> is_ascii (escape_char c)"
  by (auto simp: escape_char_def escape_segment_def hex_digit_rune rune_error_def)

lemma quote_text_ascii: "is_ascii s \<Longrightarrow> is_ascii (quote_text s)"
proof -
  assume s: "is_ascii s"
  then have "\<forall>c \<in> set s. is_ascii (escape_char c)"
    by (auto simp: is_ascii_def list_all_iff intro!: escape_char_ascii [unfolded is_ascii_def list_all_iff])
  then show ?thesis by (simp add: quote_ascii [OF s] is_ascii_concat)
qed

lemma json_text_ascii: "json_ok v \<Longrightarrow> is_ascii (json_text v)"
  by (induction v rule: json_ok.induct) (fastforce simp: num_ok_def intro!: is_ascii_join quote_text_ascii)+

lemma lex_spaces: "lex Ready (replicate k 32) = Some []"
  by (induction k) (simp_all add: start_token_def is_json_space_def)

text \<open>Spaces may follow the value.\<close>

lemma parse_json_padded:
  assumes "json_ok v" and "nests maxNestingDepth v"
  shows "parse_json (json_text v @ replicate k CHR '' '') = Some v"
proof -
  have "is_ascii (json_text v @ replicate k CHR '' '')"
    using json_text_ascii [OF assms(1)] by (auto simp: is_ascii_def list_all_iff)
  moreover have "stops (replicate k 32)" by (cases k) (simp_all add: stops_def)
  ultimately have "lex Ready (runes (json_text v @ replicate k CHR '' '')) = Some (tokens v)"
    using readsD [OF reads_json [OF assms(1)]] by (simp add: runes_ascii lex_spaces)
  moreover have "parse_tokens ([], WantValue) (tokens v) = Some v"
    using parsesD [OF parses_json, of "[]" v "[]"] assms(2) by (simp add: deliver_frame)
  ultimately show ?thesis by (simp add: parse_json_def)
qed

lemma parse_json_text:
  "json_ok v \<Longrightarrow> nests maxNestingDepth v \<Longrightarrow> parse_json (json_text v) = Some v"
  using parse_json_padded [of v 0] by simp

end
