(* ===== verification/HandlerTheorems.thy ===== *)
theory HandlerTheorems
  imports AccessTheorems JsonProps RateLimit
begin

text \<open>
  The properties of the handlers of \<open>internal/auth/handler.go\<close>, and the request bodies for
  their examples: what an encoder writes the strict decoder reads.
\<close>

subsection \<open>Request bodies\<close>

definition field_members :: "string list \<Rightarrow> (string \<Rightarrow> string) \<Rightarrow> (string \<times> json) list" where
  "field_members names f = map (\<lambda>n. (n, JStr (f n))) names"

definition request_body :: "string list \<Rightarrow> (string \<Rightarrow> string) \<Rightarrow> body" where
  "request_body names f = \<lparr>bd_bytes = json_text (JObj (field_members names f)), bd_fails = False\<rparr>"

lemma decode_members_fields:
  "set ns \<subseteq> set names \<Longrightarrow>
    decode_members strict names (field_members ns f) g = Some (\<lambda>n. if n \<in> set ns then f n else g n)"
proof (induction ns arbitrary: g)
  case (Cons n ns)
  then have "match_field names n = Some n" by (simp add: match_field_def)
  moreover have "(\<lambda>k. if k \<in> set ns then f k else (g(n := f n)) k) =
      (\<lambda>k. if k \<in> set (n # ns) then f k else g k)" by (auto simp: fun_eq_iff)
  ultimately show ?case using Cons by (simp add: field_members_def)
qed (simp add: field_members_def)

lemma fields_parse:
  assumes "\<forall>n \<in> set names. is_ascii n \<and> is_ascii (f n)"
  shows "parse_json (json_text (JObj (field_members names f)) @ replicate k CHR '' '')
    = Some (JObj (field_members names f))"
proof (rule parse_json_padded)
  show "json_ok (JObj (field_members names f))" using assms by (auto simp: field_members_def)
  obtain d where d: "maxNestingDepth = Suc d" by (cases maxNestingDepth) (auto simp: maxNestingDepth_def)
  have "nests d (JStr s)" for s by (cases d) simp_all
  then show "nests maxNestingDepth (JObj (field_members names f))" unfolding d by (auto simp: field_members_def)
qed

lemma decode_padded_fields:
  assumes "\<forall>n \<in> set ns. is_ascii n \<and> is_ascii (f n)" and "set ns \<subseteq> set names"
  shows "decode_struct True names (json_text (JObj (field_members ns f)) @ replicate k CHR '' '')
    = Some (\<lambda>n. if n \<in> set ns then f n else '''')"
  using fields_parse [OF assms(1), of k] assms(2)
  by (simp add: decode_struct_def decode_members_fields del: json_text.simps)

lemma decode_fields:
  assumes "\<forall>n \<in> set ns. is_ascii n \<and> is_ascii (f n)" and "set ns \<subseteq> set names"
  shows "decode_struct True names (json_text (JObj (field_members ns f)))
    = Some (\<lambda>n. if n \<in> set ns then f n else '''')"
  using decode_padded_fields [OF assms, of 0] by simp



subsection \<open>Handlers\<close>

text \<open>C37: Nothing in the answer to a reset request depends on the account: for every readable request
  body, well-formed or not, every service and every result of it, the response is the same.\<close>

theorem forgot_password_response:
  assumes "rq_body r \<noteq> None" and "rq_body r2 \<noteq> None" and "ev_response e = ev_response e2"
  shows "ev_response (snd (handle_ForgotPassword x sv r e)) = ev_response (snd (handle_ForgotPassword x sv2 r2 e2))
    \<and> (unsent e \<longrightarrow> final_status (ev_response (snd (handle_ForgotPassword x sv r e))) = 200)"
proof -
  have answer: "ev_response (snd (handle_ForgotPassword x sv r e)) = ev_response (JSON 200 forgot_message e)"
    if "rq_body r \<noteq> None" for sv r e
  proof -
    have same: "ev_response (JSON 200 j (e\<lparr>ev_world := w\<rparr>)) = ev_response (JSON 200 j e)" for j w
      by (simp add: JSON_def writer_defs Let_def)
    have "decodeJSONStrict [''email''] (rq_body r) \<noteq> DecodePanic" by (rule decode_returns [OF that])
    then show ?thesis
      by (cases "decodeJSONStrict [''email''] (rq_body r)")
         (simp_all add: handle_ForgotPassword_def with_world_def finish_def same Let_def split: prod.split)
  qed
  have "ev_response (JSON 200 forgot_message e) = ev_response (JSON 200 forgot_message e2)"
    using assms(3) by (simp add: JSON_def writer_defs Let_def)
  moreover have "unsent e \<longrightarrow> final_status (ev_response (JSON 200 forgot_message e)) = 200"
    by (simp add: http_rules)
  ultimately show ?thesis by (simp add: answer [OF assms(1)] answer [OF assms(2)])
qed

lemma forgot_password_response_witness:
  "ev_response (snd (handle_ForgotPassword sample_ext (service_servicer sample_ext sample_service)
       sample_request (new_env sample_world))) =
   ev_response (snd (handle_ForgotPassword sample_ext (service_servicer sample_ext sample_service)
       (sample_request\<lparr>rq_body := Some \<lparr>bd_bytes = ''null'', bd_fails = False\<rparr>\<rparr>) (new_env sample_world)))"
  using forgot_password_response [of sample_request
      "sample_request\<lparr>rq_body := Some \<lparr>bd_bytes = ''null'', bd_fails = False\<rparr>\<rparr>" "new_env sample_world"
      "new_env sample_world"]
  by (simp add: sample_request_def)

text \<open>A member that strict decoding refuses: an unknown key, or neither a string nor null.\<close>

definition refused_member :: "string list \<Rightarrow> string \<times> json \<Rightarrow> bool" where
  "refused_member names m \<longleftrightarrow> match_field names (fst m) = None \<or> (snd m \<noteq> JNull \<and> (\<nexists>s. snd m = JStr s))"

lemma refused_members: "list_ex (refused_member names) ms \<Longrightarrow> decode_members True names ms f = None"
proof (induction ms arbitrary: f)
  case (Cons m ms)
  obtain k v where m: "m = (k, v)" by fastforce
  show ?case
    using Cons m by (cases v) (auto simp: refused_member_def split: option.splits)
qed simp

definition malformed :: "string list \<Rightarrow> string \<Rightarrow> bool" where
  "malformed names s \<longleftrightarrow> (case parse_json s of
     None \<Rightarrow> True | Some (JObj ms) \<Rightarrow> list_ex (refused_member names) ms | Some v \<Rightarrow> v \<noteq> JNull)"

text \<open>C35: Bodies are decoded strictly: a body of more than a mebibyte, one that cannot be read to its
  end, or one that is not exactly one JSON object with known keys and string (or null) values is
  answered with 400 by every endpoint that needs one, before the service is called.\<close>

theorem strict_bodies:
  assumes "rq_body r = Some b"
    and "bd_fails b \<or> 1048576 < length (bd_bytes b) \<or> malformed names (bd_bytes b)"
    and "(h, names) \<in> {(handle_Register x sv, registerRequest),
       (handle_Login x sv, loginRequest), (handle_Refresh sv, refreshRequest),
       (handle_Logout sv, logoutRequest), (handle_ResetPassword sv, [''token'', ''password''])}"
  shows "h r e = (Returned, Error 400 CodeBadRequest ''invalid request body'' e)"
proof -
  have "malformed names s \<Longrightarrow> decode_struct True names s = None" for s
    by (auto simp: malformed_def decode_struct_def refused_members split: option.splits json.splits)
  then have "decodeJSONStrict names (rq_body r) = DecodeError"
    using assms(1,2) by (auto simp: decodeJSONStrict_def max_bytes_def)
  then show ?thesis
    using assms(3)
    by (auto simp: handle_Register_def handle_Login_def handle_Refresh_def handle_Logout_def
        handle_ResetPassword_def with_body_def finish_def)
qed

lemma strict_bodies_witness:
  "handle_Logout (service_servicer sample_ext sample_service)
     (sample_request\<lparr>rq_body := Some \<lparr>bd_bytes = ''{} {}'', bd_fails = False\<rparr>\<rparr>) (new_env sample_world)
   = (Returned, Error 400 CodeBadRequest ''invalid request body'' (new_env sample_world))"
proof -
  let ?sv = "service_servicer sample_ext sample_service"
  have "parse_json ''{} {}'' = None" by (simp add: eval_json)
  then show ?thesis
    using strict_bodies [of "sample_request\<lparr>rq_body := Some \<lparr>bd_bytes = ''{} {}'', bd_fails = False\<rparr>\<rparr>"
        "\<lparr>bd_bytes = ''{} {}'', bd_fails = False\<rparr>" "[''refresh_token'']" "handle_Logout ?sv" sample_ext ?sv "new_env sample_world"]
    by (simp add: malformed_def)
qed

text \<open>At the endpoint too a login tells nothing about accounts: whatever valid e-mail, password
  and org the body has, an unknown e-mail and a wrong password give the same status 401 and the
  same body, and leave the tables alone.\<close>

theorem login_endpoint_uniform:
  assumes "healthy (ev_world e)"
    and "decodeJSONStrict loginRequest (rq_body r) = Decoded req"
    and "req ''password'' \<noteq> ''''" and "req ''email'' \<noteq> ''''"
    and "normalizeEmail x (req ''email'') = Inr email"
    and "\<forall>a. normalizeEmail x email = Inr a \<longrightarrow> find_user_email x a (db (ev_world e)) = None
         \<or> (\<exists>u. find_user_email x a (db (ev_world e)) = Some u
                \<and> \<not> bcrypt_compare x (us_password_hash u) (req ''password''))"
  shows "\<exists>w'. db w' = db (ev_world e) \<and>
    handle_Login x (service_servicer x s) r e =
      (Returned, Error 401 CodeUnauthorized ''invalid credentials'' (e\<lparr>ev_world := w'\<rparr>))"
proof -
  obtain res w' where run: "Login x s email (req ''password'') (req ''org_id'') (ev_world e) = (res, w')"
    by fastforce
  then have "res = Inl ErrInvalidCredentials \<and> db w' = db (ev_world e)"
    using Login_rejects [of "ev_world e" x email "req ''password''" s "req ''org_id''"] assms(1,6) by auto
  then show ?thesis
    using run assms(2-5)
    by (auto simp: handle_Login_def with_body_def service_servicer_def with_world_def finish_def)
qed

definition login_body :: "string \<Rightarrow> string \<Rightarrow> body" where
  "login_body email password = request_body [''email'', ''password'']
     ((\<lambda>_. '''')(''email'' := email, ''password'' := password))"

lemma decode_login_body:
  assumes "is_ascii email" and "is_ascii password" and "length (bd_bytes (login_body email password)) \<le> max_bytes"
  shows "decodeJSONStrict loginRequest (Some (login_body email password))
    = Decoded ((\<lambda>_. '''')(''email'' := email, ''password'' := password))"
proof -
  let ?f = "(\<lambda>_. '''')(''email'' := email, ''password'' := password)"
  have "\<forall>n \<in> set [''email'', ''password'']. is_ascii n \<and> is_ascii (?f n)" using assms by simp
  from decode_fields [OF this, of "[''email'', ''password'', ''org_id'']"] assms(3) show ?thesis
    by (simp add: decodeJSONStrict_def login_body_def request_body_def fun_upd_def del: json_text.simps)
       (auto simp: fun_eq_iff)
qed

lemma login_endpoint_uniform_witness:
  "\<exists>w'. handle_Login sample_ext (service_servicer sample_ext sample_service)
      (sample_request\<lparr>rq_body := Some (login_body ''bob@x.io'' ''p'')\<rparr>) (new_env sample_world) =
      (Returned, Error 401 CodeUnauthorized ''invalid credentials'' ((new_env sample_world)\<lparr>ev_world := w'\<rparr>))"
proof -
  have len: "length (bd_bytes (login_body ''bob@x.io'' ''p'')) \<le> max_bytes"
    by (simp add: login_body_def request_body_def field_members_def quote_ascii escape_char_def
        escape_segment_def rune_error_def max_bytes_def)
  have body: "decodeJSONStrict loginRequest
      (rq_body (sample_request\<lparr>rq_body := Some (login_body ''bob@x.io'' ''p'')\<rparr>))
    = Decoded ((\<lambda>_. '''')(''email'' := ''bob@x.io'', ''password'' := ''p''))"
    using decode_login_body [OF _ _ len] by simp
  have "healthy (ev_world (new_env sample_world))" by simp
  from login_endpoint_uniform [OF this body, of sample_ext "''bob@x.io''" sample_service] show ?thesis
    by fastforce
qed

text \<open>C36: The limiter reads a mebibyte of the body to find the e-mail and hands on what it read: behind it
  a body whose first mebibyte is an object padded with spaces is accepted whatever follows, where
  the handler alone refuses it as too large.\<close>

theorem limiter_truncates_bodies:
  assumes "\<forall>n \<in> set ns. is_ascii n \<and> is_ascii (f n)" and "set ns \<subseteq> set names"
    and "rq_body r = Some b" and "bd_bytes b = json_text (JObj (field_members ns f)) @ replicate k CHR '' '' @ junk"
    and "length (json_text (JObj (field_members ns f))) + k = 1048576" and "junk \<noteq> ''''"
  shows "decodeJSONStrict names (rq_body r) = DecodeError
    \<and> decodeJSONStrict names (rq_body (snd (requestEmail x r))) = Decoded (\<lambda>n. if n \<in> set ns then f n else '''')"
proof -
  let ?t = "json_text (JObj (field_members ns f)) @ replicate k CHR '' ''"
  have len: "length ?t = max_body" using assms(5) by (simp add: max_body_def del: json_text.simps)
  have "bd_bytes b = ?t @ junk" using assms(4) by simp
  then have taken: "take max_body (bd_bytes b) = ?t" and "length (bd_bytes b) = max_body + length junk"
    using len by (simp_all only: length_append take_append diff_self_eq_0 take_0 append_Nil2 take_all order_refl)
  with assms(6) have large: "length (bd_bytes b) > max_body" by simp
  from taken have "rq_body (snd (requestEmail x r)) = Some \<lparr>bd_bytes = ?t, bd_fails = False\<rparr>"
    using assms(3) large by (simp add: requestEmail_def Let_def split: option.splits del: json_text.simps)
  with large len decode_padded_fields [OF assms(1,2), of k] assms(3) show ?thesis
    by (simp add: decodeJSONStrict_def max_bytes_def max_body_def del: json_text.simps)
qed

lemma limiter_truncates_bodies_witness:
  "\<exists>r. decodeJSONStrict loginRequest (rq_body r) = DecodeError
     \<and> decodeJSONStrict loginRequest (rq_body (snd (requestEmail sample_ext r)))
       = Decoded (\<lambda>n. if n = ''email'' then ''e'' else '''')"
proof -
  let ?t = "json_text (JObj (field_members [''email''] (\<lambda>_. ''e'')))"
  let ?b = "\<lparr>bd_bytes = ?t @ replicate (1048576 - length ?t) CHR '' '' @ ''junk'', bd_fails = False\<rparr>"
  have "length ?t \<le> 1048576"
    by (simp add: field_members_def quote_ascii is_ascii_def escape_char_def escape_segment_def rune_error_def)
  then show ?thesis
    using limiter_truncates_bodies [of "[''email'']" "\<lambda>_. ''e''" loginRequest "sample_request\<lparr>rq_body := Some ?b\<rparr>" ?b
        "1048576 - length ?t" "''junk''" sample_ext]
    by (intro exI [of _ "sample_request\<lparr>rq_body := Some ?b\<rparr>"]) (simp add: is_ascii_def del: json_text.simps)
qed

end
