(* ===== verification/SessionSpec.thy ===== *)
theory SessionSpec
  imports PasswordTheorems
begin

text \<open>
  An abstract specification of sessions, and that the service refines it: a session is absent,
  open for a user in an org until a time, or ended; the eight operations change the map from
  token hashes to sessions in the few ways of \<open>session_step\<close>, whatever calls fail.
\<close>

subsection \<open>Calls as data\<close>

datatype service_call =
    CallRegister string string string
  | CallLogin string string string
  | CallRefresh string
  | CallLogout string
  | CallMe string string
  | CallForgotPassword string
  | CallResetPassword string string
  | CallChangePassword string string string

fun perform :: "ext \<Rightarrow> service \<Rightarrow> service_call \<Rightarrow> world \<Rightarrow> world" where
  "perform x s (CallRegister email password name) w = snd (Register x s email password name w)"
| "perform x s (CallLogin email password orgID) w = snd (Login x s email password orgID w)"
| "perform x s (CallRefresh token) w = snd (Refresh x s token w)"
| "perform x s (CallLogout token) w = snd (Logout x token w)"
| "perform x s (CallMe userID orgID) w = snd (Me x userID orgID w)"
| "perform x s (CallForgotPassword email) w = snd (ForgotPassword x s email w)"
| "perform x s (CallResetPassword token password) w = snd (ResetPassword x token password w)"
| "perform x s (CallChangePassword userID old new) w = snd (ChangePassword x userID old new w)"

lemma step_perform: "step x s w (perform x s c w)"
  by (cases c) (auto intro: step.intros)

subsection \<open>The specification\<close>

datatype session = Absent | Open uuid uuid time | Ended

type_synonym sessions = "string \<Rightarrow> session"

definition end_all :: "uuid \<Rightarrow> sessions \<Rightarrow> sessions" where
  "end_all u S = (\<lambda>h. case S h of Open v r t \<Rightarrow> if v = u then Ended else Open v r t | p \<Rightarrow> p)"

inductive session_step :: "ext \<Rightarrow> time \<Rightarrow> service_call \<Rightarrow> sessions \<Rightarrow> sessions \<Rightarrow> bool" for x now where
  stutter: "session_step x now c S S"
| opened_new: "S h = Absent \<Longrightarrow> session_step x now (CallRegister email password name) S (S(h := Open u r t))"
| opened: "S h = Absent \<Longrightarrow> session_step x now (CallLogin email password orgID) S (S(h := Open u r t))"
| rotated: "S (hashOpaqueToken x token) = Open u r t \<Longrightarrow> now < t \<Longrightarrow> S h = Absent \<Longrightarrow>
    session_step x now (CallRefresh token) S (S(hashOpaqueToken x token := Ended, h := Open u r t'))"
| logged_out: "S (hashOpaqueToken x token) = Open u r t \<Longrightarrow> now < t \<Longrightarrow>
    session_step x now (CallLogout token) S (end_all u S)"
| reset: "session_step x now (CallResetPassword token password) S (end_all u S)"
| changed: "uuid_parse x userID = Some u \<Longrightarrow>
    session_step x now (CallChangePassword userID old new) S (end_all u S)"

text \<open>The abstraction.\<close>

definition sessions_of :: "database \<Rightarrow> sessions" where
  "sessions_of d h = (case find_token h d of
     None \<Rightarrow> Absent
   | Some k \<Rightarrow> if rt_revoked k then Ended else Open (rt_user_id k) (rt_org_id k) (rt_expires_at k))"

subsection \<open>The statements\<close>

lemma sessions_tokens: "refresh_tokens d = refresh_tokens e \<Longrightarrow> sessions_of d = sessions_of e"
  by (simp add: fun_eq_iff sessions_of_def find_token_def)

lemma sessions_insert:
  assumes "fst (insert_token now t u r expires d) = Inr k"
  shows "sessions_of d t = Absent
    \<and> sessions_of (snd (insert_token now t u r expires d)) = (sessions_of d)(t := Open u r expires)"
proof -
  have none: "find_token t d = None" and "find_user u d \<noteq> None" and "find_org r d \<noteq> None"
    using assms by (auto simp: insert_token_def find_token_def find_None_iff list_ex_iff split: if_splits)
  note row = insert_token_ok [OF this]
  have "find_token h (snd (insert_token now t u r expires d)) =
      (case find_token h d of Some k \<Rightarrow> Some k
       | None \<Rightarrow> if h = t then Some (new_token_row now t u r expires) else None)" for h
    by (simp add: row find_token_def find_append new_token_row_def split: option.splits)
  then show ?thesis using none
    by (auto simp: sessions_of_def fun_eq_iff new_token_row_def split: option.splits)
qed

lemma sessions_insert_fails:
  "fst (insert_token now t u r expires d) = Inl e \<Longrightarrow> snd (insert_token now t u r expires d) = d"
  by (auto simp: insert_token_def Let_def split: if_splits)

lemma sessions_revoke: "sessions_of (snd (revoke_user_tokens u d)) = end_all u (sessions_of d)"
proof
  fix h
  have "find_token h (snd (revoke_user_tokens u d)) =
      map_option (\<lambda>k. if rt_user_id k = u then revoke_row k else k) (find_token h d)"
    by (simp add: revoke_user_tokens_def find_token_def revoke_all.find_upd)
  then show "sessions_of (snd (revoke_user_tokens u d)) h = end_all u (sessions_of d) h"
    by (auto simp: sessions_of_def end_all_def revoke_row_def split: option.splits)
qed

lemma sessions_consume:
  assumes "fst (consume_token now t d) = Inr k" and "distinct (map rt_token (refresh_tokens d))"
  shows "sessions_of d t = Open (rt_user_id k) (rt_org_id k) (rt_expires_at k) \<and> now < rt_expires_at k
    \<and> sessions_of (snd (consume_token now t d)) = (sessions_of d)(t := Ended)"
proof -
  from assms obtain k' where live: "live_token now t d = Some k'" and k: "k = revoke_row k'"
    by (auto simp: consume_token_eq one_row_def split: option.splits)
  then have f: "find_token t d = Some k'" and c: "consumable now t k'" by (auto dest: live_tokenD)
  have other: "h \<noteq> t \<Longrightarrow> find_token h (snd (consume_token now t d)) = find_token h d" for h
    by (auto simp: find_token_consume consumable_def dest: find_tokenD split: option.splits
        intro!: option.map_ident_strong)
  have here: "find_token t (snd (consume_token now t d)) = Some (revoke_row k')"
    using f c by (simp add: find_token_consume)
  have "sessions_of (snd (consume_token now t d)) h = ((sessions_of d)(t := Ended)) h" for h
    using other [of h] here by (cases "h = t") (simp_all add: sessions_of_def revoke_row_def)
  then show ?thesis using f c k by (auto simp: sessions_of_def consumable_def revoke_row_def)
qed

lemma end_all_consumed:
  assumes "S h = Open u r t"
  shows "end_all u (S(h := Ended)) = end_all u S"
  using assms by (auto simp: end_all_def fun_eq_iff)

subsection \<open>The calls\<close>

definition tokens_same :: "world \<Rightarrow> world \<Rightarrow> bool" where
  "tokens_same v w \<longleftrightarrow> refresh_tokens (db w) = refresh_tokens (db v) \<and> db_now w = db_now v"

interpretation tokens_frame: world_order tokens_same
  by unfold_locales (simp_all add: tokens_same_def)

lemma tokens_same_sessions: "tokens_same v w \<Longrightarrow> sessions_of (db w) = sessions_of (db v)"
  by (auto simp: tokens_same_def intro: sessions_tokens)

lemma evolves_tokens_exec:
  "(\<And>d. refresh_tokens (snd (s d)) = refresh_tokens d) \<Longrightarrow> evolves tokens_same (exec s)"
  by (auto simp: evolves_def tokens_same_def exec_eq split: fault.splits)

lemma evolves_tokens_exec_now:
  "(\<And>w d. refresh_tokens (snd (s w d)) = refresh_tokens d) \<Longrightarrow> evolves tokens_same (\<lambda>w. exec (s w) w)"
  by (auto simp: evolves_def tokens_same_def exec_eq split: fault.splits)

lemma evolves_tokens_oracles:
  "evolves tokens_same rand_read" "evolves tokens_same gen_random_uuid"
  by (simp_all add: evolves_def rand_read_def gen_random_uuid_def tokens_same_def)

lemma evolves_tokens_queries:
  "evolves tokens_same (CreateOrg name)"
  "evolves tokens_same (CreateOrgMembership u r role)"
  "evolves tokens_same (CreateUser x email hash name)"
  "evolves tokens_same (GetOrg i)"
  "evolves tokens_same (GetOrgMembershipByUser u r)"
  "evolves tokens_same (GetUserByEmail x email)"
  "evolves tokens_same (GetUserByID i)"
  "evolves tokens_same (IncrementUserTokenVersion i)"
  "evolves tokens_same (ListOrgMembershipsByUser u)"
  "evolves tokens_same (UpdateUserPassword i hash)"
  unfolding query_defs
  by (intro tokens_frame.evolves_intros evolves_tokens_oracles evolves_tokens_exec evolves_tokens_exec_now;
      simp add: insert_org_def insert_membership_def insert_user_def increment_version_def
        update_password_def Let_def)+

lemma evolves_tokens_WithTx:
  assumes "evolves tokens_same fn"
  shows "evolves tokens_same (WithTxQueries fn)"
proof -
  have "tokens_same w (snd (WithTx fn w))" for w
    using assms [unfolded evolves_def, rule_format, of "next_fault w"]
    by (auto simp: WithTx_eq tokens_same_def split: prod.splits sum.splits fault.splits)
  then show ?thesis by (simp add: evolves_def WithTxQueries_def)
qed

lemma evolves_tokens_redis: "evolves tokens_same (redis_call c)"
  by (auto simp: evolves_def tokens_same_def redis_call_eq split: fault.splits)

lemma evolves_tokens_send: "evolves tokens_same (SendPasswordReset s a b)"
  by (cases s) (auto simp: evolves_def tokens_same_def ret_def send_email_eq split: fault.splits)

lemma evolves_tokens_generate:
  "evolves tokens_same GenerateRefreshToken"
  "evolves tokens_same (GenerateAccessToken x u r role v secret iss aud expiry)"
  "evolves tokens_same (generate_from_password x p c)"
  unfolding GenerateRefreshToken_def GenerateAccessToken_def generate_from_password_def
  by (intro tokens_frame.evolves_intros evolves_tokens_oracles evolves_if evolves_option)+

lemmas evolves_tokens_rules =
  tokens_frame.evolves_intros evolves_tokens_oracles evolves_tokens_queries evolves_tokens_WithTx
  evolves_tokens_redis evolves_tokens_send evolves_tokens_generate evolves_sum evolves_option
  evolves_prod evolves_if

lemma silent_calls:
  "evolves tokens_same (Me x userID orgID)"
  "evolves tokens_same (ForgotPassword x s email)"
  "evolves tokens_same (register_tx x email hash name)"
  unfolding Me_def ForgotPassword_def register_tx_def by (intro evolves_tokens_rules)+

subsection \<open>Sessions that open\<close>

definition opens :: "world \<Rightarrow> world \<Rightarrow> bool" where
  "opens v w \<longleftrightarrow> sessions_of (db w) = sessions_of (db v)
     \<or> (\<exists>h u r t. sessions_of (db v) h = Absent \<and> sessions_of (db w) = (sessions_of (db v))(h := Open u r t))"

lemma opens_refl: "opens w w"
  by (simp add: opens_def)

lemma opens_before: "tokens_same u v \<Longrightarrow> opens v w \<Longrightarrow> opens u w"
  and opens_after: "opens u v \<Longrightarrow> tokens_same v w \<Longrightarrow> opens u w"
  by (simp_all add: opens_def tokens_same_sessions)

lemma evolves_opens_create: "evolves opens (CreateRefreshToken t u r expires)"
proof -
  have "opens w (snd (CreateRefreshToken t u r expires w))" for w
  proof (cases "insert_token (db_now w) t u r expires (db w)")
    case (Pair res d)
    then show ?thesis
      using sessions_insert [of "db_now w" t u r expires "db w"]
        sessions_insert_fails [of "db_now w" t u r expires "db w"]
      by (cases res) (auto simp: CreateRefreshToken_def exec_eq opens_def split: fault.splits)
  qed
  then show ?thesis by (simp add: evolves_def)
qed

lemma opens_attempt_before:
  "evolves tokens_same m \<Longrightarrow> (\<And>a. evolves opens (k a)) \<Longrightarrow> evolves opens (attempt m k)"
  by (rule evolves_attempt_before [where R = tokens_same]) (auto intro: opens_before opens_refl)

lemma opens_call_before:
  "evolves tokens_same m \<Longrightarrow> (\<And>r. evolves opens (k r)) \<Longrightarrow> evolves opens (call m k)"
  by (rule evolves_call_before [where R = tokens_same]) (auto intro: opens_before)

lemma opens_attempt_after:
  "evolves opens m \<Longrightarrow> (\<And>a. evolves tokens_same (k a)) \<Longrightarrow> evolves opens (attempt m k)"
  by (rule evolves_attempt_after [where R = tokens_same]) (auto intro: opens_after)

lemma evolves_opens_weaken: "evolves tokens_same m \<Longrightarrow> evolves opens m"
  using opens_before [OF _ opens_refl] opens_after [OF opens_refl] by (simp add: evolves_def)

lemma evolves_opens_issue: "evolves opens (issueTokens x s u r role)"
  unfolding issueTokens_def
  by (intro opens_attempt_before opens_attempt_after evolves_opens_create evolves_tokens_generate
      tokens_frame.evolves_intros)

lemma opening_calls:
  "evolves opens (Register x s email password fullName)"
  "evolves opens (Login x s email password orgID)"
  unfolding Register_def Login_def
  by (intro opens_call_before opens_attempt_before evolves_sum evolves_option evolves_if evolves_prod
      evolves_opens_issue evolves_tokens_queries evolves_tokens_generate evolves_tokens_WithTx
      silent_calls(3) evolves_opens_weaken [OF tokens_frame.evolves_fail]
      evolves_opens_weaken [OF tokens_frame.evolves_ret] tokens_frame.evolves_lift)+

subsection \<open>Transactions that end sessions\<close>

lemma exec_ok: "exec s w = (Inr a, w') \<Longrightarrow> fst (s (db w)) = Inr a \<and> w' = next_fault w\<lparr>db := snd (s (db w))\<rparr>"
  by (auto simp: exec_eq split: fault.splits)

lemma refresh_tx_session:
  assumes run: "refresh_tx x s token w = (Inr res, w')" and ok: "db_ok x (db w)"
  shows "session_step x (db_now w) (CallRefresh token) (sessions_of (db w)) (sessions_of (db w'))"
proof -
  let ?h = "hashOpaqueToken x token"
  obtain k w1 where c: "ConsumeRefreshToken ?h w = (Inr k, w1)" and rest: "refresh_consumed x s k w1 = (Inr res, w')"
    using run by (auto simp: refresh_tx_def call_apply fail_def split: prod.splits sum.splits)
  from exec_ok [OF c [unfolded ConsumeRefreshToken_def]]
  have consumed: "fst (consume_token (db_now w) ?h (db w)) = Inr k"
    and w1: "w1 = next_fault w\<lparr>db := snd (consume_token (db_now w) ?h (db w))\<rparr>" by simp_all
  note first = sessions_consume [OF consumed tokens_distinct [OF ok]]
  from rest obtain u m nt w2 w3 w4 w5 where u: "GetUserByID (rt_user_id k) w1 = (Inr u, w2)"
    and m: "GetOrgMembershipByUser (us_id u) (rt_org_id k) w2 = (Inr m, w3)"
    and g: "GenerateRefreshToken w3 = (Inr nt, w4)"
    and new: "\<exists>a. CreateRefreshToken (hashOpaqueToken x nt) (us_id u) (om_org_id m) (app_now w4 + refreshExpiry s) w4
      = (Inr a, w5)" and w': "w' = w5"
    by (auto simp: refresh_consumed_def call_apply fail_def read_world_def ret_def attempt_apply
        split: prod.splits sum.splits)
  have same: "db w4 = db w1 \<and> us_id u = rt_user_id k \<and> om_org_id m = rt_org_id k"
    using exec_ok [OF u [unfolded GetUserByID_def]] exec_ok [OF m [unfolded GetOrgMembershipByUser_def]] g
    by (auto simp: one_row_def GenerateRefreshToken_apply split: option.splits
        dest!: find_userD find_membershipD)
  from new obtain a where "CreateRefreshToken (hashOpaqueToken x nt) (us_id u) (om_org_id m)
      (app_now w4 + refreshExpiry s) w4 = (Inr a, w5)" ..
  from exec_ok [OF this [unfolded CreateRefreshToken_def]] same
  have i: "fst (insert_token (db_now w4) (hashOpaqueToken x nt) (rt_user_id k) (rt_org_id k)
      (app_now w4 + refreshExpiry s) (db w1)) = Inr a"
    and d': "db w' = snd (insert_token (db_now w4) (hashOpaqueToken x nt) (rt_user_id k) (rt_org_id k)
      (app_now w4 + refreshExpiry s) (db w1))" using w' by auto
  from sessions_insert [OF i] first w1 d' show ?thesis
    by (auto split: if_splits intro!: rotated)
qed

lemma logout_tx_session:
  assumes run: "logout_tx x token w = (Inr res, w')" and ok: "db_ok x (db w)"
  shows "session_step x (db_now w) (CallLogout token) (sessions_of (db w)) (sessions_of (db w'))"
proof -
  let ?h = "hashOpaqueToken x token"
  obtain c w1 where c: "ConsumeRefreshToken ?h w = (c, w1)" by fastforce
  show ?thesis
  proof (cases c)
    case (Inr k)
    from exec_ok [OF c [unfolded ConsumeRefreshToken_def Inr]]
    have consumed: "fst (consume_token (db_now w) ?h (db w)) = Inr k"
      and w1: "w1 = next_fault w\<lparr>db := snd (consume_token (db_now w) ?h (db w))\<rparr>" by simp_all
    note first = sessions_consume [OF consumed tokens_distinct [OF ok]]
    from run c Inr obtain w2 where i: "IncrementUserTokenVersion (rt_user_id k) w1 = (Inr (), w2)"
      and r: "RevokeAllUserRefreshTokens (rt_user_id k) w2 = (Inr (), w')"
      by (auto simp: logout_tx_def call_apply elim!: attempt_okD)
    have "sessions_of (db w2) = sessions_of (db w1)"
      using evolves_tokens_queries(8) [of "rt_user_id k", unfolded evolves_def, rule_format, of w1] i
      by (simp add: tokens_same_sessions)
    with exec_ok [OF r [unfolded RevokeAllUserRefreshTokens_def]] first w1
    have "sessions_of (db w') = end_all (rt_user_id k) (sessions_of (db w))"
      by (simp add: sessions_revoke end_all_consumed)
    with first show ?thesis by (auto intro: logged_out)
  next
    case (Inl e)
    with run c have "e = ErrNoRows \<or> errors_is e ErrNoRows" and w': "w' = w1"
      by (auto simp: logout_tx_def call_apply ret_def fail_def split: if_splits)
    then have "db w1 = db w"
      using c Inl consume_none [OF tokens_distinct [OF ok]] consume_token_eq [OF tokens_distinct [OF ok]]
      by (auto simp: ConsumeRefreshToken_def exec_eq one_row_def split: fault.splits option.splits)
    with w' show ?thesis by (auto intro: stutter)
  qed
qed

lemma set_password_tx_session:
  assumes run: "set_password_tx u hash w = (Inr res, w')"
  shows "sessions_of (db w') = end_all u (sessions_of (db w))"
proof -
  from run obtain w1 w2 where p: "UpdateUserPassword u hash w = (Inr (), w1)"
    and i: "IncrementUserTokenVersion u w1 = (Inr (), w2)"
    and r: "RevokeAllUserRefreshTokens u w2 = (Inr (), w')"
    by (auto simp: set_password_tx_def elim!: attempt_okD)
  have "sessions_of (db w2) = sessions_of (db w)"
    using evolves_tokens_queries(8) [of u, unfolded evolves_def, rule_format, of w1] i
      evolves_tokens_queries(10) [of u hash, unfolded evolves_def, rule_format, of w] p
    by (simp add: tokens_same_sessions)
  with exec_ok [OF r [unfolded RevokeAllUserRefreshTokens_def]] show ?thesis
    by (simp add: sessions_revoke)
qed

text \<open>Password changes, up to the user whose sessions they end.\<close>

definition ends :: "(uuid \<Rightarrow> bool) \<Rightarrow> world \<Rightarrow> world \<Rightarrow> bool" where
  "ends P v w \<longleftrightarrow> sessions_of (db w) = sessions_of (db v)
     \<or> (\<exists>u. P u \<and> sessions_of (db w) = end_all u (sessions_of (db v)))"

lemma ends_before: "tokens_same u v \<Longrightarrow> ends P v w \<Longrightarrow> ends P u w"
  and ends_refl: "ends P w w"
  by (simp_all add: ends_def tokens_same_sessions)

lemma ends_attempt_before:
  "evolves tokens_same m \<Longrightarrow> (\<And>a. evolves (ends P) (k a)) \<Longrightarrow> evolves (ends P) (attempt m k)"
  by (rule evolves_attempt_before [where R = tokens_same]) (auto intro: ends_before ends_refl)

lemma ends_call_before:
  "evolves tokens_same m \<Longrightarrow> (\<And>r. evolves (ends P) (k r)) \<Longrightarrow> evolves (ends P) (call m k)"
  by (rule evolves_call_before [where R = tokens_same]) (auto intro: ends_before)

lemma evolves_ends_fail: "evolves (ends P) (fail e)"
  by (simp add: evolves_def fail_def ends_refl)

lemma evolves_ends_tx:
  assumes "P u"
  shows "evolves (ends P) (WithTxQueries (set_password_tx u hash))"
proof -
  have "ends P w (snd (WithTx (set_password_tx u hash) w))" for w
    using WithTx_committed [of "set_password_tx u hash" w] assms
      set_password_tx_session [of u hash "next_fault w"]
    by (auto simp: ends_def)
  then show ?thesis by (simp add: evolves_def WithTxQueries_def)
qed

lemma reset_ends: "evolves (ends (\<lambda>_. True)) (ResetPassword x token password)"
  unfolding ResetPassword_def
  by (intro ends_call_before ends_attempt_before evolves_sum evolves_option evolves_if evolves_ends_fail
      evolves_ends_tx evolves_tokens_redis evolves_tokens_generate TrueI)

lemma change_ends: "evolves (ends (\<lambda>u. uuid_parse x userID = Some u)) (ChangePassword x userID old new)"
proof (cases "uuid_parse x userID")
  case None
  then show ?thesis
    unfolding ChangePassword_def by (simp add: evolves_ends_fail split: option.split)
next
  case (Some u)
  then show ?thesis
    unfolding ChangePassword_def Some option.case
    by (intro ends_call_before ends_attempt_before evolves_sum evolves_option evolves_if evolves_ends_fail
        evolves_ends_tx evolves_tokens_queries evolves_tokens_generate) (rule refl)
qed

subsection \<open>The refinement\<close>

lemma session_tx:
  assumes "\<And>a w2. fn (next_fault w) = (Inr a, w2) \<Longrightarrow> session_step x (db_now w) c (sessions_of (db w)) (sessions_of (db w2))"
  shows "session_step x (db_now w) c (sessions_of (db w)) (sessions_of (db (snd (WithTxQueries fn w))))"
  using WithTx_committed [of fn w] assms by (auto simp: WithTxQueries_def intro: stutter)

lemma attempt_pure_db:
  assumes "\<And>a w. db (snd (k a w)) = db w"
  shows "db (snd (attempt m k w)) = db (snd (m w))"
  using assms by (auto simp: attempt_apply split: prod.splits sum.splits)

lemma Refresh_db: "db (snd (Refresh x s t w)) = db (snd (WithTxQueries (refresh_tx x s t) w))"
  unfolding Refresh_def
  by (rule attempt_pure_db)
     (auto simp: attempt_apply GenerateAccessToken_def GenerateRefreshToken_apply call_defs
       split: prod.splits sum.splits option.splits)

lemma perform_refines:
  assumes "db_ok x (db w)"
  shows "session_step x (db_now w) c (sessions_of (db w)) (sessions_of (db (perform x s c w)))"
proof (cases c)
  case (CallRegister email password name)
  with opening_calls(1) [of x s email password name] show ?thesis
    by (auto simp: evolves_def opens_def dest!: spec [of _ w] intro: stutter opened_new)
next
  case (CallLogin email password orgID)
  with opening_calls(2) [of x s email password orgID] show ?thesis
    by (auto simp: evolves_def opens_def dest!: spec [of _ w] intro: stutter opened)
next
  case (CallRefresh t)
  have "session_step x (db_now w) (CallRefresh t) (sessions_of (db w)) (sessions_of (db w2))"
    if "refresh_tx x s t (next_fault w) = (Inr a, w2)" for a w2
    using refresh_tx_session [OF that] assms by simp
  from session_tx [OF this] CallRefresh show ?thesis by (simp add: Refresh_db)
next
  case (CallLogout t)
  have "session_step x (db_now w) (CallLogout t) (sessions_of (db w)) (sessions_of (db w2))"
    if "logout_tx x t (next_fault w) = (Inr a, w2)" for a w2
    using logout_tx_session [OF that] assms by simp
  from session_tx [of "logout_tx x t", OF this] CallLogout show ?thesis by (simp add: Logout_def)
next
  case (CallMe userID orgID)
  have "sessions_of (db (snd (Me x userID orgID w))) = sessions_of (db w)"
    by (rule tokens_same_sessions) (rule silent_calls(1) [unfolded evolves_def, rule_format])
  with CallMe show ?thesis by (simp add: stutter)
next
  case (CallForgotPassword email)
  have "sessions_of (db (snd (ForgotPassword x s email w))) = sessions_of (db w)"
    by (rule tokens_same_sessions) (rule silent_calls(2) [unfolded evolves_def, rule_format])
  with CallForgotPassword show ?thesis by (simp add: stutter)
next
  case (CallResetPassword token password)
  with reset_ends [of x token password] show ?thesis
    by (auto simp: evolves_def ends_def dest!: spec [of _ w] intro: stutter reset)
next
  case (CallChangePassword userID old new)
  with change_ends [of x userID old new] show ?thesis
    by (auto simp: evolves_def ends_def dest!: spec [of _ w] intro: stutter changed)
qed

text \<open>What the specification promises: a session that has ended never opens again, an open one
  keeps its user, org and time.\<close>

lemma session_step_grows:
  assumes "session_step x now c S S'"
  shows "S h = Ended \<Longrightarrow> S' h = Ended" and "S h = Open u r t \<Longrightarrow> S' h = Open u r t \<or> S' h = Ended"
  using assms by (induction rule: session_step.induct) (auto simp: end_all_def)

text \<open>Whose sessions a step may end.\<close>

lemma session_step_end:
  assumes "session_step x now c S S'" and "S h = Open u r t" and "S' h = Ended"
  shows "(\<exists>token. c = CallRefresh token \<and> h = hashOpaqueToken x token)
    \<or> (\<exists>token r' t'. c = CallLogout token \<and> S (hashOpaqueToken x token) = Open u r' t' \<and> now < t')
    \<or> (\<exists>token password. c = CallResetPassword token password)
    \<or> (\<exists>userID old new. c = CallChangePassword userID old new \<and> uuid_parse x userID = Some u)"
  using assms by (induction rule: session_step.induct) (auto simp: end_all_def split: if_splits session.splits)

text \<open>C2: The service refines the specification of sessions: whatever calls fail, each of its
  operations changes the sessions as one step of the specification allows for it. Register and Login
  open at most one, under a hash that was absent; Refresh ends the session of its token, if it is
  open and its time has not come, together with opening one for the same user and org; Logout ends
  all sessions of the user of such a token; the password operations end all sessions of one user,
  ChangePassword those of the user it names; the others change none.\<close>

theorem sessions_refinement:
  assumes "db_ok x (db w)"
  shows "session_step x (db_now w) c (sessions_of (db w)) (sessions_of (db (perform x s c w)))"
  by (rule perform_refines [OF assms])

lemma sessions_refinement_witness:
  "session_step sample_ext 0 (CallLogout ''tok'') (sessions_of sample_db)
     (sessions_of (db (perform sample_ext sample_service (CallLogout ''tok'') sample_world)))"
  using sessions_refinement [of sample_ext sample_world "CallLogout ''tok''" sample_service] by simp

text \<open>C24: A session of a user ends only by the user's own credentials: a refresh with its token, a
  logout with one of the user's open tokens, a password change in the user's name, or a reset
  with a link.\<close>

theorem session_end_causes:
  assumes "db_ok x (db w)" and "sessions_of (db w) h = Open u r t"
    and "sessions_of (db (perform x s c w)) h \<noteq> Open u r t"
  shows "(\<exists>token. c = CallRefresh token \<and> h = hashOpaqueToken x token)
    \<or> (\<exists>token r' t'. c = CallLogout token \<and> sessions_of (db w) (hashOpaqueToken x token) = Open u r' t'
         \<and> db_now w < t')
    \<or> (\<exists>token password. c = CallResetPassword token password)
    \<or> (\<exists>userID old new. c = CallChangePassword userID old new \<and> uuid_parse x userID = Some u)"
  using session_step_end [OF perform_refines [OF assms(1)] assms(2)]
    session_step_grows(2) [OF perform_refines [OF assms(1)] assms(2)] assms(3) by blast

lemma sample_session: "sessions_of sample_db (hashOpaqueToken sample_ext ''tok'') = Open 1 2 hour"
  by (simp add: sessions_of_def find_token_def sample_rows)

lemma session_end_causes_witness:
  "\<exists>token r' t'. CallLogout ''tok'' = CallLogout token
     \<and> sessions_of sample_db (hashOpaqueToken sample_ext token) = Open 1 r' t' \<and> 0 < t'"
proof -
  let ?w = "perform sample_ext sample_service (CallLogout ''tok'') sample_world"
  have "token_revoked (hashOpaqueToken sample_ext ''tok'') (db ?w)"
    using Logout_live [of sample_world sample_ext "''tok''" ann_token ann]
      sessions_ended_token [OF sessions_ended_logout, of "hashOpaqueToken sample_ext ''tok''" sample_db ann_token]
      live_tokenD [OF sample_live_token] by (simp add: max_int32_def)
  then have "sessions_of (db ?w) (hashOpaqueToken sample_ext ''tok'') = Ended"
    by (auto simp: token_revoked_def sessions_of_def)
  with session_end_causes [of sample_ext sample_world "hashOpaqueToken sample_ext ''tok''" 1 2 hour
      sample_service "CallLogout ''tok''"] sample_session show ?thesis by auto
qed

end
