(* ===== verification/ServerSpec.thy ===== *)
theory ServerSpec
  imports HandlerTheorems SessionSpec
begin

text \<open>
  The server as a whole against the service: an HTTP request performs at most one call of the
  service, the one its method and path stand for, and touches the tables in no other way. With
  the refinement of sessions, requests are steps of the specification of sessions.
\<close>

subsection \<open>Requests and calls\<close>

fun call_path :: "service_call \<Rightarrow> string" where
  "call_path (CallRegister email password name) = ''/api/v1/auth/register''"
| "call_path (CallLogin email password orgID) = ''/api/v1/auth/login''"
| "call_path (CallRefresh token) = ''/api/v1/auth/refresh''"
| "call_path (CallLogout token) = ''/api/v1/auth/logout''"
| "call_path (CallMe userID orgID) = ''/api/v1/auth/me''"
| "call_path (CallForgotPassword email) = ''/api/v1/auth/forgot-password''"
| "call_path (CallResetPassword token password) = ''/api/v1/auth/reset-password''"
| "call_path (CallChangePassword userID old new) = ''/api/v1/auth/change-password''"

fun call_method :: "service_call \<Rightarrow> string" where
  "call_method (CallMe userID orgID) = ''GET''"
| "call_method c = ''POST''"

definition call_key :: "service_call \<Rightarrow> string option \<times> string" where
  "call_key c = (Some (call_method c), call_path c)"

definition same_tables :: "world \<Rightarrow> world \<Rightarrow> bool" where
  "same_tables v w \<longleftrightarrow> db w = db v \<and> db_now w = db_now v"

interpretation tables_frame: world_order same_tables
  by unfold_locales (simp_all add: same_tables_def)

definition quiet :: "(env \<Rightarrow> outcome \<times> env) \<Rightarrow> bool" where
  "quiet k \<longleftrightarrow> (\<forall>e. same_tables (ev_world e) (ev_world (snd (k e))))"

text \<open>\<open>acts x s P k\<close>: \<open>k\<close> leaves the tables alone or performs one call in \<open>P\<close>.\<close>

definition acts :: "ext \<Rightarrow> service \<Rightarrow> (service_call \<Rightarrow> bool) \<Rightarrow> (env \<Rightarrow> outcome \<times> env) \<Rightarrow> bool" where
  "acts x s P k \<longleftrightarrow> (\<forall>e. same_tables (ev_world e) (ev_world (snd (k e)))
     \<or> (\<exists>c w1. P c \<and> same_tables (ev_world e) w1 \<and> same_tables (perform x s c w1) (ev_world (snd (k e)))))"

lemma quiet_answers:
  "quiet (\<lambda>e. finish (Error c a b e))" "quiet (\<lambda>e. finish (JSON c j e))" "quiet (\<lambda>e. finish (NoContent e))"
  "quiet (\<lambda>e. (Panicked, e))" "quiet (unauthorized m)" "quiet (bad_request m)" "quiet (internal_error m)"
  by (simp_all add: quiet_def same_tables_def finish_def unauthorized_def bad_request_def internal_error_def)

lemma quiet_if: "quiet k \<Longrightarrow> quiet l \<Longrightarrow> quiet (\<lambda>e. if b then k e else l e)"
  by (cases b) simp_all

lemma quiet_sum:
  "(\<And>a. quiet (f a)) \<Longrightarrow> (\<And>a. quiet (g a)) \<Longrightarrow> quiet (\<lambda>e. case p of Inl a \<Rightarrow> f a e | Inr a \<Rightarrow> g a e)"
  by (cases p) simp_all

lemmas quiet_intros = quiet_answers quiet_if quiet_sum

lemma acts_quiet: "quiet k \<Longrightarrow> acts x s P k"
  by (simp add: acts_def quiet_def)

lemma acts_mono: "acts x s P k \<Longrightarrow> (\<And>c. P c \<Longrightarrow> Q c) \<Longrightarrow> acts x s Q k"
  unfolding acts_def by blast

lemma acts_if: "acts x s P k \<Longrightarrow> acts x s P l \<Longrightarrow> acts x s P (\<lambda>e. if b then k e else l e)"
  by (cases b) simp_all

lemma acts_sum:
  "(\<And>a. acts x s P (f a)) \<Longrightarrow> (\<And>a. acts x s P (g a)) \<Longrightarrow>
    acts x s P (\<lambda>e. case p of Inl a \<Rightarrow> f a e | Inr a \<Rightarrow> g a e)"
  by (cases p) simp_all

lemma acts_option:
  "acts x s P n \<Longrightarrow> (\<And>a. acts x s P (j a)) \<Longrightarrow> acts x s P (\<lambda>e. case p of None \<Rightarrow> n e | Some a \<Rightarrow> j a e)"
  by (cases p) simp_all

lemma acts_with_body: "(\<And>f. acts x s P (k f)) \<Longrightarrow> acts x s P (with_body names k r)"
  unfolding with_body_def
  by (cases "decodeJSONStrict names (rq_body r)") (simp_all add: acts_quiet quiet_answers)

lemma acts_call:
  assumes "\<And>w. snd (m w) = perform x s c w" and "P c" and "\<And>res. quiet (k res)"
  shows "acts x s P (with_world m k)"
  unfolding acts_def
proof (intro allI disjI2)
  fix e :: env
  obtain res w' where m: "m (ev_world e) = (res, w')" by fastforce
  have "w' = perform x s c (ev_world e)" using assms(1) [of "ev_world e"] m by simp
  moreover have "same_tables w' (ev_world (snd (k res (e\<lparr>ev_world := w'\<rparr>))))"
    using assms(3) [unfolded quiet_def, rule_format, of "e\<lparr>ev_world := w'\<rparr>" res] by simp
  ultimately show "\<exists>c w1. P c \<and> same_tables (ev_world e) w1
      \<and> same_tables (perform x s c w1) (ev_world (snd (with_world m k e)))"
    using assms(2) tables_frame.refl m by (auto simp: with_world_def)
qed

lemma acts_before:
  assumes "same_tables (ev_world e) (ev_world e')" and "acts x s P k"
  shows "same_tables (ev_world e) (ev_world (snd (k e')))
    \<or> (\<exists>c w1. P c \<and> same_tables (ev_world e) w1 \<and> same_tables (perform x s c w1) (ev_world (snd (k e'))))"
  using assms unfolding acts_def by (metis tables_frame.trans)

subsection \<open>Handlers\<close>

lemma service_ops:
  "snd (sv_Register (service_servicer x s) a b c w) = perform x s (CallRegister a b c) w"
  "snd (sv_Login (service_servicer x s) a b c w) = perform x s (CallLogin a b c) w"
  "snd (sv_Refresh (service_servicer x s) a w) = perform x s (CallRefresh a) w"
  "snd (sv_Logout (service_servicer x s) a w) = perform x s (CallLogout a) w"
  "snd (sv_Me (service_servicer x s) a b w) = perform x s (CallMe a b) w"
  "snd (sv_ForgotPassword (service_servicer x s) a w) = perform x s (CallForgotPassword a) w"
  "snd (sv_ResetPassword (service_servicer x s) a b w) = perform x s (CallResetPassword a b) w"
  "snd (sv_ChangePassword (service_servicer x s) a b c w) = perform x s (CallChangePassword a b c) w"
  by (simp_all add: service_servicer_def)

lemmas acts_calls = service_ops [THEN acts_call]

lemmas acts_intros = acts_if acts_sum acts_option acts_with_body acts_calls quiet_answers [THEN acts_quiet]

lemma handlers_act:
  assumes "sv = service_servicer x s"
  shows "acts x s (\<lambda>c. call_key c = (Some ''POST'', ''/api/v1/auth/register'')) (handle_Register x sv r)"
    and "acts x s (\<lambda>c. call_key c = (Some ''POST'', ''/api/v1/auth/login'')) (handle_Login x sv r)"
    and "acts x s (\<lambda>c. call_key c = (Some ''POST'', ''/api/v1/auth/refresh'')) (handle_Refresh sv r)"
    and "acts x s (\<lambda>c. call_key c = (Some ''POST'', ''/api/v1/auth/logout'')) (handle_Logout sv r)"
    and "acts x s (\<lambda>c. call_key c = (Some ''POST'', ''/api/v1/auth/reset-password'')) (handle_ResetPassword sv r)"
    and "acts x s (\<lambda>c. call_key c = (Some ''GET'', ''/api/v1/auth/me'')) (handle_Me sv r)"
    and "acts x s (\<lambda>c. call_key c = (Some ''POST'', ''/api/v1/auth/change-password'')) (handle_ChangePassword sv r)"
  unfolding assms handle_Register_def handle_Login_def handle_Refresh_def handle_Logout_def
    handle_ResetPassword_def handle_Me_def handle_ChangePassword_def
  by (intro acts_intros quiet_intros; simp add: call_key_def)+

lemma forgot_acts:
  "acts x s (\<lambda>c. call_key c = (Some ''POST'', ''/api/v1/auth/forgot-password''))
     (handle_ForgotPassword x (service_servicer x s) r)"
  unfolding handle_ForgotPassword_def Let_def
  by (cases "decodeJSONStrict [''email''] (rq_body r)")
     (auto simp: call_key_def acts_quiet quiet_answers intro!: acts_calls(6) quiet_intros)

subsection \<open>Guards\<close>

text \<open>A guard that leaves the tables alone.\<close>

locale quiet_guard = guard +
  assumes pass_quiet: "pass r e = Some (r', e') \<Longrightarrow> same_tables (ev_world e) (ev_world e')"
    and deny_quiet: "pass r e = None \<Longrightarrow> same_tables (ev_world e) (ev_world (deny r e))"
begin

lemma acts_behind:
  assumes "\<And>r' e e'. pass r e = Some (r', e') \<Longrightarrow> acts x s P (nx r')"
  shows "acts x s P (m nx r)"
  unfolding acts_def
proof
  fix e
  show "same_tables (ev_world e) (ev_world (snd (m nx r e)))
    \<or> (\<exists>c w1. P c \<and> same_tables (ev_world e) w1 \<and> same_tables (perform x s c w1) (ev_world (snd (m nx r e))))"
  proof (cases "pass r e")
    case None
    then show ?thesis using deny_quiet by (simp add: guard finish_def)
  next
    case (Some p)
    obtain r' e' where p: "p = (r', e')" by fastforce
    with Some acts_before [OF pass_quiet assms] show ?thesis by (simp add: guard)
  qed
qed

end

lemma authenticate_tables:
  "same_tables w (snd (authenticate x secret issuer audience (Some GetUserByID) r w))"
  by (auto simp: same_tables_def authenticate_def current_version_def GetUserByID_def exec_eq
      split: sum.splits option.splits prod.splits bool.splits fault.splits)

interpretation quiet_auth: quiet_guard
  "Auth x secret issuer audience (Some GetUserByID)" "auth_pass x secret issuer audience (Some GetUserByID)"
  "auth_deny x secret issuer audience (Some GetUserByID)" for x secret issuer audience
proof
  fix r r' :: request and e e' :: env
  show "auth_pass x secret issuer audience (Some GetUserByID) r e = Some (r', e') \<Longrightarrow>
      same_tables (ev_world e) (ev_world e')"
    using authenticate_tables [of "ev_world e" x secret issuer audience r]
    by (auto simp: auth_pass_def split: sum.splits prod.splits)
  show "same_tables (ev_world e) (ev_world (auth_deny x secret issuer audience (Some GetUserByID) r e))"
    using authenticate_tables [of "ev_world e" x secret issuer audience r]
    by (auto simp: auth_deny_def tables_frame.refl split: sum.splits prod.splits)
qed

lemma cors_world [simp]: "ev_world (cors_env allowed r e) = ev_world e"
  by (simp add: cors_env_def cors_headers_def Let_def)

interpretation quiet_cors: quiet_guard "CORS allowed"
  "\<lambda>r e. if rq_method r = ''OPTIONS'' then None else Some (r, cors_env allowed r e)"
  "\<lambda>r e. write_header 204 (cors_env allowed r e)" for allowed
  by unfold_locales (auto simp: tables_frame.refl split: if_splits)

lemma rate_check_tables: "same_tables w (snd (rate_check key policy w))"
  by (auto simp: same_tables_def rate_check_def redis_call_eq split: prod.splits sum.splits fault.splits)

interpretation quiet_limiter: quiet_guard "RateLimit x rdb opts" "rate_pass x rdb opts" "rate_deny x rdb opts"
  for x rdb opts
proof
  fix r r' :: request and e e' :: env
  obtain key r2 where c: "counted x rdb opts r = (key, r2)" by fastforce
  obtain k where k: "key = None \<or> key = Some k" by (cases key) auto
  obtain v w' where v: "rate_check k (policyForRequest r) (ev_world e) = (v, w')" by fastforce
  have w': "same_tables (ev_world e) w'" using rate_check_tables [of "ev_world e" k "policyForRequest r"] v by simp
  show "rate_pass x rdb opts r e = Some (r', e') \<Longrightarrow> same_tables (ev_world e) (ev_world e')"
    using k v w' by (auto simp: rate_pass_def c tables_frame.refl split: verdict.splits)
  show "same_tables (ev_world e) (ev_world (rate_deny x rdb opts r e))"
    using k v w' by (cases v) (auto simp: rate_deny_def c tables_frame.refl)
qed

subsection \<open>The stack and the routes\<close>

lemma same_acts:
  assumes "acts x s P k" and "\<And>e. \<exists>e'. ev_world e' = ev_world e \<and> ev_world (snd (l e)) = ev_world (snd (k e'))"
  shows "acts x s P l"
proof -
  have "same_tables (ev_world e) (ev_world (snd (l e))) \<or> (\<exists>c w1. P c \<and> same_tables (ev_world e) w1
      \<and> same_tables (perform x s c w1) (ev_world (snd (l e))))" for e
  proof -
    obtain e' where "ev_world e' = ev_world e" "ev_world (snd (l e)) = ev_world (snd (k e'))"
      using assms(2) by blast
    with assms(1) show ?thesis unfolding acts_def by metis
  qed
  then show ?thesis by (simp add: acts_def)
qed

lemma acts_wrappers:
  assumes "acts x s P (nx r)"
  shows "acts x s P (Logger nx r)" and "acts x s P (Metrics y nx r)" and "acts x s P (Recover env nx r)"
proof -
  have "\<exists>e'. ev_world e' = ev_world e \<and> ev_world (snd (Logger nx r e)) = ev_world (snd (nx r e'))" for e
    by (rule exI [of _ "wrap_writer e"])
       (auto simp: Logger_def unwrap_writer_def finish_def Let_def split: prod.splits outcome.splits)
  then show "acts x s P (Logger nx r)" by (rule same_acts [OF assms])
  have "\<exists>e'. ev_world e' = ev_world e \<and> ev_world (snd (Metrics y nx r e)) = ev_world (snd (nx r e'))" for e
    by (rule exI [of _ "wrap_writer e"]) (simp add: Metrics_frame)
  then show "acts x s P (Metrics y nx r)" by (rule same_acts [OF assms])
  have "\<exists>e'. ev_world e' = ev_world e \<and> ev_world (snd (Recover env nx r e)) = ev_world (snd (nx r e'))" for e
    by (rule exI [of _ e]) (auto simp: Recover_def finish_def split: prod.splits outcome.splits)
  then show "acts x s P (Recover env nx r)" by (rule same_acts [OF assms])
qed

lemma acts_bearer: "acts x s P (nx r) \<Longrightarrow> acts x s P (metricsBearerAuth token nx r)"
  unfolding metricsBearerAuth_def by (intro acts_if quiet_answers [THEN acts_quiet], assumption)

definition checker_quiet :: "checker \<Rightarrow> bool" where
  "checker_quiet c \<longleftrightarrow> (\<forall>m. c = Some m \<longrightarrow> evolves same_tables m)"

definition page_quiet :: "handler \<Rightarrow> bool" where
  "page_quiet h \<longleftrightarrow> (\<forall>r. quiet (h r))"

lemma check_tables: "checker_quiet c \<Longrightarrow> same_tables w (snd (check c w))"
  by (auto simp: checker_quiet_def check_def evolves_def tables_frame.refl
      split: option.splits prod.splits sum.splits) (metis snd_conv)+

lemma quiet_health:
  assumes "checker_quiet (hl_db h)" and "checker_quiet (hl_cache h)"
  shows "quiet (Healthz r)" and "quiet (Readyz h r)"
proof -
  show "quiet (Healthz r)" by (simp add: quiet_def Healthz_def finish_def tables_frame.refl)
  have "same_tables (ev_world e) (ev_world (snd (Readyz h r e)))" for e
  proof -
    obtain d w1 c w2 where d: "check (hl_db h) (ev_world e) = (d, w1)" and c: "check (hl_cache h) w1 = (c, w2)"
      by fastforce
    have "same_tables (ev_world e) w2"
      using check_tables [OF assms(1), of "ev_world e"] check_tables [OF assms(2), of w1] d c
      by (auto intro: tables_frame.trans)
    then show ?thesis by (simp add: Readyz_def d c finish_def Let_def)
  qed
  then show "quiet (Readyz h r)" by (simp add: quiet_def)
qed

text \<open>The parts the router is put together from in \<open>main\<close>: the service, its reader of users,
  checkers that only ping.\<close>

definition assembled :: "ext \<Rightarrow> service \<Rightarrow> handler \<Rightarrow> handlers \<Rightarrow> bool" where
  "assembled x s prom h \<longleftrightarrow> hs_auth h = service_servicer x s \<and> page_quiet prom
     \<and> checker_quiet (hl_db (hs_health h)) \<and> checker_quiet (hl_cache (hs_health h))"

lemma route_acts:
  assumes "assembled x s prom h" and "t \<in> set (rtr_routes (NewRouter x prom cfg (Some GetUserByID) rdb h))"
  shows "acts x s (\<lambda>c. call_key c = route_key t) (foldr (\<lambda>m. m) (rte_stack t) (rte_handler t) r)"
  using assms handlers_act [of "hs_auth h" x s] forgot_acts [of x s]
  by (auto simp: NewRouter_def route_defs assembled_def quiet_health page_quiet_def
      acts_quiet intro!: acts_bearer quiet_auth.acts_behind split: if_splits)

lemma dispatch_acts:
  assumes "chi_documented c" and "assembled x s prom h"
  shows "acts x s (\<lambda>k. call_method k = rq_method r \<and> call_path k = rq_path r)
    (dispatch c (rtr_routes (NewRouter x prom cfg (Some GetUserByID) rdb h)) r)"
proof -
  let ?routes = "rtr_routes (NewRouter x prom cfg (Some GetUserByID) rdb h)"
  have silent: "quiet (chi_not_found c r)" "quiet (chi_not_allowed c r)"
    using assms(1) by (simp_all add: chi_documented_def answers_def quiet_def tables_frame.refl)
  show ?thesis
  proof (cases "chi_route c (map route_key ?routes) (rq_method r) (rq_path r)")
    case (Matched i params)
    from route_Matched [OF assms(1) router_static Matched]
    have i: "i < length ?routes" "key_matches (rq_method r) (rq_path r) (route_key (?routes ! i))" by auto
    let ?t = "?routes ! i"
    have "acts x s (\<lambda>k. call_method k = rq_method r \<and> call_path k = rq_path r)
        (foldr (\<lambda>m. m) (rte_stack ?t) (rte_handler ?t) (r\<lparr>rq_params := params\<rparr>))"
      by (rule acts_mono [OF route_acts [OF assms(2) nth_mem [OF i(1)]]])
         (use i(2) in \<open>auto simp: call_key_def key_matches_def prod_eq_iff\<close>)
    then show ?thesis
    proof (rule same_acts)
      fix e
      show "\<exists>e'. ev_world e' = ev_world e \<and> ev_world (snd (dispatch c ?routes r e)) =
          ev_world (snd (foldr (\<lambda>m. m) (rte_stack ?t) (rte_handler ?t) (r\<lparr>rq_params := params\<rparr>) e'))"
        by (rule exI [of _ "e\<lparr>ev_route := rte_pattern ?t\<rparr>"])
           (simp add: dispatch_def Matched Let_def chain_eq [OF assms(1)])
    qed
  qed (auto simp: dispatch_def [abs_def] intro!: acts_quiet silent)
qed

lemma counted_key: "rq_method (snd (counted x rdb opts r)) = rq_method r"
  "rq_path (snd (counted x rdb opts r)) = rq_path r"
  using counted_request [of x rdb opts r] by auto

lemma rate_pass_request: "rate_pass x rdb opts r e = Some (r', e') \<Longrightarrow> r' = snd (counted x rdb opts r)"
  by (auto simp: rate_pass_def split: prod.splits option.splits verdict.splits)

lemma serve_acts:
  assumes "chi_documented c" and "assembled x s prom h"
  shows "acts x s (\<lambda>k. call_method k = rq_method r \<and> call_path k = rq_path r)
    (serve c (NewRouter x prom cfg (Some GetUserByID) rdb h) r)"
  unfolding serve_stack [OF assms(1)]
  by (intro acts_wrappers quiet_cors.acts_behind quiet_limiter.acts_behind)
     (auto dest!: rate_pass_request simp: counted_key split: if_splits
       intro!: dispatch_acts [OF assms, where r = "snd (counted x rdb opts r)" for opts, simplified counted_key])

subsection \<open>A router for the examples\<close>

definition sample_chi :: chi where
  "sample_chi = \<lparr>chi_chain = (\<lambda>ms h. foldr (\<lambda>m. m) ms h),
     chi_route = (\<lambda>keys m p. if m \<in> set http_methods then static_route keys m p else MethodNotAllowed),
     chi_not_found = (\<lambda>r e. finish (Error 404 CodeNotFound ''not found'' e)),
     chi_not_allowed = (\<lambda>r e. finish (Error 405 CodeBadRequest ''method not allowed'' e))\<rparr>"

lemma sample_chi_documented: "chi_documented sample_chi"
proof -
  have "answers (\<lambda>r e. finish (Error c a b e)) c" for c a b
    by (simp add: answers_def returns_finish responds_Error) (simp add: finish_def http_rules)
  then show ?thesis by (simp add: chi_documented_def sample_chi_def)
qed

definition sample_page :: handler where
  "sample_page r e = finish (JSON 200 JNull e)"

definition sample_handlers :: handlers where
  "sample_handlers = \<lparr>hs_health = \<lparr>hl_db = Some ping, hl_cache = Some ping\<rparr>,
     hs_auth = service_servicer sample_ext sample_service\<rparr>"

lemma ping_quiet: "evolves same_tables ping"
  by (auto simp: evolves_def ping_def call_apply take_fault_eq same_tables_def ret_def fail_def
      split: fault.splits)

lemma sample_assembled: "assembled sample_ext sample_service sample_page sample_handlers"
  by (simp add: assembled_def sample_handlers_def checker_quiet_def ping_quiet page_quiet_def
      sample_page_def [abs_def] quiet_answers)

definition sample_config :: "string \<Rightarrow> string \<Rightarrow> config" where
  "sample_config env token = \<lparr>cf_Port = ''8080'', cf_Env = env, cf_DatabaseURL = ''db'', cf_RedisURL = ''r'',
     cf_JWTSecret = ''key'', cf_JWTAccessTokenIssuer = ''iss'', cf_JWTAccessTokenAudience = ''api'',
     cf_ResendAPIKey = '''', cf_EmailFrom = '''', cf_EmailFromName = '''', cf_MetricsBearerToken = token,
     cf_AppBaseURL = ''https://x.io'', cf_AllowedOrigins = [], cf_TrustProxyHeaders = False,
     cf_TrustedProxyCIDRs = [], cf_JWTExpiry = 15 * minute, cf_RefreshExpiry = 168 * hour\<rparr>"

end
