(* ===== verification/ServerTheorems.thy ===== *)
theory ServerTheorems
  imports MiddlewareTheorems NetworkTheorems ServerSpec
begin

text \<open>
  The properties of the server as a whole: requests against the service and its specification,
  what a request needs, and what is recorded of it.
\<close>

subsection \<open>Requests\<close>

abbreviation served where
  "served c x prom cfg rdb h r w \<equiv> serve c (NewRouter x prom cfg (Some GetUserByID) rdb h) r (new_env w)"

lemma served_cases:
  assumes "chi_documented c" and "assembled x s prom h"
  shows "db (ev_world (snd (served c x prom cfg rdb h r w))) = db w \<or>
    (\<exists>k w1. call_method k = rq_method r \<and> call_path k = rq_path r \<and> db w1 = db w \<and> db_now w1 = db_now w
       \<and> db (ev_world (snd (served c x prom cfg rdb h r w))) = db (perform x s k w1))"
  using serve_acts [OF assms, of r cfg rdb] unfolding acts_def same_tables_def
  by (metis new_env_simps(1))

text \<open>C1: The server refines its service: whatever a request holds and whatever calls fail, the tables
  change as by at most one operation of the service, the one that the request's method and path
  name, and the sessions as by one step that the specification allows for that operation.\<close>

theorem request_refines:
  assumes "chi_documented c" and "assembled x s prom h" and "db_ok x (db w)"
  shows "let w' = ev_world (snd (serve c (NewRouter x prom cfg (Some GetUserByID) rdb h) r (new_env w)))
    in db w' = db w \<or> (\<exists>k w1. call_method k = rq_method r \<and> call_path k = rq_path r \<and> db w1 = db w
         \<and> db w' = db (perform x s k w1) \<and> session_step x (db_now w) k (sessions_of (db w)) (sessions_of (db w')))"
  using served_cases [OF assms(1,2), of cfg rdb r w] perform_refines [of x _ _ s] assms(3)
  by (auto simp: Let_def) metis

definition sample_refresh :: request where
  "sample_refresh = sample_request\<lparr>rq_method := ''POST'', rq_path := ''/api/v1/auth/refresh'',
     rq_body := Some (request_body [''refresh_token''] (\<lambda>_. ''tok''))\<rparr>"

lemma request_refines_witness:
  "let w' = ev_world (snd (serve sample_chi (NewRouter sample_ext sample_page (sample_config '''' '''')
        (Some GetUserByID) True sample_handlers) sample_refresh (new_env sample_world)))
   in db w' = sample_db \<or> (\<exists>k w1. call_method k = ''POST'' \<and> call_path k = ''/api/v1/auth/refresh'' \<and> db w1 = sample_db
        \<and> db w' = db (perform sample_ext sample_service k w1)
        \<and> session_step sample_ext 0 k (sessions_of sample_db) (sessions_of (db w')))"
  using request_refines [OF sample_chi_documented sample_assembled, of sample_world "sample_config '''' ''''" True
      sample_refresh] by (simp add: sample_refresh_def)

definition serve_all :: "chi \<Rightarrow> router \<Rightarrow> request list \<Rightarrow> world \<Rightarrow> world" where
  "serve_all c rt rs w = foldl (\<lambda>w r. ev_world (snd (serve c rt r (new_env w)))) w rs"

text \<open>C5: Over any sequence of requests the integrity of the tables holds, no session that has ended
  opens again, and an open one keeps its user, its org and its end or ends.\<close>

theorem requests_integrity:
  assumes "chi_documented c" and "assembled x s prom h" and "db_ok x (db w)"
  shows "let w' = serve_all c (NewRouter x prom cfg (Some GetUserByID) rdb h) rs w
    in db_ok x (db w') \<and> (\<forall>t. case sessions_of (db w) t of
         Absent \<Rightarrow> True | Ended \<Rightarrow> sessions_of (db w') t = Ended
       | Open u r e \<Rightarrow> sessions_of (db w') t \<in> {Open u r e, Ended})"
  using assms(3)
proof (induction rs arbitrary: w)
  case Nil
  then show ?case by (auto simp: serve_all_def Let_def split: session.split)
next
  case (Cons r rs)
  let ?w1 = "ev_world (snd (served c x prom cfg rdb h r w))"
  have ok: "db_ok x (db ?w1)" and grow: "case sessions_of (db w) t of Absent \<Rightarrow> True
      | Ended \<Rightarrow> sessions_of (db ?w1) t = Ended | Open u r e \<Rightarrow> sessions_of (db ?w1) t \<in> {Open u r e, Ended}" for t
  proof -
    from served_cases [OF assms(1,2), of cfg rdb r w] obtain k v
      where v: "db ?w1 = db w \<or> db v = db w \<and> db ?w1 = db (perform x s k v)" by blast
    then show "db_ok x (db ?w1)" using step_keeps_db_ok [OF step_perform, of x v s k] Cons.prems by auto
    from v show "case sessions_of (db w) t of Absent \<Rightarrow> True
      | Ended \<Rightarrow> sessions_of (db ?w1) t = Ended | Open u r e \<Rightarrow> sessions_of (db ?w1) t \<in> {Open u r e, Ended}"
      using session_step_grows [OF perform_refines [of x v k s], of t] Cons.prems
      by (auto split: session.splits)
  qed
  have "serve_all c (NewRouter x prom cfg (Some GetUserByID) rdb h) (r # rs) w =
      serve_all c (NewRouter x prom cfg (Some GetUserByID) rdb h) rs ?w1" by (simp add: serve_all_def)
  with Cons.IH [OF ok] grow show ?case by (fastforce simp: Let_def split: session.splits)
qed

lemma requests_integrity_witness:
  "db_ok sample_ext (db (serve_all sample_chi (NewRouter sample_ext sample_page (sample_config '''' '''')
     (Some GetUserByID) True sample_handlers) [sample_refresh, sample_request, sample_refresh] sample_world))"
  using requests_integrity [OF sample_chi_documented sample_assembled, of sample_world "sample_config '''' ''''" True
      "[sample_refresh, sample_request, sample_refresh]"] by (simp add: Let_def)

subsection \<open>Records\<close>

text \<open>C29: Every request that can be read returns, whatever its contents and whatever calls fail: no
  panic reaches the server. It is logged once. If its method and its route, or its path where it
  has no route, can be values of labels, it is counted once, with the status the client gets, which
  is the logged one. Otherwise counting panics: the request is not counted, and the panic is logged
  after it.\<close>

theorem requests_recorded:
  assumes "chi_documented c" and "page_ok prom" and "rq_body r \<noteq> None" and "labels_documented x"
  shows "\<exists>e ms status. serve c (NewRouter x prom cfg reader rdb h) r (new_env w) = (Returned, e)
    \<and> (if label_value_ok x (rq_method r) \<and> label_value_ok x (metric_route r e)
       then status = final_status (ev_response e)
         \<and> ev_log e = [RequestLog (rq_method r) (rq_path r) status ms (rq_remote_addr r)]
         \<and> ev_counts e = [(rq_method r, metric_route r e, status)]
       else final_status (ev_response e) \<in> {status, 500}
         \<and> ev_log e = [RequestLog (rq_method r) (rq_path r) status ms (rq_remote_addr r),
             PanicLog (rq_method r) (rq_path r) (\<not> isProductionEnv (cf_Env cfg))]
         \<and> ev_counts e = [])"
  by (rule serve_recorded [OF assms])

lemma sample_labels: "labels_documented sample_ext"
  by (simp add: labels_documented_def sample_ext_def)

lemma sample_page_ok: "page_ok sample_page"
  by (simp add: page_ok_def sample_page_def [abs_def] responds_JSON returns_finish)

lemma requests_recorded_witness:
  "\<exists>e. serve sample_chi (NewRouter sample_ext sample_page (sample_config '''' '''') None False sample_handlers)
     sample_request (new_env sample_world) = (Returned, e) \<and> length (ev_log e) \<in> {1, 2}"
proof -
  obtain e ms status where "serve sample_chi (NewRouter sample_ext sample_page (sample_config '''' '''') None False sample_handlers)
     sample_request (new_env sample_world) = (Returned, e)"
    "if label_value_ok sample_ext (rq_method sample_request) \<and> label_value_ok sample_ext (metric_route sample_request e)
     then length (ev_log e) = 1 else length (ev_log e) = 2"
    using requests_recorded [OF sample_chi_documented sample_page_ok _ sample_labels, of sample_request "sample_config '''' ''''"
        None False sample_handlers sample_world]
    by (fastforce simp: sample_request_def split: if_splits)
  then show ?thesis by (metis insertCI)
qed








subsection \<open>Protected endpoints\<close>

text \<open>\<open>denies Q k\<close>: in worlds with \<open>Q\<close>, \<open>k\<close> answers with an error and keeps \<open>Q\<close>.\<close>

definition denies :: "(world \<Rightarrow> bool) \<Rightarrow> (env \<Rightarrow> outcome \<times> env) \<Rightarrow> bool" where
  "denies Q k \<longleftrightarrow> (\<forall>e. unsent e \<longrightarrow> Q (ev_world e) \<longrightarrow>
     400 \<le> final_status (ev_response (snd (k e))) \<and> Q (ev_world (snd (k e))))"

definition unchanged :: "world \<Rightarrow> world \<Rightarrow> bool" where
  "unchanged w v \<longleftrightarrow> db v = db w \<and> app_now v = app_now w"

lemma authenticate_admitted:
  "authenticate x secret issuer audience (Some GetUserByID) r w = (Inr c, w') \<Longrightarrow>
     admitted x secret issuer audience r w c"
  by (auto simp: authenticate_def admitted_bearer current_version_def GetUserByID_def exec_eq one_row_def
      split: sum.splits option.splits prod.splits bool.splits fault.splits)

lemma authenticate_unchanged: "unchanged w (snd (authenticate x secret issuer audience (Some GetUserByID) r w))"
  by (auto simp: authenticate_def current_version_def GetUserByID_def exec_eq unchanged_def
      split: sum.splits option.splits prod.splits bool.splits fault.splits)

lemma unchanged_refl: "unchanged w w" and unchanged_trans: "unchanged u v \<Longrightarrow> unchanged v w \<Longrightarrow> unchanged u w"
  by (simp_all add: unchanged_def)

lemma Auth_denies:
  assumes "\<not> (\<exists>c. admitted x secret issuer audience r w c)"
  shows "denies (unchanged w) (Auth x secret issuer audience (Some GetUserByID) nx r)"
proof -
  have "auth_pass x secret issuer audience (Some GetUserByID) r e = None
      \<and> unchanged w (ev_world (auth_deny x secret issuer audience (Some GetUserByID) r e))"
    if w: "unchanged w (ev_world e)" for e :: env
  proof -
    have same: "admitted x secret issuer audience r (ev_world e) c = admitted x secret issuer audience r w c" for c
      using w by (simp add: admitted_def unchanged_def)
    obtain res w' where a: "authenticate x secret issuer audience (Some GetUserByID) r (ev_world e) = (res, w')"
      by fastforce
    with authenticate_admitted same assms have "\<exists>m. res = Inl m" by (cases res) blast+
    moreover have "unchanged w w'"
      using authenticate_unchanged [of "ev_world e" x secret issuer audience r] a w unchanged_trans by fastforce
    ultimately show ?thesis by (auto simp: auth_pass_def auth_deny_def a)
  qed
  then show ?thesis
    using auth.blocks [of x secret issuer audience "Some GetUserByID" r _ nx]
      auth.deny_error [of x secret issuer audience "Some GetUserByID" r]
    by (simp add: denies_def)
qed

definition protected_paths :: "string list" where
  "protected_paths = [''/api/v1/auth/me'', ''/api/v1/auth/change-password'']"

lemma protected_stack:
  assumes "t \<in> set (rtr_routes (NewRouter x prom cfg reader rdb h))" and "rte_pattern t \<in> set protected_paths"
  shows "rte_stack t = [Auth x (cf_JWTSecret cfg) (cf_JWTAccessTokenIssuer cfg) (cf_JWTAccessTokenAudience cfg) reader]"
  using assms by (auto simp: NewRouter_def route_defs protected_paths_def split: if_splits)

lemma dispatch_denies:
  assumes c: "chi_documented c" and p: "rq_path r \<in> set protected_paths"
    and none: "\<not> (\<exists>cl. admitted x (cf_JWTSecret cfg) (cf_JWTAccessTokenIssuer cfg) (cf_JWTAccessTokenAudience cfg) r w cl)"
  shows "denies (unchanged w) (dispatch c (rtr_routes (NewRouter x prom cfg (Some GetUserByID) rdb h)) r)"
proof (cases "chi_route c (map route_key (rtr_routes (NewRouter x prom cfg (Some GetUserByID) rdb h))) (rq_method r) (rq_path r)")
  case (Matched i params)
  let ?routes = "rtr_routes (NewRouter x prom cfg (Some GetUserByID) rdb h)"
  from route_Matched [OF c router_static Matched]
  have i: "i < length ?routes" "key_matches (rq_method r) (rq_path r) (route_key (?routes ! i))" by auto
  have "rte_pattern (?routes ! i) = rq_path r" using i(2) by (simp add: key_matches_def route_key_def)
  with p have stack: "rte_stack (?routes ! i) = [Auth x (cf_JWTSecret cfg) (cf_JWTAccessTokenIssuer cfg)
      (cf_JWTAccessTokenAudience cfg) (Some GetUserByID)]" using protected_stack [OF nth_mem [OF i(1)]] by simp
  have "\<not> (\<exists>cl. admitted x (cf_JWTSecret cfg) (cf_JWTAccessTokenIssuer cfg) (cf_JWTAccessTokenAudience cfg)
      (r\<lparr>rq_params := params\<rparr>) w cl)" using none by (simp add: admitted_def header_get_def)
  from Auth_denies [OF this, of "rte_handler (?routes ! i)"] show ?thesis
    by (simp add: denies_def dispatch_def Matched Let_def chain_eq [OF c] stack)
next
  case MethodNotAllowed
  then show ?thesis using c by (simp add: denies_def dispatch_def chi_documented_def answers_def)
next
  case NotFound
  then show ?thesis using c by (simp add: denies_def dispatch_def chi_documented_def answers_def)
qed

lemma rate_check_unchanged: "unchanged w (snd (rate_check key policy w))"
  by (auto simp: unchanged_def rate_check_def redis_call_eq split: prod.splits sum.splits fault.splits)

lemma RateLimit_denies:
  assumes "denies (unchanged w) (nx (snd (counted x rdb opts r)))"
  shows "denies (unchanged w) (RateLimit x rdb opts nx r)"
  unfolding denies_def
proof (intro allI impI)
  fix e
  assume e: "unsent e" "unchanged w (ev_world e)"
  obtain key r' where c: "counted x rdb opts r = (key, r')" by fastforce
  note n = assms [unfolded denies_def c snd_conv, rule_format]
  show "400 \<le> final_status (ev_response (snd (RateLimit x rdb opts nx r e)))
      \<and> unchanged w (ev_world (snd (RateLimit x rdb opts nx r e)))"
  proof (cases key)
    case None
    with c n [of e] e show ?thesis by (simp add: limiter.guard rate_pass_def)
  next
    case (Some k)
    obtain d w' where d: "rate_check k (policyForRequest r) (ev_world e) = (d, w')" by fastforce
    then have w': "unchanged w w'"
      using rate_check_unchanged [of "ev_world e" k "policyForRequest r"] e(2) unchanged_trans by fastforce
    let ?e = "e\<lparr>ev_world := w'\<rparr>"
    from e have "unsent ?e" by simp
    with n [of ?e] w' c Some d show ?thesis
      by (cases d) (auto simp: limiter.guard rate_pass_def rate_deny_def finish_def http_rules)
  qed
qed

lemma same_denies:
  assumes "denies Q k"
    and "\<And>e. unsent e \<Longrightarrow> \<exists>e'. unsent e' \<and> ev_world e' = ev_world e
      \<and> ev_world (snd (l e)) = ev_world (snd (k e')) \<and> ev_response (snd (l e)) = ev_response (snd (k e'))"
  shows "denies Q l"
  using assms unfolding denies_def by metis

lemma stack_denies:
  assumes "denies Q (nx r)"
  shows "denies Q (Logger nx r)" and "denies Q (Metrics y nx r)" and "denies Q (Recover env nx r)"
    and "rq_method r \<noteq> ''OPTIONS'' \<Longrightarrow> denies Q (CORS allowed nx r)"
proof -
  note n = assms [unfolded denies_def, rule_format]
  show "denies Q (Logger nx r)"
  proof (rule same_denies [OF assms], rule exI)
    fix e :: env
    assume "unsent e"
    then show "unsent (wrap_writer e) \<and> ev_world (wrap_writer e) = ev_world e
        \<and> ev_world (snd (Logger nx r e)) = ev_world (snd (nx r (wrap_writer e)))
        \<and> ev_response (snd (Logger nx r e)) = ev_response (snd (nx r (wrap_writer e)))"
      by (auto simp: unsent_def Logger_def finish_def unwrap_writer_def Let_def split: prod.split outcome.split)
  qed
  show "denies Q (Metrics y nx r)"
  proof (rule same_denies [OF assms], rule exI)
    fix e :: env
    assume "unsent e"
    then show "unsent (wrap_writer e) \<and> ev_world (wrap_writer e) = ev_world e
        \<and> ev_world (snd (Metrics y nx r e)) = ev_world (snd (nx r (wrap_writer e)))
        \<and> ev_response (snd (Metrics y nx r e)) = ev_response (snd (nx r (wrap_writer e)))"
      by (simp add: unsent_def Metrics_frame)
  qed
  have err: "400 \<le> final_status (ev_response e) \<Longrightarrow> 400 \<le> final_status (ev_response (Error 500 a b (e\<lparr>ev_writers := ws, ev_log := l\<rparr>)))"
    for e a b ws l
  proof -
    have u: "unsent (e\<lparr>ev_writers := ws, ev_log := l\<rparr>) = unsent e" by (simp add: unsent_def)
    assume "400 \<le> final_status (ev_response e)"
    with u show ?thesis by (cases "unsent e") (simp_all add: http_rules)
  qed
  show "denies Q (Recover env nx r)"
    unfolding denies_def
  proof (intro allI impI)
    fix e
    assume "unsent e" "Q (ev_world e)"
    from n [OF this] show "400 \<le> final_status (ev_response (snd (Recover env nx r e)))
        \<and> Q (ev_world (snd (Recover env nx r e)))"
      by (auto simp: Recover_def finish_def err split: prod.splits outcome.splits)
  qed
  have "ev_world (cors_env allowed r e) = ev_world e \<and> (unsent e \<longrightarrow> unsent (cors_env allowed r e))" for e
    by (simp add: cors_env_def cors_headers_def Let_def)
  then show "rq_method r \<noteq> ''OPTIONS'' \<Longrightarrow> denies Q (CORS allowed nx r)"
    using n by (simp add: denies_def cors.guard)
qed

text \<open>C7: The protected endpoints need an access token: a request to them, other than a preflight, that
  the authentication middleware would not admit is answered with an error, whatever service and
  limits there are, and leaves the tables alone.\<close>

theorem protected_endpoints:
  assumes "chi_documented c" and "rq_path r \<in> {''/api/v1/auth/me'', ''/api/v1/auth/change-password''}"
    and "rq_method r \<noteq> ''OPTIONS''"
    and "\<not> (\<exists>cl. admitted x (cf_JWTSecret cfg) (cf_JWTAccessTokenIssuer cfg) (cf_JWTAccessTokenAudience cfg) r w cl)"
  shows "400 \<le> final_status (ev_response (snd (serve c (NewRouter x prom cfg (Some GetUserByID) rdb h) r (new_env w))))
    \<and> db (ev_world (snd (serve c (NewRouter x prom cfg (Some GetUserByID) rdb h) r (new_env w)))) = db w"
proof -
  let ?o = "\<lparr>TrustProxyHeaders = cf_TrustProxyHeaders cfg, TrustedProxies = map Some (cf_TrustedProxyCIDRs cfg)\<rparr>"
  let ?r = "snd (counted x rdb ?o r)"
  have "rq_path ?r \<in> set protected_paths" using assms(2) by (simp add: counted_key protected_paths_def)
  moreover have "\<not> (\<exists>cl. admitted x (cf_JWTSecret cfg) (cf_JWTAccessTokenIssuer cfg) (cf_JWTAccessTokenAudience cfg) ?r w cl)"
    using assms(4) counted_request [of x rdb ?o r] by (auto simp: admitted_def header_get_def)
  ultimately have "denies (unchanged w) (serve c (NewRouter x prom cfg (Some GetUserByID) rdb h) r)"
    unfolding serve_stack [OF assms(1)]
    by (intro stack_denies RateLimit_denies dispatch_denies assms(1,3))
  then show ?thesis using unchanged_refl [of w]
    unfolding denies_def unchanged_def by (metis new_env_simps(1,2))
qed

lemma protected_endpoints_witness:
  "400 \<le> final_status (ev_response (snd (serve sample_chi (NewRouter sample_ext sample_page (sample_config '''' '''')
     (Some GetUserByID) True sample_handlers) sample_request (new_env sample_world))))"
proof -
  have "\<not> (\<exists>cl. admitted sample_ext ''key'' ''iss'' ''api'' sample_request sample_world cl)"
    by (simp add: admitted_def)
  then show ?thesis
    using protected_endpoints [OF sample_chi_documented, of sample_request sample_ext "sample_config '''' ''''" sample_world]
    by (simp add: sample_request_def sample_config_def)
qed

end
