(* ===== verification/Startup.thy ===== *)
theory Startup
  imports Router
begin

text \<open>
  \<open>cmd/server/main.go\<close>, \<open>internal/platform/database/database.go\<close>,
  \<open>internal/platform/cache/redis.go\<close> and \<open>New\<close> of
  \<open>internal/server/server.go\<close>: from the environment to a server. The drivers of Postgres
  and Redis are parameters; the log lines of \<open>main\<close> are not modelled.
\<close>

subsection \<open>Connections\<close>

record pool_config =
  pc_conn :: string
  MaxConns :: int
  MinConns :: int
  MaxConnLifetime :: duration
  MaxConnIdleTime :: duration
  HealthCheckPeriod :: duration

text \<open>
  \<open>pgxpool.ParseConfig\<close> and \<open>NewWithConfig\<close>, \<open>redis.ParseURL\<close>; the last gives
  the options of the client.
\<close>

record drivers =
  pg_parse :: "string \<Rightarrow> err + pool_config"
  pg_connect :: "pool_config \<Rightarrow> unit op"
  redis_parse :: "string \<Rightarrow> err + string"

text \<open>The process: the world and what has become of its two connections.\<close>

datatype connection = Unopened | Opened | Closed

record process =
  pr_world :: world
  pr_pool :: connection
  pr_redis :: connection

definition database_New :: "drivers \<Rightarrow> string \<Rightarrow> process \<Rightarrow> (err + pool_config) \<times> process" where
  "database_New d databaseURL p =
     (case pg_parse d databaseURL of
        Inl e \<Rightarrow> (Inl (ErrWrap ''parse database url'' e), p)
      | Inr parsed \<Rightarrow>
          (let cfg = parsed\<lparr>MaxConns := 10, MinConns := 2, MaxConnLifetime := hour,
                            MaxConnIdleTime := 30 * minute, HealthCheckPeriod := minute\<rparr> in
           case pg_connect d cfg (pr_world p) of
             (Inl e, w1) \<Rightarrow> (Inl (ErrWrap ''create connection pool'' e), p\<lparr>pr_world := w1\<rparr>)
           | (Inr _, w1) \<Rightarrow>
               (case ping w1 of
                  (Inl e, w2) \<Rightarrow> (Inl (ErrWrap ''ping database'' e), p\<lparr>pr_world := w2, pr_pool := Closed\<rparr>)
                | (Inr _, w2) \<Rightarrow> (Inr cfg, p\<lparr>pr_world := w2, pr_pool := Opened\<rparr>))))"

definition cache_New :: "drivers \<Rightarrow> string \<Rightarrow> process \<Rightarrow> (err + string) \<times> process" where
  "cache_New d redisURL p =
     (case redis_parse d redisURL of
        Inl e \<Rightarrow> (Inl (ErrWrap ''parse redis url'' e), p)
      | Inr opts \<Rightarrow>
          (case ping (pr_world p) of
             (Inl e, w1) \<Rightarrow> (Inl (ErrWrap ''ping redis'' e), p\<lparr>pr_world := w1, pr_redis := Closed\<rparr>)
           | (Inr _, w1) \<Rightarrow> (Inr opts, p\<lparr>pr_world := w1, pr_redis := Opened\<rparr>)))"

subsection \<open>The sender and the checks on the configuration\<close>

text \<open>Both functions take a pointer to the configuration, which may be nil.\<close>

definition buildNotificationSender :: "config option \<Rightarrow> err + sender" where
  "buildNotificationSender cfg =
     (case cfg of
        None \<Rightarrow> Inl (ErrText ''config is required'')
      | Some c \<Rightarrow>
          (let hasAnyResendConfig = cf_ResendAPIKey c \<noteq> '''' \<or> cf_EmailFrom c \<noteq> '''' \<or> cf_EmailFromName c \<noteq> '''';
               hasFullResendConfig = cf_ResendAPIKey c \<noteq> '''' \<and> cf_EmailFrom c \<noteq> '''' \<and> cf_EmailFromName c \<noteq> ''''
           in if \<not> hasAnyResendConfig then Inr NoopSender
              else if \<not> hasFullResendConfig
                then Inl (ErrText ''RESEND_API_KEY, EMAIL_FROM, and EMAIL_FROM_NAME must be set together'')
              else NewResendSender (cf_ResendAPIKey c) (cf_EmailFrom c) (cf_EmailFromName c)))"

definition validateRuntimeConfig :: "config option \<Rightarrow> sender \<Rightarrow> err option" where
  "validateRuntimeConfig cfg s =
     (case cfg of
        None \<Rightarrow> Some (ErrText ''config is required'')
      | Some c \<Rightarrow>
          if \<not> equal_fold (cf_Env c) ''production'' then None
          else if cf_AppBaseURL c = '''' then Some (ErrText ''APP_BASE_URL is required in production'')
          else if cf_ResendAPIKey c = '''' \<or> cf_EmailFrom c = '''' \<or> cf_EmailFromName c = ''''
            then Some (ErrText ''production requires RESEND_API_KEY, EMAIL_FROM, and EMAIL_FROM_NAME'')
          else if s = NoopSender then Some (ErrText ''production requires a real notification sender'')
          else None)"

subsection \<open>The server\<close>

record http_server =
  srv_Addr :: string
  srv_Handler :: router
  srv_ReadTimeout :: duration
  srv_ReadHeaderTimeout :: duration
  srv_WriteTimeout :: duration
  srv_IdleTimeout :: duration

definition server_New :: "router \<Rightarrow> string \<Rightarrow> http_server" where
  "server_New handler port =
     \<lparr>srv_Addr = '':'' @ port, srv_Handler = handler, srv_ReadTimeout = 10 * second,
      srv_ReadHeaderTimeout = 5 * second, srv_WriteTimeout = 30 * second, srv_IdleTimeout = 60 * second\<rparr>"

text \<open>\<open>redisChecker.Ping\<close> and \<open>Pool.Ping\<close> are one call each; \<open>health.New\<close>.\<close>

definition redisChecker :: checker where
  "redisChecker = Some ping"

definition health_New :: "checker \<Rightarrow> checker \<Rightarrow> health" where
  "health_New database redis = \<lparr>hl_db = database, hl_cache = redis\<rparr>"

text \<open>What \<open>main\<close> puts together once the connections stand and the sender is built.\<close>

definition service_of :: "config \<Rightarrow> sender \<Rightarrow> service" where
  "service_of cfg s = NewService s (cf_JWTSecret cfg) (cf_AppBaseURL cfg) (cf_JWTAccessTokenIssuer cfg)
     (cf_JWTAccessTokenAudience cfg) (cf_JWTExpiry cfg) (cf_RefreshExpiry cfg)"

definition handlers_of :: "ext \<Rightarrow> config \<Rightarrow> sender \<Rightarrow> handlers" where
  "handlers_of x cfg s = \<lparr>hs_health = health_New (Some ping) redisChecker,
     hs_auth = service_servicer x (service_of cfg s)\<rparr>"

definition router_of :: "ext \<Rightarrow> handler \<Rightarrow> config \<Rightarrow> sender \<Rightarrow> router" where
  "router_of x prom cfg s = NewRouter x prom cfg (Some GetUserByID) True (handlers_of x cfg s)"

text \<open>\<open>main\<close> up to \<open>srv.Start\<close>.\<close>

definition boot ::
    "ext \<Rightarrow> handler \<Rightarrow> drivers \<Rightarrow> float_part \<Rightarrow> map_order \<Rightarrow> environment \<Rightarrow> process \<Rightarrow> (err + http_server) \<times> process"
where
  "boot x prom d fp order env p =
     (case Load fp order env of
        Inl e \<Rightarrow> (Inl e, p)
      | Inr cfg \<Rightarrow>
     (case database_New d (cf_DatabaseURL cfg) p of
        (Inl e, p1) \<Rightarrow> (Inl e, p1)
      | (Inr _, p1) \<Rightarrow>
     (case cache_New d (cf_RedisURL cfg) p1 of
        (Inl e, p2) \<Rightarrow> (Inl e, p2)
      | (Inr _, p2) \<Rightarrow>
     (case buildNotificationSender (Some cfg) of
        Inl e \<Rightarrow> (Inl e, p2)
      | Inr s \<Rightarrow>
     (case validateRuntimeConfig (Some cfg) s of
        Some e \<Rightarrow> (Inl e, p2)
      | None \<Rightarrow> (Inr (server_New (router_of x prom cfg s) (cf_Port cfg)), p2))))))"

text \<open>
  The exit code. \<open>start\<close> is \<open>srv.Start\<close>. \<open>os.Exit(1)\<close> runs no deferred calls: the
  connections are closed only by a \<open>main\<close> that returns.
\<close>

definition main ::
    "ext \<Rightarrow> handler \<Rightarrow> drivers \<Rightarrow> float_part \<Rightarrow> map_order \<Rightarrow> (http_server \<Rightarrow> process \<Rightarrow> err option \<times> process)
     \<Rightarrow> environment \<Rightarrow> process \<Rightarrow> nat \<times> process" where
  "main x prom d fp order start env p =
     (case boot x prom d fp order env p of
        (Inl _, p1) \<Rightarrow> (1, p1)
      | (Inr srv, p1) \<Rightarrow>
          (case start srv p1 of
             (Some _, p2) \<Rightarrow> (1, p2)
           | (None, p2) \<Rightarrow> (0, p2\<lparr>pr_redis := Closed, pr_pool := Closed\<rparr>)))"

subsection \<open>What a server that starts has\<close>

lemma equal_fold_sym: "equal_fold s t = equal_fold t s"
  by (auto simp: equal_fold_def)

lemma boot_okD:
  assumes "boot x prom d fp order env p = (Inr srv, p')"
  shows "\<exists>cfg s. Load fp order env = Inr cfg \<and> buildNotificationSender (Some cfg) = Inr s
    \<and> validateRuntimeConfig (Some cfg) s = None \<and> srv = server_New (router_of x prom cfg s) (cf_Port cfg)
    \<and> pr_pool p' = Opened \<and> pr_redis p' = Opened"
  using assms
  by (auto simp: boot_def database_New_def cache_New_def Let_def
      split: sum.splits prod.splits option.splits)

lemma validateRuntimeConfig_None:
  "validateRuntimeConfig (Some c) s = None \<longleftrightarrow> (equal_fold (cf_Env c) ''production'' \<longrightarrow>
     cf_AppBaseURL c \<noteq> '''' \<and> cf_ResendAPIKey c \<noteq> '''' \<and> cf_EmailFrom c \<noteq> '''' \<and> cf_EmailFromName c \<noteq> ''''
     \<and> s \<noteq> NoopSender)"
  by (auto simp: validateRuntimeConfig_def)

end
