(* ===== verification/Lifecycle.thy ===== *)
theory Lifecycle
  imports Runtime
begin

text \<open>
  \<open>Start\<close> of \<open>internal/server/server.go\<close> as a step relation: the goroutine that
  listens, the \<open>select\<close> over its error and the shutdown signal, and the graceful shutdown
  with its deadline, among requests that come and go and the passing of time.
\<close>

subsection \<open>States and steps\<close>

text \<open>
  \<open>Selecting\<close> waits in the \<open>select\<close>, \<open>ShuttingDown t\<close> in \<open>Shutdown\<close> with a
  context that ends at \<open>t\<close>, \<open>Draining\<close> for the error of the goroutine; \<open>Stopped\<close>
  has the result of \<open>Start\<close>.
\<close>

datatype phase = Selecting | ShuttingDown time | Draining | Stopped "err option"

text \<open>
  The channels \<open>shutdown\<close> and \<open>serverErr\<close> have room for one value. \<open>sv_active\<close>
  counts the requests in flight.
\<close>

record server_state =
  sv_phase :: phase
  sv_signal :: bool
  sv_listening :: bool
  sv_chan :: "err option"
  sv_active :: nat
  sv_now :: time

definition started :: "time \<Rightarrow> server_state" where
  "started now = \<lparr>sv_phase = Selecting, sv_signal = False, sv_listening = True, sv_chan = None,
     sv_active = 0, sv_now = now\<rparr>"

definition listen_result :: "string \<Rightarrow> err \<Rightarrow> err option" where
  "listen_result message e = (if e \<noteq> ErrServerClosed then Some (ErrWrap message e) else None)"

text \<open>
  Time stops for a process that has something to do: an expired context, a value to receive.
\<close>

definition may_wait :: "server_state \<Rightarrow> time \<Rightarrow> bool" where
  "may_wait s until = (case sv_phase s of
     Selecting \<Rightarrow> True | ShuttingDown t \<Rightarrow> until \<le> t | Draining \<Rightarrow> sv_chan s = None | Stopped _ \<Rightarrow> False)"

definition running :: "server_state \<Rightarrow> bool" where
  "running s \<longleftrightarrow> (case sv_phase s of Stopped _ \<Rightarrow> False | _ \<Rightarrow> True)"

text \<open>
  Documented behaviour of \<open>http.Server\<close>: \<open>ListenAndServe\<close> returns an error, which is
  \<open>ErrServerClosed\<close> only after \<open>Shutdown\<close> or \<open>Close\<close>, and returns it at once
  then; \<open>Shutdown\<close> accepts no more requests and returns when none is left, with an error of
  closing the listeners if there was one, or with the error of its context when that ends.
\<close>

inductive server_step :: "server_state \<Rightarrow> server_state \<Rightarrow> bool" where
  accept: "running s \<Longrightarrow> sv_listening s \<Longrightarrow> server_step s (s\<lparr>sv_active := Suc (sv_active s)\<rparr>)"
| complete: "running s \<Longrightarrow> sv_active s = Suc n \<Longrightarrow> server_step s (s\<lparr>sv_active := n\<rparr>)"
| listen_fails: "running s \<Longrightarrow> sv_listening s \<Longrightarrow> e \<noteq> ErrServerClosed \<Longrightarrow>
    server_step s (s\<lparr>sv_listening := False, sv_chan := Some e\<rparr>)"
| signal: "running s \<Longrightarrow> \<not> sv_signal s \<Longrightarrow> server_step s (s\<lparr>sv_signal := True\<rparr>)"
| tick: "sv_now s < until \<Longrightarrow> may_wait s until \<Longrightarrow> server_step s (s\<lparr>sv_now := until\<rparr>)"
| select_error: "sv_phase s = Selecting \<Longrightarrow> sv_chan s = Some e \<Longrightarrow>
    server_step s (s\<lparr>sv_chan := None, sv_phase := Stopped (listen_result ''server error'' e)\<rparr>)"
| select_signal: "sv_phase s = Selecting \<Longrightarrow> sv_signal s \<Longrightarrow>
    server_step s (s\<lparr>sv_signal := False, sv_phase := ShuttingDown (sv_now s + 15 * second),
      sv_listening := False, sv_chan := (if sv_listening s then Some ErrServerClosed else sv_chan s)\<rparr>)"
| shutdown_ok: "sv_phase s = ShuttingDown t \<Longrightarrow> sv_active s = 0 \<Longrightarrow>
    server_step s (s\<lparr>sv_phase := Draining\<rparr>)"
| shutdown_fails: "sv_phase s = ShuttingDown t \<Longrightarrow> sv_active s = 0 \<Longrightarrow>
    server_step s (s\<lparr>sv_phase := Stopped (Some (ErrWrap ''graceful shutdown failed'' e))\<rparr>)"
| shutdown_expires: "sv_phase s = ShuttingDown t \<Longrightarrow> t \<le> sv_now s \<Longrightarrow>
    server_step s (s\<lparr>sv_active := 0,
      sv_phase := Stopped (Some (ErrWrap ''graceful shutdown failed'' ErrDeadline))\<rparr>)"
| drained: "sv_phase s = Draining \<Longrightarrow> sv_chan s = Some e \<Longrightarrow>
    server_step s (s\<lparr>sv_chan := None, sv_phase := Stopped (listen_result ''server error after shutdown'' e)\<rparr>)"

inductive_cases server_step_cases: "server_step s s'"

inductive reachable :: "time \<Rightarrow> server_state \<Rightarrow> bool" for now where
  at_start: "reachable now (started now)"
| then_step: "reachable now s \<Longrightarrow> server_step s s' \<Longrightarrow> reachable now s'"

subsection \<open>Invariant\<close>

text \<open>
  While the \<open>select\<close> waits the channel is empty exactly as long as the goroutine listens, and
  never holds \<open>ErrServerClosed\<close>; from the shutdown on nothing listens and there is an error
  to receive. A result without error comes out of the graceful shutdown, when no request is left.
\<close>

definition server_ok :: "server_state \<Rightarrow> bool" where
  "server_ok s = (case sv_phase s of
     Selecting \<Rightarrow> sv_listening s = (sv_chan s = None) \<and> sv_chan s \<noteq> Some ErrServerClosed
   | ShuttingDown t \<Rightarrow> \<not> sv_listening s \<and> sv_chan s \<noteq> None \<and> sv_now s \<le> t
   | Draining \<Rightarrow> \<not> sv_listening s \<and> sv_chan s \<noteq> None \<and> sv_active s = 0
   | Stopped r \<Rightarrow> r = None \<longrightarrow> \<not> sv_listening s \<and> sv_active s = 0)"

lemma started_ok: "server_ok (started now)"
  by (simp add: server_ok_def started_def)

lemma step_ok: "server_step s s' \<Longrightarrow> server_ok s \<Longrightarrow> server_ok s'"
  by (induction rule: server_step.induct)
     (auto simp: server_ok_def running_def may_wait_def listen_result_def duration_units
       split: phase.splits if_splits)

lemma reachable_ok: "reachable now s \<Longrightarrow> server_ok s"
  by (induction rule: reachable.induct) (auto intro: started_ok step_ok)

subsection \<open>Shutdown ends\<close>

text \<open>What is left to do from the shutdown on: time, requests, a signal nobody will receive.\<close>

definition shutdown_left :: "server_state \<Rightarrow> nat" where
  "shutdown_left s = sv_active s + (if sv_signal s then 0 else 1) +
     (case sv_phase s of ShuttingDown t \<Rightarrow> nat (t - sv_now s) + 2 | Draining \<Rightarrow> 1 | _ \<Rightarrow> 0)"

definition shutting :: "server_state \<Rightarrow> bool" where
  "shutting s \<longleftrightarrow> (case sv_phase s of ShuttingDown t \<Rightarrow> True | Draining \<Rightarrow> True | _ \<Rightarrow> False)"

definition stopped :: "server_state \<Rightarrow> bool" where
  "stopped s \<longleftrightarrow> (case sv_phase s of Stopped r \<Rightarrow> True | _ \<Rightarrow> False)"

lemma stopped_stays: "stopped s \<Longrightarrow> \<not> server_step s s'"
  by (auto simp: stopped_def running_def may_wait_def elim!: server_step_cases split: phase.splits)

lemma shutting_step:
  assumes "server_step s s'" and "server_ok s" and "shutting s"
  shows "shutdown_left s' < shutdown_left s" and "shutting s' \<or> stopped s'"
  using assms
  by (auto simp: shutdown_left_def shutting_def stopped_def server_ok_def running_def may_wait_def
      elim!: server_step_cases split: phase.splits)

lemma shutting_progress: "server_ok s \<Longrightarrow> shutting s \<Longrightarrow> \<exists>s'. server_step s s'"
proof -
  assume ok: "server_ok s" and s: "shutting s"
  show ?thesis
  proof (cases "sv_phase s")
    case (ShuttingDown t)
    then show ?thesis
      using shutdown_ok [of s t] complete [of s "sv_active s - 1"] by (cases "sv_active s") (auto simp: running_def)
  next
    case Draining
    with ok show ?thesis using drained by (fastforce simp: server_ok_def)
  qed (use s in \<open>simp_all add: shutting_def\<close>)
qed

text \<open>The deadline holds until the end.\<close>

definition before :: "time \<Rightarrow> server_state \<Rightarrow> bool" where
  "before t s \<longleftrightarrow> sv_now s \<le> t \<and> (sv_phase s = ShuttingDown t \<or> sv_phase s = Draining \<or> stopped s)"

lemma before_step: "server_step s s' \<Longrightarrow> server_ok s \<Longrightarrow> shutting s \<Longrightarrow> before t s \<Longrightarrow> before t s'"
  by (auto simp: before_def shutting_def stopped_def server_ok_def running_def may_wait_def
      elim!: server_step_cases split: phase.splits)

lemma shutting_run:
  "(server_step ^^ n) s s' \<Longrightarrow> server_ok s \<Longrightarrow> shutting s \<Longrightarrow> before t s \<Longrightarrow>
     shutdown_left s' + n \<le> shutdown_left s \<and> server_ok s' \<and> before t s' \<and> (shutting s' \<or> stopped s')"
proof (induction n arbitrary: s')
  case (Suc n)
  from Suc.prems(1) obtain m where m: "(server_step ^^ n) s m" "server_step m s'" by auto
  with Suc have left: "shutdown_left m + n \<le> shutdown_left s" and ok: "server_ok m" "before t m"
    and sh: "shutting m \<or> stopped m" by blast+
  with m(2) stopped_stays have "shutting m" by blast
  with shutting_step [OF m(2) ok(1)] step_ok [OF m(2) ok(1)] before_step [OF m(2) ok(1) _ ok(2)] left
  show ?case by auto
qed simp

end
