(* ===== verification/StartupTheorems.thy ===== *)
theory StartupTheorems
  imports ServerSpec Startup Lifecycle
begin

text \<open>
  The properties of the process: what a server that starts has, who reads the metrics, when it is
  ready, and that a shutdown ends.
\<close>

subsection \<open>Start\<close>

text \<open>C38: A server that starts has what its parts rely on: both connections are open, the signing key
  has 32 bytes and is not the published placeholder, issuer and audience are set, the router serves
  the service and reads users from the tables. In production, whatever the case of the letters, reset
  links have a base URL and are really sent.\<close>

theorem boot_guarantees:
  assumes "boot x prom d fp order env p = (Inr srv, p')"
  shows "\<exists>cfg s. Load fp order env = Inr cfg \<and> srv_Handler srv = router_of x prom cfg s
    \<and> hs_auth (handlers_of x cfg s) = service_servicer x (service_of cfg s)
    \<and> pr_pool p' = Opened \<and> pr_redis p' = Opened
    \<and> keys_set (service_of cfg s) \<and> 32 \<le> length (jwtSecret (service_of cfg s))
    \<and> jwtSecret (service_of cfg s) \<noteq> ''changeme-use-openssl-rand-base64-32''
    \<and> (equal_fold (cf_Env cfg) ''production'' \<longrightarrow> appBaseURL (service_of cfg s) \<noteq> ''''
         \<and> (\<exists>m. sender (service_of cfg s) = ResendSender m \<and> fromEmail m \<noteq> '''' \<and> fromName m \<noteq> ''''))"
proof -
  from boot_okD [OF assms] obtain cfg s where l: "Load fp order env = Inr cfg"
    and b: "buildNotificationSender (Some cfg) = Inr s" and v: "validateRuntimeConfig (Some cfg) s = None"
    and srv: "srv = server_New (router_of x prom cfg s) (cf_Port cfg)"
    and conns: "pr_pool p' = Opened" "pr_redis p' = Opened" by auto
  have keys: "keys_set (service_of cfg s) \<and> 32 \<le> length (jwtSecret (service_of cfg s))
      \<and> jwtSecret (service_of cfg s) \<noteq> placeholderJWTSecret"
    using Load_okD [OF l] by (auto simp: validate_None keys_set_def service_of_def NewService_def)
  have "\<exists>m. s = ResendSender m \<and> fromEmail m \<noteq> '''' \<and> fromName m \<noteq> ''''" if "s \<noteq> NoopSender"
    using b that by (auto simp: buildNotificationSender_def NewResendSender_def Let_def split: if_splits)
  with v have "equal_fold (cf_Env cfg) ''production'' \<longrightarrow> appBaseURL (service_of cfg s) \<noteq> ''''
      \<and> (\<exists>m. sender (service_of cfg s) = ResendSender m \<and> fromEmail m \<noteq> '''' \<and> fromName m \<noteq> '''')"
    by (auto simp: validateRuntimeConfig_None service_of_def NewService_def)
  with l srv conns keys show ?thesis
    by (auto simp: server_New_def handlers_of_def placeholderJWTSecret_def)
qed

definition sample_env :: "string \<Rightarrow> environment" where
  "sample_env env = (\<lambda>_. '''')(''DATABASE_URL'' := ''db'', ''REDIS_URL'' := ''r'', ''ENV'' := env,
     ''JWT_SECRET'' := ''0123456789abcdef0123456789abcdef'', ''APP_BASE_URL'' := ''https://x.io'',
     ''RESEND_API_KEY'' := ''k'', ''EMAIL_FROM'' := ''a@x.io'', ''EMAIL_FROM_NAME'' := ''App'')"

definition sample_drivers :: drivers where
  "sample_drivers = \<lparr>pg_parse = (\<lambda>u. Inr \<lparr>pc_conn = u, MaxConns = 4, MinConns = 0, MaxConnLifetime = 0,
      MaxConnIdleTime = 0, HealthCheckPeriod = 0\<rparr>), pg_connect = (\<lambda>c. ret ()), redis_parse = Inr\<rparr>"

definition sample_process :: process where
  "sample_process = \<lparr>pr_world = sample_world, pr_pool = Unopened, pr_redis = Unopened\<rparr>"

lemma sample_load:
  "env \<noteq> '''' \<Longrightarrow> \<exists>cfg. Load fp order (sample_env env) = Inr cfg \<and> cf_Env cfg = env \<and> cf_AppBaseURL cfg = ''https://x.io''
     \<and> cf_ResendAPIKey cfg = ''k'' \<and> cf_EmailFrom cfg = ''a@x.io'' \<and> cf_EmailFromName cfg = ''App''"
  by (simp add: Load_def sample_env_def parseBool_def parseCIDRs_def parseDuration_def getEnv_def validate_def missing_variables_def minJWTSecretLength_def
      placeholderJWTSecret_def trim_space_def trim_segments_def segments.simps Let_def)

lemma ping_healthy: "healthy w \<Longrightarrow> ping w = (Inr (), next_fault w)"
  by (simp add: ping_def call_apply take_fault_eq ret_def)

lemma sample_boot:
  assumes "env \<noteq> ''''"
  shows "\<exists>cfg s p'. boot x prom sample_drivers fp order (sample_env env) sample_process =
      (Inr (server_New (router_of x prom cfg s) (cf_Port cfg)), p') \<and> cf_Env cfg = env"
proof -
  from sample_load [OF assms] obtain cfg where cfg: "Load fp order (sample_env env) = Inr cfg" "cf_Env cfg = env"
    "cf_AppBaseURL cfg = ''https://x.io''" "cf_ResendAPIKey cfg = ''k''" "cf_EmailFrom cfg = ''a@x.io''"
    "cf_EmailFromName cfg = ''App''" by blast
  have "\<exists>m. NewResendSender ''k'' ''a@x.io'' ''App'' = Inr (ResendSender m)"
    by (simp add: NewResendSender_def eval_strings char_of_def bit_iff_odd)
  then obtain m where m: "NewResendSender ''k'' ''a@x.io'' ''App'' = Inr (ResendSender m)" ..
  have "\<exists>p1. database_New sample_drivers u sample_process = p1 \<and> (\<exists>a. fst p1 = Inr a) \<and> healthy (pr_world (snd p1))" for u
    by (simp add: database_New_def sample_drivers_def sample_process_def ret_def ping_healthy Let_def)
  then obtain a p1 where db: "database_New sample_drivers (cf_DatabaseURL cfg) sample_process = (Inr a, p1)"
    and h: "healthy (pr_world p1)" by (metis prod.collapse)
  have redis: "\<exists>b p2. cache_New sample_drivers (cf_RedisURL cfg) p1 = (Inr b, p2)"
    by (simp add: cache_New_def sample_drivers_def ping_healthy [OF h])
  then obtain b p2 where "cache_New sample_drivers (cf_RedisURL cfg) p1 = (Inr b, p2)" by blast
  then have "boot x prom sample_drivers fp order (sample_env env) sample_process =
      (Inr (server_New (router_of x prom cfg (ResendSender m)) (cf_Port cfg)), p2)"
    using cfg m db by (simp add: boot_def buildNotificationSender_def validateRuntimeConfig_def Let_def)
  with cfg(2) show ?thesis by blast
qed

lemma boot_guarantees_witness:
  "\<exists>srv p'. boot sample_ext sample_page sample_drivers (\<lambda>_ _ _. 0) id (sample_env ''production'') sample_process
      = (Inr srv, p') \<and> pr_pool p' = Opened \<and> pr_redis p' = Opened"
proof -
  have "''production'' \<noteq> ''''" by simp
  from sample_boot [OF this, of sample_ext sample_page "\<lambda>_ _ _. 0" id] obtain srv p' where
    b: "boot sample_ext sample_page sample_drivers (\<lambda>_ _ _. 0) id (sample_env ''production'') sample_process = (Inr srv, p')"
    by blast
  from boot_guarantees [OF b] b show ?thesis by auto
qed

subsection \<open>Metrics\<close>

lemma static_route_at:
  assumes "i < length keys" and "key_matches m p (keys ! i)" and "\<forall>j < i. \<not> key_matches m p (keys ! j)"
  shows "static_route keys m p = Matched i []"
proof -
  have "find (\<lambda>j. key_matches m p (keys ! j)) [0..<length keys] = Some i"
    unfolding find_Some_iff using assms by (intro exI [of _ i]) auto
  then show ?thesis by (simp add: static_route_def)
qed

lemma static_route_none:
  assumes "\<forall>k \<in> set keys. snd k \<noteq> p"
  shows "static_route keys m p = NotFound"
proof -
  have "find (\<lambda>j. key_matches m p (keys ! j)) [0..<length keys] = None"
    using assms by (auto simp: find_None_iff key_matches_def)
  then show ?thesis using assms by (auto simp: static_route_def list_ex_iff)
qed

lemma documented_route:
  "chi_documented c \<Longrightarrow> rq_method r \<in> set http_methods \<Longrightarrow>
     chi_route c (map route_key (rtr_routes (NewRouter x prom cfg reader rdb h))) (rq_method r) p =
     static_route (map route_key (rtr_routes (NewRouter x prom cfg reader rdb h))) (rq_method r) p"
  using router_static [of x prom cfg reader rdb h] by (simp add: chi_documented_def static_keys_def)

lemma dispatch_metrics:
  assumes "chi_documented c" and "rq_path r = ''/metrics''" and "rq_method r \<in> set http_methods"
  shows "dispatch c (rtr_routes (NewRouter x prom cfg reader rdb h)) r e =
    (if cf_Env cfg = ''production'' \<and> cf_MetricsBearerToken cfg = '''' then chi_not_found c r e
     else if cf_Env cfg = ''production'' \<and> header_get r ''Authorization'' \<noteq> ''Bearer '' @ cf_MetricsBearerToken cfg
       then (Returned, Error 401 CodeUnauthorized ''missing or invalid metrics token'' (e\<lparr>ev_route := ''/metrics''\<rparr>))
     else prom (r\<lparr>rq_params := []\<rparr>) (e\<lparr>ev_route := ''/metrics''\<rparr>))"
proof -
  let ?routes = "rtr_routes (NewRouter x prom cfg reader rdb h)"
  have hdr: "header_get (r\<lparr>rq_params := []\<rparr>) k = header_get r k" for k by (simp add: header_get_def)
  show ?thesis
  proof (cases "cf_Env cfg = ''production'' \<and> cf_MetricsBearerToken cfg = ''''")
    case True
    then have "\<forall>k \<in> set (map route_key ?routes). snd k \<noteq> ''/metrics''"
      by (simp add: NewRouter_def route_defs)
    from static_route_none [OF this] True show ?thesis
      by (simp add: dispatch_def documented_route [OF assms(1,3)] assms(2))
  next
    case False
    have "static_route (map route_key ?routes) (rq_method r) ''/metrics'' = Matched 2 []"
    proof (rule static_route_at)
      show "2 < length (map route_key ?routes)" using False by (auto simp: NewRouter_def route_defs)
      show "key_matches (rq_method r) ''/metrics'' (map route_key ?routes ! 2)"
        using False by (auto simp: NewRouter_def route_defs key_matches_def)
      show "\<forall>j < 2. \<not> key_matches (rq_method r) ''/metrics'' (map route_key ?routes ! j)"
        using False by (auto simp: NewRouter_def route_defs key_matches_def less_2_cases_iff)
    qed
    then have "dispatch c ?routes r e = foldr (\<lambda>m. m) (rte_stack (?routes ! 2)) (rte_handler (?routes ! 2))
        (r\<lparr>rq_params := []\<rparr>) (e\<lparr>ev_route := rte_pattern (?routes ! 2)\<rparr>)"
      by (simp add: dispatch_def documented_route [OF assms(1,3)] assms(2) Let_def chain_eq [OF assms(1)])
    then show ?thesis
      using False hdr
      by (auto simp: NewRouter_def route_defs metricsBearerAuth_def unauthorized_def finish_def)
  qed
qed

text \<open>The metrics page, by environment and token: outside of an environment named exactly
  production it is served to everyone; in production it does not exist without a configured token,
  and with one is served exactly to requests that present it.\<close>

theorem metrics_access:
  assumes "chi_documented c" and "rq_path r = ''/metrics''" and "rq_method r \<in> set http_methods"
  shows "dispatch c (rtr_routes (NewRouter x prom cfg reader rdb h)) r e =
    (if cf_Env cfg = ''production'' \<and> cf_MetricsBearerToken cfg = '''' then chi_not_found c r e
     else if cf_Env cfg = ''production'' \<and> header_get r ''Authorization'' \<noteq> ''Bearer '' @ cf_MetricsBearerToken cfg
       then (Returned, Error 401 CodeUnauthorized ''missing or invalid metrics token'' (e\<lparr>ev_route := ''/metrics''\<rparr>))
     else prom (r\<lparr>rq_params := []\<rparr>) (e\<lparr>ev_route := ''/metrics''\<rparr>))"
  by (rule dispatch_metrics [OF assms])

lemma metrics_access_witness:
  "dispatch sample_chi (rtr_routes (NewRouter sample_ext sample_page (sample_config ''production'' ''t'') None False
     sample_handlers)) (sample_request\<lparr>rq_path := ''/metrics''\<rparr>) (new_env sample_world) =
   (Returned, Error 401 CodeUnauthorized ''missing or invalid metrics token'' ((new_env sample_world)\<lparr>ev_route := ''/metrics''\<rparr>))"
proof -
  have "header_get (sample_request\<lparr>rq_path := ''/metrics''\<rparr>) ''Authorization'' = ''''"
    by (simp add: header_get_def sample_request_def)
  with metrics_access [OF sample_chi_documented, of "sample_request\<lparr>rq_path := ''/metrics''\<rparr>" sample_ext sample_page
      "sample_config ''production'' ''t''" None False sample_handlers "new_env sample_world"]
  show ?thesis by (simp add: sample_request_def sample_config_def http_methods_def)
qed

text \<open>The name of the environment is compared in two ways: with \<open>Production\<close> a process passes
  the checks for production, starts, and hides stacks as in production, but serves the metrics page
  to everyone.\<close>

theorem production_metrics_open:
  "\<exists>cfg s p'. boot x prom sample_drivers fp order (sample_env ''Production'') sample_process =
      (Inr (server_New (router_of x prom cfg s) (cf_Port cfg)), p')
    \<and> equal_fold (cf_Env cfg) ''production'' \<and> isProductionEnv (cf_Env cfg)
    \<and> dispatch sample_chi (rtr_routes (router_of x prom cfg s)) (sample_request\<lparr>rq_path := ''/metrics''\<rparr>) e =
        prom (sample_request\<lparr>rq_path := ''/metrics'', rq_params := []\<rparr>) (e\<lparr>ev_route := ''/metrics''\<rparr>)"
proof -
  have "''Production'' \<noteq> ''''" by simp
  from sample_boot [OF this, of x prom fp order] obtain cfg s p' where
    b: "boot x prom sample_drivers fp order (sample_env ''Production'') sample_process =
      (Inr (server_New (router_of x prom cfg s) (cf_Port cfg)), p')" and env: "cf_Env cfg = ''Production''" by blast
  have fold: "equal_fold ''Production'' ''production''"
    by (simp add: equal_fold_def lower_byte_def in_range_def char_of_def bit_iff_odd)
  have "dispatch sample_chi (rtr_routes (router_of x prom cfg s)) (sample_request\<lparr>rq_path := ''/metrics''\<rparr>) e =
      prom (sample_request\<lparr>rq_path := ''/metrics'', rq_params := []\<rparr>) (e\<lparr>ev_route := ''/metrics''\<rparr>)"
    unfolding router_of_def
    by (subst dispatch_metrics [OF sample_chi_documented]) (simp_all add: sample_request_def env http_methods_def)
  with b env fold show ?thesis by (metis isProductionEnv_def)
qed

subsection \<open>Readiness\<close>

text \<open>The server is ready exactly when both dependencies answer: the status is 200 if the pings of
  the database and of the cache succeed and 503 otherwise, and both are made even if the first fails.\<close>

theorem readiness:
  assumes "unsent e"
  shows "final_status (ev_response (snd (Readyz (health_New (Some ping) redisChecker) r e))) =
      (if faults (ev_world e) (fault_pos (ev_world e)) = NoFault
          \<and> faults (ev_world e) (Suc (fault_pos (ev_world e))) = NoFault then 200 else 503)
    \<and> ev_world (snd (Readyz (health_New (Some ping) redisChecker) r e)) = next_fault (next_fault (ev_world e))"
proof -
  have ping: "ping w = (if faults w (fault_pos w) = NoFault then Inr () else Inl ErrConn, next_fault w)" for w
    by (cases "faults w (fault_pos w)") (simp_all add: ping_def call_apply take_fault_eq ret_def fail_def)
  show ?thesis
    using assms
    by (simp add: Readyz_def health_New_def redisChecker_def check_def ping Let_def finish_def http_rules)
qed

lemma readiness_witness:
  "final_status (ev_response (snd (Readyz (health_New (Some ping) redisChecker) sample_request (new_env sample_world)))) = 200"
  using readiness [of "new_env sample_world" sample_request] by (simp add: sample_world_def)

subsection \<open>Shutdown\<close>

text \<open>How the server stops: the \<open>select\<close> never ends in success, it begins a graceful shutdown only
  on a signal and gives it fifteen seconds, and \<open>Start\<close> returns without an error only when
  nothing listens and no request is in flight.\<close>

theorem start_result:
  assumes "reachable now s" and "server_step s s'"
  shows "(sv_phase s = Selecting \<longrightarrow> sv_phase s' \<noteq> Stopped None)
    \<and> (sv_phase s = Selecting \<longrightarrow> sv_phase s' = ShuttingDown t \<longrightarrow> sv_signal s \<and> t = sv_now s + 15 * second)
    \<and> (sv_phase s' = Stopped None \<longrightarrow> sv_active s' = 0 \<and> \<not> sv_listening s')"
proof -
  have ok: "server_ok s" by (rule reachable_ok [OF assms(1)])
  have "sv_phase s = Selecting \<longrightarrow> sv_phase s' \<noteq> Stopped None
      \<and> (sv_phase s' = ShuttingDown t \<longrightarrow> sv_signal s \<and> t = sv_now s + 15 * second)"
    using assms(2) ok by (auto simp: server_ok_def listen_result_def elim!: server_step_cases)
  moreover have "sv_phase s' = Stopped None \<longrightarrow> sv_active s' = 0 \<and> \<not> sv_listening s'"
    using step_ok [OF assms(2) ok] by (auto simp: server_ok_def)
  ultimately show ?thesis by blast
qed

definition sample_signalled :: server_state where
  "sample_signalled = (started 0)\<lparr>sv_active := 1, sv_signal := True\<rparr>"

definition sample_shutting :: server_state where
  "sample_shutting = sample_signalled\<lparr>sv_signal := False, sv_phase := ShuttingDown (15 * second),
     sv_listening := False, sv_chan := Some ErrServerClosed\<rparr>"

lemma sample_signalled_reachable: "reachable 0 sample_signalled"
proof -
  have "server_step (started 0) ((started 0)\<lparr>sv_active := 1\<rparr>)"
    using accept [of "started 0"] by (simp add: running_def started_def)
  moreover have "server_step ((started 0)\<lparr>sv_active := 1\<rparr>) sample_signalled"
    using signal [of "(started 0)\<lparr>sv_active := 1\<rparr>"] by (simp add: running_def started_def sample_signalled_def)
  ultimately show ?thesis by (meson at_start then_step)
qed

lemma sample_shutdown_step: "server_step sample_signalled sample_shutting"
  using select_signal [of sample_signalled]
  by (simp add: sample_shutting_def sample_signalled_def started_def)

lemma start_result_witness: "sv_signal sample_signalled \<and> 15 * second = sv_now sample_signalled + 15 * second"
  using start_result [OF sample_signalled_reachable sample_shutdown_step, of "15 * second"]
  by (simp add: sample_shutting_def sample_signalled_def started_def)

text \<open>C32: A shutdown ends: from its beginning every run, whatever requests and signals still come, is
  finite, with a bound that the time left and the requests in flight give; it never passes its
  deadline, and can only end where \<open>Start\<close> has returned.\<close>

theorem shutdown_terminates:
  assumes "reachable now s" and "sv_phase s = ShuttingDown t" and "(server_step ^^ n) s s'"
  shows "n \<le> nat (t - sv_now s) + sv_active s + 3 \<and> sv_now s' \<le> t \<and> (stopped s' \<or> (\<exists>s''. server_step s' s''))"
proof -
  have ok: "server_ok s" and sh: "shutting s" and b: "before t s"
    using reachable_ok [OF assms(1)] assms(2) by (auto simp: shutting_def before_def server_ok_def)
  have "shutdown_left s \<le> nat (t - sv_now s) + sv_active s + 3" by (simp add: shutdown_left_def assms(2))
  with shutting_run [OF assms(3) ok sh b] shutting_progress show ?thesis by (auto simp: before_def)
qed

lemma sample_drain: "(server_step ^^ 2) sample_shutting (sample_shutting\<lparr>sv_active := 0, sv_phase := Draining\<rparr>)"
proof -
  have "server_step sample_shutting (sample_shutting\<lparr>sv_active := 0\<rparr>)"
    using complete [of sample_shutting 0] by (simp add: running_def sample_shutting_def sample_signalled_def started_def)
  moreover have "server_step (sample_shutting\<lparr>sv_active := 0\<rparr>) (sample_shutting\<lparr>sv_active := 0, sv_phase := Draining\<rparr>)"
    using shutdown_ok [of "sample_shutting\<lparr>sv_active := 0\<rparr>" "15 * second"] by (simp add: sample_shutting_def)
  ultimately show ?thesis by (auto simp: numeral_2_eq_2)
qed

lemma shutdown_terminates_witness:
  "\<exists>s. server_step (sample_shutting\<lparr>sv_active := 0, sv_phase := Draining\<rparr>) s"
proof -
  have "reachable 0 sample_shutting" by (rule then_step [OF sample_signalled_reachable sample_shutdown_step])
  then show ?thesis
    using shutdown_terminates [OF _ _ sample_drain, of 0 "15 * second"]
    by (simp add: sample_shutting_def stopped_def)
qed

end
