(* ===== verification/RaceTheorems.thy ===== *)
theory RaceTheorems
  imports SessionSpec
begin

text \<open>
  Operations that overlap. The other theories run the operations of the service one after another;
  the code runs them in one goroutine per request, and \<open>Login\<close> of internal/auth/service.go is not
  a transaction: between its check of the password and its insert of the refresh token other
  operations may commit. Here a login is split into these two halves (\<open>Login_halves\<close>) and a
  password reset runs between them.
\<close>

subsection \<open>A login in two halves\<close>

definition login_check :: "ext \<Rightarrow> string \<Rightarrow> string \<Rightarrow> string \<Rightarrow> (user \<times> org_membership) op" where
  "login_check x email0 password orgID =
     (case normalizeEmail x email0 of
        Inl _ \<Rightarrow> fail ErrInvalidCredentials
      | Inr email \<Rightarrow>
          call (GetUserByEmail x email) (\<lambda>r. case r of
              Inl e \<Rightarrow> if errors_is e ErrNoRows then fail ErrInvalidCredentials else fail e
            | Inr u \<Rightarrow>
                if \<not> bcrypt_compare x (us_password_hash u) password then fail ErrInvalidCredentials
                else
                  attempt (ListOrgMembershipsByUser (us_id u)) (\<lambda>memberships.
                    if memberships = [] then fail ErrInvalidCredentials
                    else attempt (lift (selectMembership x memberships orgID)) (\<lambda>m. ret (u, m)))))"

lemma attempt_assoc: "attempt (attempt m k) l = attempt m (\<lambda>a. attempt (k a) l)"
  by (auto simp: fun_eq_iff attempt_apply split: prod.splits sum.splits)

lemma attempt_call: "attempt (call m k) l = call m (\<lambda>r. attempt (k r) l)"
  by (auto simp: fun_eq_iff attempt_apply call_apply split: prod.splits sum.splits)

lemma attempt_case_sum:
  "attempt (case r of Inl e \<Rightarrow> f e | Inr a \<Rightarrow> g a) k =
     (case r of Inl e \<Rightarrow> attempt (f e) k | Inr a \<Rightarrow> attempt (g a) k)"
  by (cases r) simp_all

lemma attempt_if: "attempt (if b then m else n) k = (if b then attempt m k else attempt n k)"
  by simp

lemma Login_halves:
  "Login x s email password orgID =
     attempt (login_check x email password orgID) (\<lambda>(u, m). issueTokens x s u (om_org_id m) (om_role m))"
  unfolding Login_def login_check_def
  by (simp only: attempt_case_sum attempt_if attempt_call attempt_assoc attempt_fail attempt_ret split_conv)


lemma login_check_ok:
  assumes "login_check x e password orgID w = (Inr (u, m), w')"
  shows "db w' = db w \<and> (\<exists>email. find_user_email x email (db w) = Some u)
    \<and> bcrypt_compare x (us_password_hash u) password"
  using assms
  by (auto simp: login_check_def call_apply fail_def lift_def ret_def GetUserByEmail_okD ListOrgMembershipsByUser_okD
      elim!: attempt_okD dest!: GetUserByEmail_okD ListOrgMembershipsByUser_okD
      split: sum.splits if_splits prod.splits)

lemma issueTokens_opens:
  assumes "issueTokens x s u r role w = (Inr res, w')"
  shows "sessions_of (db w') = (sessions_of (db w))
      (hashOpaqueToken x (ar_refresh_token res) := Open (us_id u) r (app_now w + refreshExpiry s))
    \<and> users (db w') = users (db w)"
proof -
  have "\<exists>k. insert_token (db_now w) (hashOpaqueToken x (ar_refresh_token res)) (us_id u) r
      (app_now w + refreshExpiry s) (db w) = (Inr k, db w')"
    using assms
    by (auto simp: issueTokens_def GenerateAccessToken_ok GenerateRefreshToken_apply CreateRefreshToken_def
        read_world_def ret_def elim!: attempt_okD dest!: exec_okD split: option.splits)
  then obtain k where "insert_token (db_now w) (hashOpaqueToken x (ar_refresh_token res)) (us_id u) r
      (app_now w + refreshExpiry s) (db w) = (Inr k, db w')" ..
  with sessions_insert [of "db_now w" "hashOpaqueToken x (ar_refresh_token res)" "us_id u" r
      "app_now w + refreshExpiry s" "db w" k]
  show ?thesis using issueTokens_okD [OF assms] by auto
qed

lemma end_all_none: "end_all u S h \<noteq> Open u r t"
  by (auto simp: end_all_def split: session.splits)

lemma sessions_password:
  "sessions_of (password_changed now i hash d) = end_all i (sessions_of d)"
proof -
  have "refresh_tokens (password_changed now i hash d) = refresh_tokens (snd (revoke_user_tokens i d))"
    using sessions_ended_password [of i d now hash] by (simp add: sessions_ended_def revoke_user_tokens_def)
  from sessions_tokens [OF this] show ?thesis by (simp add: sessions_revoke)
qed

text \<open>C25: A password reset ends the sessions of its user that are open when it commits, and no other. A
  login that has read the account and accepted the old password before the reset, and inserts its
  refresh token after it, opens a session under the new password and the new version: the one
  session the user then has.\<close>

theorem login_outlives_reset:
  assumes "db_ok x (db w)" and "login_check x e old orgID w = (Inr (u, m), w1)"
    and "healthy w1" and "validatePassword x password = None" and "live_reset x w1 token = Some (us_id u)"
    and "rand_src w1 (rand_pos w1) = Some salt" and "bcrypt_generate x salt password 12 = Some hash"
    and "version_left (us_id u) (db w1)"
    and "issueTokens x s u (om_org_id m) (om_role m) (snd (ResetPassword x token password w1)) = (Inr res, w3)"
  shows "find_user (us_id u) (db w3) =
      Some (u\<lparr>us_password_hash := hash, us_updated_at := db_now w1, us_token_version := us_token_version u + 1\<rparr>)
    \<and> (\<exists>t. sessions_of (db w3) h = Open (us_id u) r t) =
        (h = hashOpaqueToken x (ar_refresh_token res) \<and> r = om_org_id m)"
proof -
  let ?w2 = "snd (ResetPassword x token password w1)"
  note check = login_check_ok [OF assms(2)]
  then have "u \<in> set (users (db w))" by (auto simp: find_user_email_def dest: find_SomeD)
  with assms(1) check have u: "find_user (us_id u) (db w1) = Some u"
    by (auto simp: find_user_def db_ok_def users_ok_def intro: find_distinct_key)
  have reset: "db ?w2 = password_changed (db_now w1) (us_id u) hash (db w1)"
    using ResetPassword_live [OF assms(3,4,5,6,7,8)] by simp
  note opens = issueTokens_opens [OF assms(9)]
  have "find_user (us_id u) (db w3) = find_user (us_id u) (db ?w2)" using opens by (simp add: find_user_def)
  then show ?thesis
    using opens u by (auto simp: reset password_changed_effect(1) sessions_password end_all_none)
qed

lemma ResetPassword_faults:
  "faults (snd (ResetPassword x token password w)) = faults w
   \<and> fault_pos w \<le> fault_pos (snd (ResetPassword x token password w))"
  by (auto simp: ResetPassword_def call_apply attempt_apply redis_call_eq getdel_command_def fail_def ret_def
      generate_from_password_def rand_read_def WithTxQueries_def WithTx_eq set_password_tx_def query_defs exec_eq
      split: option.splits prod.splits sum.splits fault.splits)

lemma login_outlives_reset_witness:
  "\<exists>res w3 t. issueTokens sample_ext sample_service ann 2 ''admin''
       (snd (ResetPassword sample_ext ''r'' ''N3wPassword!''
         (snd (login_check sample_ext ''ann@x.io'' ''Passw0rd1234'' '''' reset_world)))) = (Inr res, w3)
     \<and> sessions_of (db w3) (hashOpaqueToken sample_ext (ar_refresh_token res)) = Open 1 2 t"
proof -
  let ?w1 = "next_fault (next_fault reset_world)"
  have check: "login_check sample_ext ''ann@x.io'' ''Passw0rd1234'' '''' reset_world = (Inr (ann, ann_admin), ?w1)"
    by (simp add: login_check_def call_apply attempt_apply queries_healthy one_row_def lift_def ret_def
        selectMembership_def)
  have reset: "db (snd (ResetPassword sample_ext ''r'' ''N3wPassword!'' ?w1)) = password_changed 0 1 ''N3wPassword!'' sample_db"
    using ResetPassword_live [of ?w1 sample_ext "''N3wPassword!''" "''r''" 1 "[char_of (0::nat)]" "''N3wPassword!''"]
      sample_live_reset by (simp add: sample_hash_new live_reset_def)
  let ?w2 = "snd (ResetPassword sample_ext ''r'' ''N3wPassword!'' ?w1)"
  have src: "rand_src ?w2 n = Some [char_of n]" "healthy ?w2" for n
    using ResetPassword_source [of sample_ext "''r''" "''N3wPassword!''" ?w1]
      ResetPassword_faults [of sample_ext "''r''" "''N3wPassword!''" ?w1] reset_world_simps(2)
    by (auto simp: healthy_def)
  have frame: "find_org r (password_changed now i h d) = find_org r d"
    "find_token t d = None \<Longrightarrow> find_token t (password_changed now i h d) = None" for r now i h d t
    by (auto simp: find_org_def find_token_def password_changed_def revoke_all.find_upd)
  have "find_org 2 sample_db \<noteq> None" by (simp add: find_org_def sample_rows)
  moreover obtain a where "signs sample_ext sample_service ann 2 ''admin'' [char_of (rand_pos ?w2)] (app_now ?w2) a"
    using sample_signs by blast
  note issueTokens_healthy [OF src(2,1) this src(1)]
  ultimately obtain res w3 where issued: "issueTokens sample_ext sample_service ann 2 ''admin'' ?w2 = (Inr res, w3)"
    by (auto simp: reset password_changed_effect(1) frame)
  from login_outlives_reset [of sample_ext reset_world _ _ _ _ _ ?w1 "''N3wPassword!''" "''r''" _
      "''N3wPassword!''" sample_service res w3 "hashOpaqueToken sample_ext (ar_refresh_token res)" 2, OF _ check]
  show ?thesis using issued sample_live_reset
    by (simp add: check sample_hash_new live_reset_def)
qed

end
