(* ===== verification/Concurrent.thy ===== *)
theory Concurrent
  imports SessionSpec
begin

text \<open>
  Transactions that run at the same time. The service begins one for each registration, refresh,
  logout and password change, at the isolation level \<open>pool.Begin\<close> gives, Postgres's READ
  COMMITTED. Here a transaction is a tree of the statements its Go function sends, and the server
  runs the statements of several transactions in any order under the documented rules of that
  level: a statement sees what was committed when it ran and what its own transaction wrote; a
  row that a transaction has updated belongs to it until it ends, and others that would update
  the row wait; an insert waits for an unfinished insert of the same key and for an unfinished
  update of a row with that key; after the wait the conditions are checked on the rows as
  committed. An insert takes the entries of all its indexes in one step.
\<close>

subsection \<open>Bodies of transactions\<close>

datatype result = Rotated user string org_membership | Registered user org | Finished

text \<open>A body sends a statement and goes on with its answer, or is done.\<close>

datatype script =
    Done "err + result"
  | Consume string "err + refresh_token \<Rightarrow> script"
  | ReadUser uuid "err + user \<Rightarrow> script"
  | ReadMembership uuid uuid "err + org_membership \<Rightarrow> script"
  | InsertToken string uuid uuid time "err + refresh_token \<Rightarrow> script"
  | BumpVersion uuid "err + unit \<Rightarrow> script"
  | StorePassword uuid string "err + unit \<Rightarrow> script"
  | RevokeAll uuid "err + unit \<Rightarrow> script"
  | InsertUser uuid string string string "err + user \<Rightarrow> script"
  | InsertOrg uuid string "err + org \<Rightarrow> script"
  | InsertMembership uuid uuid uuid string "err + org_membership \<Rightarrow> script"

text \<open>\<open>if err != nil { return f(err) }\<close> after a statement.\<close>

definition proceed :: "(err \<Rightarrow> err) \<Rightarrow> ('a \<Rightarrow> script) \<Rightarrow> err + 'a \<Rightarrow> script" where
  "proceed f k r = (case r of Inl e \<Rightarrow> Done (Inl (f e)) | Inr a \<Rightarrow> k a)"

text \<open>
  The transaction of \<open>Register\<close>; \<open>i\<close>, \<open>j\<close> and \<open>l\<close> are what \<open>gen_random_uuid()\<close> gives
  for the three rows.
\<close>

definition register_body :: "ext \<Rightarrow> string \<Rightarrow> string \<Rightarrow> string \<Rightarrow> uuid \<times> uuid \<times> uuid \<Rightarrow> script" where
  "register_body x email hash fullName ids = (case ids of (i, j, l) \<Rightarrow>
     InsertUser i email hash fullName
       (proceed (\<lambda>txErr. if isUniqueEmailViolation txErr then ErrEmailExists else txErr) (\<lambda>u.
     InsertOrg j '''' (proceed id (\<lambda>org.
     InsertMembership l (us_id u) (or_id org) RoleAdmin (proceed id (\<lambda>_. Done (Inr (Registered u org)))))))))"

text \<open>
  The transaction of \<open>Refresh\<close>; \<open>new\<close> is what \<open>GenerateRefreshToken\<close> gives and
  \<open>now\<close> the time of the process at the insert.
\<close>

definition refresh_body :: "ext \<Rightarrow> service \<Rightarrow> string \<Rightarrow> err + string \<Rightarrow> time \<Rightarrow> script" where
  "refresh_body x s refreshToken new now =
     Consume (hashOpaqueToken x refreshToken) (proceed no_rows_is_invalid_token (\<lambda>rt.
     ReadUser (rt_user_id rt) (proceed no_rows_is_invalid_token (\<lambda>u.
     ReadMembership (us_id u) (rt_org_id rt) (proceed no_rows_is_invalid_token (\<lambda>m.
     proceed id (\<lambda>newRefreshToken.
       InsertToken (hashOpaqueToken x newRefreshToken) (us_id u) (om_org_id m) (now + refreshExpiry s)
         (proceed id (\<lambda>_. Done (Inr (Rotated u newRefreshToken m))))) new))))))"

definition logout_body :: "ext \<Rightarrow> string \<Rightarrow> script" where
  "logout_body x refreshToken =
     Consume (hashOpaqueToken x refreshToken) (\<lambda>r. case r of
         Inl e \<Rightarrow> Done (if errors_is e ErrNoRows then Inr Finished else Inl e)
       | Inr rt \<Rightarrow>
           BumpVersion (rt_user_id rt) (proceed id (\<lambda>_.
           RevokeAll (rt_user_id rt) (proceed id (\<lambda>_. Done (Inr Finished))))))"

definition set_password_body :: "uuid \<Rightarrow> string \<Rightarrow> script" where
  "set_password_body uid hash =
     StorePassword uid hash (proceed id (\<lambda>_.
     BumpVersion uid (proceed id (\<lambda>_.
     RevokeAll uid (proceed id (\<lambda>_. Done (Inr Finished)))))))"

text \<open>The insert of \<open>issueTokens\<close>, a statement outside of any transaction.\<close>

definition issue_body :: "string \<Rightarrow> uuid \<Rightarrow> uuid \<Rightarrow> time \<Rightarrow> script" where
  "issue_body t u r expires = InsertToken t u r expires (proceed id (\<lambda>_. Done (Inr Finished)))"

datatype job =
    RefreshJob string "err + string" time
  | LogoutJob string
  | PasswordJob uuid string
  | IssueJob string uuid uuid time
  | RegisterJob string string string "uuid \<times> uuid \<times> uuid"

fun body_of :: "ext \<Rightarrow> service \<Rightarrow> job \<Rightarrow> script" where
  "body_of x s (RefreshJob t new now) = refresh_body x s t new now"
| "body_of x s (LogoutJob t) = logout_body x t"
| "body_of x s (PasswordJob uid hash) = set_password_body uid hash"
| "body_of x s (IssueJob t u r expires) = issue_body t u r expires"
| "body_of x s (RegisterJob email hash name ids) = register_body x email hash name ids"

subsection \<open>Writes and rows\<close>

text \<open>
  What belongs to a transaction: rows it has updated, and the keys of rows it has inserted, in the
  primary keys and in the unique indexes on the lower-cased e-mail and on user and org.
\<close>

datatype row =
    TokenRow string | UserRow uuid
  | TokenKey string | UserKey uuid | EmailKey string | OrgKey uuid | MemberKey uuid | PairKey uuid uuid

text \<open>What a transaction has written so far, step by step; \<open>Entry\<close> is that of a second index.\<close>

datatype effect =
    Consumed string
  | Revoked string
  | Added refresh_token
  | Bumped uuid time
  | Stored uuid time string
  | NewUser user
  | NewOrg org
  | NewMember org_membership
  | Entry row

fun row_of :: "effect \<Rightarrow> row" where
  "row_of (Consumed t) = TokenRow t"
| "row_of (Revoked t) = TokenRow t"
| "row_of (Added k) = TokenKey (rt_token k)"
| "row_of (Bumped i now) = UserRow i"
| "row_of (Stored i now hash) = UserRow i"
| "row_of (NewUser u) = UserKey (us_id u)"
| "row_of (NewOrg r) = OrgKey (or_id r)"
| "row_of (NewMember m) = MemberKey (om_id m)"
| "row_of (Entry r) = r"

fun apply_write :: "effect \<Rightarrow> database \<Rightarrow> database" where
  "apply_write (Consumed t) d = snd (revoke_token t d)"
| "apply_write (Revoked t) d = snd (revoke_token t d)"
| "apply_write (Added k) d = d\<lparr>refresh_tokens := refresh_tokens d @ [k]\<rparr>"
| "apply_write (Bumped i now) d = d\<lparr>users := map (bump_row now i) (users d)\<rparr>"
| "apply_write (Stored i now hash) d = snd (update_password now i hash d)"
| "apply_write (NewUser u) d = d\<lparr>users := users d @ [u]\<rparr>"
| "apply_write (NewOrg r) d = d\<lparr>orgs := orgs d @ [r]\<rparr>"
| "apply_write (NewMember m) d = d\<lparr>org_memberships := org_memberships d @ [m]\<rparr>"
| "apply_write (Entry r) d = d"

definition apply_writes :: "effect list \<Rightarrow> database \<Rightarrow> database" where
  "apply_writes ws d = fold apply_write ws d"

subsection \<open>The server\<close>

datatype status = Active | Committed result | Aborted err

text \<open>
  \<open>NOW()\<close> is the time a transaction began. While an update of all tokens of a user runs,
  \<open>tx_scan\<close> holds the rows its snapshot found and it has not written yet.
\<close>

record txn =
  tx_job :: job
  tx_now :: time
  tx_writes :: "effect list"
  tx_body :: script
  tx_scan :: "string list option"
  tx_status :: status

record server =
  committed :: database
  txns :: "nat \<Rightarrow> txn option"

definition holds :: "txn \<Rightarrow> row \<Rightarrow> bool" where
  "holds a r \<longleftrightarrow> tx_status a = Active \<and> r \<in> row_of ` set (tx_writes a)"

definition free :: "server \<Rightarrow> nat \<Rightarrow> row \<Rightarrow> bool" where
  "free v i r \<longleftrightarrow> (\<forall>j a. j \<noteq> i \<longrightarrow> txns v j = Some a \<longrightarrow> \<not> holds a r)"

definition view :: "server \<Rightarrow> txn \<Rightarrow> database" where
  "view v a = apply_writes (tx_writes a) (committed v)"

text \<open>
  A statement: what it writes and the body that goes on with its answer, or None where it has
  to wait.
\<close>

fun statement :: "ext \<Rightarrow> (row \<Rightarrow> bool) \<Rightarrow> time \<Rightarrow> database \<Rightarrow> script \<Rightarrow> (effect list \<times> script) option" where
  "statement x ok now d (Consume t k) =
     (if list_ex (consumable now t) (refresh_tokens d) \<and> \<not> ok (TokenRow t) then None
      else case fst (consume_token now t d) of
          Inl e \<Rightarrow> Some ([], k (Inl e)) | Inr row \<Rightarrow> Some ([Consumed t], k (Inr row)))"
| "statement x ok now d (ReadUser i k) = Some ([], k (one_row (find_user i d)))"
| "statement x ok now d (ReadMembership u r k) = Some ([], k (one_row (find_membership u r d)))"
| "statement x ok now d (InsertToken t u r expires k) =
     (if \<not> ok (TokenKey t) \<or> \<not> ok (TokenRow t) then None
      else case fst (insert_token now t u r expires d) of
          Inl e \<Rightarrow> Some ([], k (Inl e)) | Inr row \<Rightarrow> Some ([Added row], k (Inr row)))"
| "statement x ok now d (BumpVersion i k) =
     (if find_user i d \<noteq> None \<and> \<not> ok (UserRow i) then None
      else case fst (increment_version now i d) of
          Inl e \<Rightarrow> Some ([], k (Inl e))
        | Inr u \<Rightarrow> Some (if find_user i d = None then [] else [Bumped i now], k (Inr u)))"
| "statement x ok now d (StorePassword i hash k) =
     (if find_user i d \<noteq> None \<and> \<not> ok (UserRow i) then None
      else Some (if find_user i d = None then [] else [Stored i now hash], k (Inr ())))"
| "statement x ok now d (InsertUser i email hash name k) =
     (if \<not> ok (UserKey i) \<or> \<not> ok (EmailKey (pg_lower x email))
         \<or> list_ex (\<lambda>u. (us_id u = i \<or> pg_lower x (us_email u) = pg_lower x email)
             \<and> \<not> ok (UserRow (us_id u))) (users d) then None
      else case fst (insert_user x now i email hash name d) of
          Inl e \<Rightarrow> Some ([], k (Inl e))
        | Inr u \<Rightarrow> Some ([NewUser u, Entry (EmailKey (pg_lower x email))], k (Inr u)))"
| "statement x ok now d (InsertOrg i name k) =
     (if \<not> ok (OrgKey i) then None
      else case fst (insert_org now i name d) of
          Inl e \<Rightarrow> Some ([], k (Inl e)) | Inr r \<Rightarrow> Some ([NewOrg r], k (Inr r)))"
| "statement x ok now d (InsertMembership i u r role k) =
     (if \<not> ok (MemberKey i) \<or> \<not> ok (PairKey u r) then None
      else case fst (insert_membership now i u r role d) of
          Inl e \<Rightarrow> Some ([], k (Inl e))
        | Inr m \<Rightarrow> Some ([NewMember m, Entry (PairKey u r)], k (Inr m)))"
| "statement x ok now d _ = None"

text \<open>
  The steps. \<open>Scan\<close>, \<open>WriteRow\<close> and \<open>EndScan\<close> run \<open>RevokeAllUserRefreshTokens\<close>:
  it writes the rows of its snapshot one by one, in any order. \<open>Finish\<close> is the end of
  \<open>WithTx\<close>: commit, or rollback when the function returned an error. \<open>Fail\<close> is the
  end of a transaction by the server or by a lost connection, at any moment.
\<close>

datatype action =
    Begin nat time job | Statement nat | Scan nat | WriteRow nat string | EndScan nat
  | Finish nat | Fail nat

definition set_txn :: "nat \<Rightarrow> txn \<Rightarrow> server \<Rightarrow> server" where
  "set_txn i a v = v\<lparr>txns := (txns v)(i \<mapsto> a)\<rparr>"

definition active :: "server \<Rightarrow> nat \<Rightarrow> txn option" where
  "active v i = (case txns v i of
     Some a \<Rightarrow> if tx_status a = Active then Some a else None | None \<Rightarrow> None)"

definition finish_txn :: "nat \<Rightarrow> txn \<Rightarrow> err + result \<Rightarrow> server \<Rightarrow> server" where
  "finish_txn i a r v = (case r of
     Inl e \<Rightarrow> set_txn i (a\<lparr>tx_status := Aborted e\<rparr>) v
   | Inr c \<Rightarrow> set_txn i (a\<lparr>tx_status := Committed c\<rparr>) v\<lparr>committed := view v a\<rparr>)"

fun act :: "ext \<Rightarrow> service \<Rightarrow> action \<Rightarrow> server \<Rightarrow> server option" where
  "act x s (Begin i now job) v =
     (if txns v i \<noteq> None then None
      else Some (set_txn i \<lparr>tx_job = job, tx_now = now, tx_writes = [], tx_body = body_of x s job,
                            tx_scan = None, tx_status = Active\<rparr> v))"
| "act x s (Statement i) v = (case active v i of
     None \<Rightarrow> None
   | Some a \<Rightarrow>
       if tx_scan a \<noteq> None then None
       else map_option (\<lambda>(ws, b). set_txn i (a\<lparr>tx_writes := tx_writes a @ ws, tx_body := b\<rparr>) v)
              (statement x (free v i) (tx_now a) (view v a) (tx_body a)))"
| "act x s (Scan i) v = (case active v i of
     None \<Rightarrow> None
   | Some a \<Rightarrow> (case (tx_scan a, tx_body a) of
       (None, RevokeAll u k) \<Rightarrow> Some (set_txn i (a\<lparr>tx_scan :=
           Some (map rt_token (filter (\<lambda>k. rt_user_id k = u) (refresh_tokens (view v a))))\<rparr>) v)
     | _ \<Rightarrow> None))"
| "act x s (WriteRow i t) v = (case active v i of
     None \<Rightarrow> None
   | Some a \<Rightarrow> (case tx_scan a of
       None \<Rightarrow> None
     | Some ts \<Rightarrow>
         if t \<in> set ts \<and> free v i (TokenRow t)
         then Some (set_txn i (a\<lparr>tx_writes := tx_writes a @ [Revoked t], tx_scan := Some (remove1 t ts)\<rparr>) v)
         else None))"
| "act x s (EndScan i) v = (case active v i of
     None \<Rightarrow> None
   | Some a \<Rightarrow> (case (tx_scan a, tx_body a) of
       (Some [], RevokeAll u k) \<Rightarrow> Some (set_txn i (a\<lparr>tx_scan := None, tx_body := k (Inr ())\<rparr>) v)
     | _ \<Rightarrow> None))"
| "act x s (Finish i) v = (case active v i of
     None \<Rightarrow> None
   | Some a \<Rightarrow> (case tx_body a of Done r \<Rightarrow> Some (finish_txn i a r v) | _ \<Rightarrow> None))"
| "act x s (Fail i) v = (case active v i of
     None \<Rightarrow> None
   | Some a \<Rightarrow> Some (set_txn i (a\<lparr>tx_status := Aborted ErrConn\<rparr>) v))"

definition idle :: "database \<Rightarrow> server" where
  "idle d = \<lparr>committed = d, txns = Map.empty\<rparr>"

inductive runs :: "ext \<Rightarrow> service \<Rightarrow> server \<Rightarrow> server \<Rightarrow> bool" for x s where
  runs_refl: "runs x s v v"
| runs_step: "runs x s u v \<Longrightarrow> act x s a v = Some w \<Longrightarrow> runs x s u w"

fun act_all :: "ext \<Rightarrow> service \<Rightarrow> action list \<Rightarrow> server \<Rightarrow> server option" where
  "act_all x s [] v = Some v"
| "act_all x s (a # as) v = (case act x s a v of None \<Rightarrow> None | Some w \<Rightarrow> act_all x s as w)"

end
