(* ===== verification/ConcurrentProps.thy ===== *)
theory ConcurrentProps
  imports Concurrent
begin

text \<open>
  Invariants of the server with transactions that run at the same time: the writes of a transaction
  row by row, the rule for invariants (a locale with a law for each kind of step), the integrity
  of the tables with exclusive rows and keys (\<open>integrity\<close>), that a token is consumed and an
  e-mail registered once (\<open>claimed_once\<close>), and that a refresh and a registration commit only
  after that (\<open>job_claims\<close>).
\<close>

subsection \<open>Writes, row by row\<close>

fun user_write :: "effect \<Rightarrow> user \<Rightarrow> user" where
  "user_write (Bumped i now) = bump_row now i"
| "user_write (Stored i now hash) = password_row now i hash"
| "user_write _ = id"

fun token_write :: "effect \<Rightarrow> refresh_token \<Rightarrow> refresh_token" where
  "token_write (Consumed t) k = (if rt_token k = t then revoke_row k else k)"
| "token_write (Revoked t) k = (if rt_token k = t then revoke_row k else k)"
| "token_write _ k = k"

fun added_row :: "effect \<Rightarrow> refresh_token list" where
  "added_row (Added k) = [k]"
| "added_row _ = []"

fun made_user :: "effect \<Rightarrow> user list" where
  "made_user (NewUser u) = [u]"
| "made_user _ = []"

fun made_org :: "effect \<Rightarrow> org list" where
  "made_org (NewOrg r) = [r]"
| "made_org _ = []"

fun made_member :: "effect \<Rightarrow> org_membership list" where
  "made_member (NewMember m) = [m]"
| "made_member _ = []"

definition added_users :: "effect list \<Rightarrow> user list" where
  "added_users ws = foldl (\<lambda>us w. map (user_write w) us @ made_user w) [] ws"

definition added_orgs :: "effect list \<Rightarrow> org list" where
  "added_orgs ws = concat (map made_org ws)"

definition added_members :: "effect list \<Rightarrow> org_membership list" where
  "added_members ws = concat (map made_member ws)"

definition added_rows :: "effect list \<Rightarrow> refresh_token list" where
  "added_rows ws = foldl (\<lambda>ks w. map (token_write w) ks @ added_row w) [] ws"

fun bump_count :: "uuid \<Rightarrow> effect list \<Rightarrow> int" where
  "bump_count i [] = 0"
| "bump_count i (Bumped j now # ws) = (if j = i then 1 else 0) + bump_count i ws"
| "bump_count i (_ # ws) = bump_count i ws"

lemma added_rows_simps [simp]:
  "added_rows [] = []"
  "added_rows (ws @ [w]) = map (token_write w) (added_rows ws) @ added_row w"
  "added_users [] = []"
  "added_users (ws @ [w]) = map (user_write w) (added_users ws) @ made_user w"
  "added_orgs [] = []" "added_orgs (ws @ [w]) = added_orgs ws @ made_org w"
  "added_members [] = []" "added_members (ws @ [w]) = added_members ws @ made_member w"
  by (simp_all add: added_rows_def added_users_def added_orgs_def added_members_def)

lemma apply_writes_simps [simp]:
  "apply_writes [] d = d"
  "apply_writes (ws @ [w]) d = apply_write w (apply_writes ws d)"
  by (simp_all add: apply_writes_def)

lemma token_write_frame [simp]:
  "rt_token (token_write w k) = rt_token k" "rt_user_id (token_write w k) = rt_user_id k"
  "rt_org_id (token_write w k) = rt_org_id k" "rt_expires_at (token_write w k) = rt_expires_at k"
  by (cases w; simp)+

lemma user_write_frame [simp]:
  "us_id (user_write w u) = us_id u" "us_email (user_write w u) = us_email u"
  "us_full_name (user_write w u) = us_full_name u"
  by (cases w; simp)+

lemma fold_frames [simp]:
  "rt_token (fold token_write ws k) = rt_token k" "rt_user_id (fold token_write ws k) = rt_user_id k"
  "rt_org_id (fold token_write ws k) = rt_org_id k" "rt_expires_at (fold token_write ws k) = rt_expires_at k"
  "us_id (fold user_write ws u) = us_id u" "us_email (fold user_write ws u) = us_email u"
  "us_full_name (fold user_write ws u) = us_full_name u"
  by (induction ws arbitrary: k u) simp_all

lemma token_write_fun:
  "token_write (Consumed t) = (\<lambda>k. if rt_token k = t then revoke_row k else k)"
  "token_write (Revoked t) = (\<lambda>k. if rt_token k = t then revoke_row k else k)"
  "token_write (Added l) = (\<lambda>k. k)" "token_write (Bumped i now) = (\<lambda>k. k)"
  "token_write (Stored i now hash) = (\<lambda>k. k)" "token_write (NewUser u) = (\<lambda>k. k)"
  "token_write (NewOrg r) = (\<lambda>k. k)" "token_write (NewMember m) = (\<lambda>k. k)" "token_write (Entry r') = (\<lambda>k. k)"
  by (rule ext, simp)+

lemma apply_write_fields:
  "users (apply_write w d) = map (user_write w) (users d) @ made_user w"
  "refresh_tokens (apply_write w d) = map (token_write w) (refresh_tokens d) @ added_row w"
  "orgs (apply_write w d) = orgs d @ made_org w"
  "org_memberships (apply_write w d) = org_memberships d @ made_member w"
  by (cases w; simp add: revoke_token_def update_password_def token_write_fun)+

lemma apply_writes_fields:
  "users (apply_writes ws d) = map (fold user_write ws) (users d) @ added_users ws"
  "refresh_tokens (apply_writes ws d) = map (fold token_write ws) (refresh_tokens d) @ added_rows ws"
  "orgs (apply_writes ws d) = orgs d @ added_orgs ws"
  "org_memberships (apply_writes ws d) = org_memberships d @ added_members ws"
  by (induction ws rule: rev_induct) (simp_all add: apply_write_fields)

lemma apply_writes_append: "apply_writes (ws @ vs) d = apply_writes vs (apply_writes ws d)"
  by (simp add: apply_writes_def)

lemma added_keys: "rt_token ` set (added_rows ws) = {rt_token k | k. Added k \<in> set ws}"
proof (induction ws rule: rev_induct)
  case (snoc w ws)
  have "rt_token ` set (map (token_write w) (added_rows ws)) = rt_token ` set (added_rows ws)"
    by (simp add: image_image)
  with snoc show ?case by (cases w) (auto simp: image_Un)
qed simp

lemma added_user_keys:
  "(\<lambda>u. (us_id u, us_email u)) ` set (added_users ws) = {(us_id u, us_email u) | u. NewUser u \<in> set ws}"
proof (induction ws rule: rev_induct)
  case (snoc w ws)
  have "(\<lambda>u. (us_id u, us_email u)) ` set (map (user_write w) (added_users ws)) =
      (\<lambda>u. (us_id u, us_email u)) ` set (added_users ws)"
    by (simp add: image_image)
  with snoc show ?case by (cases w) (auto simp: image_Un)
qed simp

lemma added_userD:
  assumes "u \<in> set (added_users ws)"
  obtains w where "NewUser w \<in> set ws" "us_id w = us_id u" "us_email w = us_email u"
proof -
  from assms have "(us_id u, us_email u) \<in> (\<lambda>u. (us_id u, us_email u)) ` set (added_users ws)" by blast
  then obtain w where "NewUser w \<in> set ws" "us_id u = us_id w" "us_email u = us_email w"
    unfolding added_user_keys by blast
  with that show thesis by simp
qed

lemma added_orgs_iff [simp]: "r \<in> set (added_orgs ws) \<longleftrightarrow> NewOrg r \<in> set ws"
proof (induction ws rule: rev_induct)
  case (snoc w ws)
  then show ?case by (cases w) auto
qed simp

lemma added_members_iff [simp]: "m \<in> set (added_members ws) \<longleftrightarrow> NewMember m \<in> set ws"
proof (induction ws rule: rev_induct)
  case (snoc w ws)
  then show ?case by (cases w) auto
qed simp

lemma revoked_fold:
  "rt_revoked (fold token_write ws k) \<longleftrightarrow>
     rt_revoked k \<or> Consumed (rt_token k) \<in> set ws \<or> Revoked (rt_token k) \<in> set ws"
proof (induction ws arbitrary: k)
  case (Cons w ws)
  then show ?case by (cases w) auto
qed simp

lemma version_fold: "us_token_version (fold user_write ws u) = us_token_version u + bump_count (us_id u) ws"
proof (induction ws arbitrary: u)
  case (Cons w ws)
  then show ?case by (cases w) (auto simp: bump_row_def)
qed simp

lemma bump_count_append [simp]: "bump_count i (ws @ vs) = bump_count i ws + bump_count i vs"
  by (induction i ws rule: bump_count.induct) simp_all

lemma bump_count_none: "UserRow i \<notin> row_of ` set ws \<Longrightarrow> bump_count i ws = 0"
  by (induction i ws rule: bump_count.induct) auto

text \<open>Keys do not change; rows are only added.\<close>

lemma view_keys:
  "find_user i (apply_writes ws d) = None \<longleftrightarrow> find_user i d = None \<and> i \<notin> us_id ` set (added_users ws)"
  "find_org i (apply_writes ws d) = None \<longleftrightarrow> find_org i d = None \<and> i \<notin> or_id ` set (added_orgs ws)"
  "find_token t (apply_writes ws d) = None \<longleftrightarrow>
     find_token t d = None \<and> t \<notin> rt_token ` set (added_rows ws)"
  by (simp_all add: find_user_None_iff find_org_None_iff apply_writes_fields find_token_def
      find_key_None image_image image_Un)

lemma find_membership_view:
  "find_membership u i (apply_writes ws d) = (case find_membership u i d of
     Some m \<Rightarrow> Some m | None \<Rightarrow> find (\<lambda>m. om_user_id m = u \<and> om_org_id m = i) (added_members ws))"
  by (simp add: find_membership_def apply_writes_fields find_append)

subsection \<open>Steps by what they change\<close>

lemma active_iff: "active v i = Some a \<longleftrightarrow> txns v i = Some a \<and> tx_status a = Active"
  by (auto simp: active_def split: option.splits if_splits)

lemma set_txn_simps [simp]:
  "committed (set_txn i a v) = committed v" "txns (set_txn i a v) = (txns v)(i \<mapsto> a)"
  by (simp_all add: set_txn_def)

definition started_txn :: "ext \<Rightarrow> service \<Rightarrow> time \<Rightarrow> job \<Rightarrow> txn" where
  "started_txn x s now job = \<lparr>tx_job = job, tx_now = now, tx_writes = [], tx_body = body_of x s job,
     tx_scan = None, tx_status = Active\<rparr>"

lemma started_txn_simps [simp]:
  "tx_job (started_txn x s now job) = job" "tx_now (started_txn x s now job) = now"
  "tx_writes (started_txn x s now job) = []" "tx_body (started_txn x s now job) = body_of x s job"
  "tx_scan (started_txn x s now job) = None" "tx_status (started_txn x s now job) = Active"
  by (simp_all add: started_txn_def)

text \<open>What a transaction does before it ends: statements, and the rows of an update of many.\<close>

inductive advance :: "ext \<Rightarrow> server \<Rightarrow> nat \<Rightarrow> txn \<Rightarrow> txn \<Rightarrow> bool" for x v i a where
  statement: "tx_scan a = None \<Longrightarrow> statement x (free v i) (tx_now a) (view v a) (tx_body a) = Some (ws, b)
    \<Longrightarrow> advance x v i a (a\<lparr>tx_writes := tx_writes a @ ws, tx_body := b\<rparr>)"
| scan: "tx_scan a = None \<Longrightarrow> tx_body a = RevokeAll u k
    \<Longrightarrow> ts = map rt_token (filter (\<lambda>k. rt_user_id k = u) (refresh_tokens (view v a)))
    \<Longrightarrow> advance x v i a (a\<lparr>tx_scan := Some ts\<rparr>)"
| write_row: "tx_scan a = Some ts \<Longrightarrow> t \<in> set ts \<Longrightarrow> free v i (TokenRow t)
    \<Longrightarrow> advance x v i a (a\<lparr>tx_writes := tx_writes a @ [Revoked t], tx_scan := Some (remove1 t ts)\<rparr>)"
| end_scan: "tx_scan a = Some [] \<Longrightarrow> tx_body a = RevokeAll u k
    \<Longrightarrow> advance x v i a (a\<lparr>tx_scan := None, tx_body := k (Inr ())\<rparr>)"

lemma advance_frame:
  "advance x v i a a' \<Longrightarrow> tx_status a' = tx_status a \<and> tx_job a' = tx_job a \<and> tx_now a' = tx_now a"
  by (induction rule: advance.induct) auto

lemma inserted_keys:
  "fst (insert_user x now i email hash name d) = Inr u \<Longrightarrow> us_id u = i"
  "fst (insert_org now i name d) = Inr r \<Longrightarrow> or_id r = i"
  "fst (insert_membership now i w v role d) = Inr m \<Longrightarrow> om_id m = i"
  "fst (insert_token now t w v expires d) = Inr k \<Longrightarrow> rt_token k = t"
  by (auto simp: insert_user_def insert_org_def insert_membership_def insert_token_def Let_def split: if_splits)

lemma consumed_live:
  "fst (consume_token now t d) = Inr k \<Longrightarrow> list_ex (consumable now t) (refresh_tokens d)"
  by (auto simp: consume_token_def one_row_def list_ex_iff dest: find_SomeD split: option.splits)

lemma statement_free:
  "statement x ok now d b = Some (ws, b') \<Longrightarrow> w \<in> set ws \<Longrightarrow> ok (row_of w)"
  by (cases b) (auto simp: inserted_keys consumed_live split: sum.splits if_splits)

lemma advance_writes:
  assumes "advance x v i a a'"
  shows "\<exists>ws. tx_writes a' = tx_writes a @ ws \<and> (\<forall>w \<in> set ws. free v i (row_of w))"
  using assms by cases (auto dest: statement_free)

text \<open>Every step starts a transaction, advances one, commits one or ends one without a commit.\<close>

lemma act_cases:
  assumes "act x s ac v = Some w"
  obtains (start) i now job where "ac = Begin i now job" "txns v i = None" "w = set_txn i (started_txn x s now job) v"
  | (advance) i a a' where "active v i = Some a" "advance x v i a a'" "w = set_txn i a' v"
  | (commit) i a c where "active v i = Some a" "tx_body a = Done (Inr c)"
      "w = set_txn i (a\<lparr>tx_status := Committed c\<rparr>) v\<lparr>committed := view v a\<rparr>"
  | (abort) i a e where "active v i = Some a" "w = set_txn i (a\<lparr>tx_status := Aborted e\<rparr>) v"
proof (cases ac)
  case (Begin i now job)
  with assms start show thesis by (auto simp: started_txn_def split: if_splits)
next
  case (Statement i)
  with assms obtain a ws b where "active v i = Some a" "tx_scan a = None"
    "statement x (free v i) (tx_now a) (view v a) (tx_body a) = Some (ws, b)"
    "w = set_txn i (a\<lparr>tx_writes := tx_writes a @ ws, tx_body := b\<rparr>) v"
    by (auto split: option.splits if_splits)
  then show thesis using advance advance.statement by blast
next
  case (Scan i)
  with assms show thesis
    by (auto split: option.splits script.splits intro!: advance advance.scan)
next
  case (WriteRow i t)
  with assms show thesis
    by (auto split: option.splits if_splits intro!: advance advance.write_row)
next
  case (EndScan i)
  with assms show thesis
    by (auto split: option.splits script.splits list.splits intro!: advance advance.end_scan)
next
  case (Finish i)
  with assms obtain a q where a: "active v i = Some a" "tx_body a = Done q" "w = finish_txn i a q v"
    by (auto split: option.splits script.splits)
  show thesis
  proof (cases q)
    case (Inl e)
    with a abort show thesis by (simp add: finish_txn_def)
  next
    case (Inr c)
    with a commit show thesis by (simp add: finish_txn_def)
  qed
next
  case (Fail i)
  with assms abort show thesis by (auto split: option.splits)
qed

text \<open>
  A property of the server holds in all its runs if it is kept by the start of a transaction, by
  what it does, by its commit and by its end without one.
\<close>

locale server_invariant =
  fixes x :: ext and s :: service and I :: "server \<Rightarrow> bool"
  assumes start: "I v \<Longrightarrow> txns v i = None \<Longrightarrow> I (set_txn i (started_txn x s now job) v)"
    and advance: "I v \<Longrightarrow> active v i = Some a \<Longrightarrow> advance x v i a a' \<Longrightarrow> I (set_txn i a' v)"
    and commit: "I v \<Longrightarrow> active v i = Some a \<Longrightarrow> tx_body a = Done (Inr c)
      \<Longrightarrow> I (set_txn i (a\<lparr>tx_status := Committed c\<rparr>) v\<lparr>committed := view v a\<rparr>)"
    and abort: "I v \<Longrightarrow> active v i = Some a \<Longrightarrow> I (set_txn i (a\<lparr>tx_status := Aborted e\<rparr>) v)"
begin

lemma act_keeps:
  assumes "I v" and "act x s ac v = Some w"
  shows "I w"
  using assms(2) by (cases rule: act_cases) (simp_all add: assms(1) start advance commit abort)

lemma runs_keeps: "runs x s v w \<Longrightarrow> I v \<Longrightarrow> I w"
  by (induction rule: runs.induct) (auto intro: act_keeps)

end

subsection \<open>Integrity\<close>

text \<open>
  The constraints were checked when a statement ran; the locks keep them true until the commit.
  \<open>writes_fit x ws d\<close>: the writes \<open>ws\<close> can be committed to the tables \<open>d\<close>, a new row has its
  entry in the second unique index, and an updated user is there.
\<close>

definition writes_fit :: "ext \<Rightarrow> effect list \<Rightarrow> database \<Rightarrow> bool" where
  "writes_fit x ws d \<longleftrightarrow> db_ok x (apply_writes ws d)
     \<and> (\<forall>u. NewUser u \<in> set ws \<longrightarrow> Entry (EmailKey (pg_lower x (us_email u))) \<in> set ws)
     \<and> (\<forall>m. NewMember m \<in> set ws \<longrightarrow> Entry (PairKey (om_user_id m) (om_org_id m)) \<in> set ws)
     \<and> (\<forall>i. UserRow i \<in> row_of ` set ws \<longrightarrow> i \<in> us_id ` set (users (apply_writes ws d)))"

lemma bump_count_nonneg: "0 \<le> bump_count i ws"
  by (induction i ws rule: bump_count.induct) auto

lemma writes_fit_nil: "db_ok x d \<Longrightarrow> writes_fit x [] d"
  by (simp add: writes_fit_def)

lemma writes_fit_ok: "writes_fit x ws d \<Longrightarrow> db_ok x (apply_writes ws d)"
  by (simp add: writes_fit_def)

lemma insert_effects:
  "fst (insert_user x now i email hash name d) = Inr u \<Longrightarrow>
     snd (insert_user x now i email hash name d) = d\<lparr>users := users d @ [u]\<rparr> \<and> us_email u = email"
  "fst (insert_org now i name d) = Inr r \<Longrightarrow>
     snd (insert_org now i name d) = d\<lparr>orgs := orgs d @ [r]\<rparr>"
  "fst (insert_membership now i w v role d) = Inr m \<Longrightarrow>
     snd (insert_membership now i w v role d) = d\<lparr>org_memberships := org_memberships d @ [m]\<rparr>
     \<and> om_user_id m = w \<and> om_org_id m = v"
  "fst (insert_token now t w v expires d) = Inr k \<Longrightarrow>
     snd (insert_token now t w v expires d) = d\<lparr>refresh_tokens := refresh_tokens d @ [k]\<rparr>
     \<and> rt_user_id k = w \<and> rt_org_id k = v"
  by (auto simp: insert_user_def insert_org_def insert_membership_def insert_token_def Let_def split: if_splits)

lemma insert_ok:
  "db_ok x d \<Longrightarrow> fst (insert_user x now i email hash name d) = Inr u \<Longrightarrow> db_ok x (d\<lparr>users := users d @ [u]\<rparr>)"
  "db_ok x d \<Longrightarrow> fst (insert_org now i name d) = Inr r \<Longrightarrow> db_ok x (d\<lparr>orgs := orgs d @ [r]\<rparr>)"
  "db_ok x d \<Longrightarrow> fst (insert_membership now i w v role d) = Inr m \<Longrightarrow>
     db_ok x (d\<lparr>org_memberships := org_memberships d @ [m]\<rparr>)"
  "db_ok x d \<Longrightarrow> fst (insert_token now t w v expires d) = Inr k \<Longrightarrow>
     db_ok x (d\<lparr>refresh_tokens := refresh_tokens d @ [k]\<rparr>)"
  by (metis insert_effects stmt_ok_def stmt_ok_insert_user stmt_ok_insert_org stmt_ok_insert_membership
      stmt_ok_insert_token)+

lemma update_ok:
  "db_ok x d \<Longrightarrow> db_ok x (snd (revoke_token t d))"
  "db_ok x d \<Longrightarrow> db_ok x (snd (update_password now i hash d))"
  "db_ok x d \<Longrightarrow> fst (increment_version now i d) = Inr u \<Longrightarrow> db_ok x (d\<lparr>users := map (bump_row now i) (users d)\<rparr>)"
proof -
  assume ok: "db_ok x d"
  show "db_ok x (snd (revoke_token t d))" using ok stmt_ok_revoke(1) by (auto simp: stmt_ok_def)
  show "db_ok x (snd (update_password now i hash d))" using ok stmt_ok_password by (auto simp: stmt_ok_def)
  assume "fst (increment_version now i d) = Inr u"
  then have "snd (increment_version now i d) = d\<lparr>users := map (bump_row now i) (users d)\<rparr>"
    by (auto simp: increment_version_def split: if_splits)
  with ok stmt_ok_increment [of x now i] show "db_ok x (d\<lparr>users := map (bump_row now i) (users d)\<rparr>)"
    by (metis stmt_ok_def)
qed

lemma statement_ok:
  assumes "statement x ok now d b = Some (ws, b')" and "db_ok x d"
  shows "db_ok x (apply_writes ws d)"
  using assms by (cases b) (auto simp: apply_writes_def insert_ok update_ok split: sum.splits if_splits)

lemma statement_entries:
  assumes "statement x ok now d b = Some (ws, b')"
  shows "NewUser u \<in> set ws \<Longrightarrow> Entry (EmailKey (pg_lower x (us_email u))) \<in> set ws"
    and "NewMember m \<in> set ws \<Longrightarrow> Entry (PairKey (om_user_id m) (om_org_id m)) \<in> set ws"
    and "UserRow i \<in> row_of ` set ws \<Longrightarrow> find_user i d \<noteq> None"
  using assms by (cases b; fastforce dest: insert_effects split: sum.splits if_splits)+

lemma users_stay: "us_id ` set (users d) \<subseteq> us_id ` set (users (apply_writes ws d))"
  by (simp add: apply_writes_fields image_Un image_image)

lemma writes_fit_append:
  assumes "writes_fit x ws d" and "db_ok x (apply_writes (ws @ vs) d)"
    and "\<And>u. NewUser u \<in> set vs \<Longrightarrow> Entry (EmailKey (pg_lower x (us_email u))) \<in> set vs"
    and "\<And>m. NewMember m \<in> set vs \<Longrightarrow> Entry (PairKey (om_user_id m) (om_org_id m)) \<in> set vs"
    and "\<And>i. UserRow i \<in> row_of ` set vs \<Longrightarrow> find_user i (apply_writes ws d) \<noteq> None"
  shows "writes_fit x (ws @ vs) d"
proof -
  have "i \<in> us_id ` set (users (apply_writes (ws @ vs) d))" if "UserRow i \<in> row_of ` set (ws @ vs)" for i
    using that assms(1,5) users_stay [of "apply_writes ws d" vs]
    unfolding apply_writes_append writes_fit_def find_user_None_iff set_append image_Un by blast
  with assms(1-4) show ?thesis by (auto simp: writes_fit_def)
qed

lemma statement_fits:
  assumes "statement x ok now (apply_writes ws d) b = Some (vs, b')" and "writes_fit x ws d"
  shows "writes_fit x (ws @ vs) d"
proof (rule writes_fit_append [OF assms(2)])
  show "db_ok x (apply_writes (ws @ vs) d)"
    unfolding apply_writes_append by (rule statement_ok [OF assms(1) writes_fit_ok [OF assms(2)]])
qed (use statement_entries [OF assms(1)] in blast)+

lemma writes_fit_revoke: "writes_fit x ws d \<Longrightarrow> writes_fit x (ws @ [Revoked t]) d"
  by (rule writes_fit_append) (auto simp: update_ok writes_fit_ok)

lemma advance_fits:
  assumes "advance x v i a a'" and "writes_fit x (tx_writes a) (committed v)"
  shows "writes_fit x (tx_writes a') (committed v)"
  using assms by cases (auto simp: view_def intro: statement_fits writes_fit_revoke)

text \<open>The keys of the rows a transaction adds are its own.\<close>

lemma added_row_locked: "t \<in> rt_token ` set (added_rows ws) \<Longrightarrow> TokenKey t \<in> row_of ` set ws"
  unfolding added_keys by (auto intro!: image_eqI [where f = row_of])

lemma locked: "w \<in> set ws \<Longrightarrow> row_of w \<in> row_of ` set ws"
  by (rule imageI)

lemma added_locked:
  "r \<in> set (added_orgs ws) \<Longrightarrow> OrgKey (or_id r) \<in> row_of ` set ws"
  "m \<in> set (added_members ws) \<Longrightarrow> MemberKey (om_id m) \<in> row_of ` set ws"
  "writes_fit x ws d \<Longrightarrow> m \<in> set (added_members ws) \<Longrightarrow> PairKey (om_user_id m) (om_org_id m) \<in> row_of ` set ws"
  "u \<in> set (added_users ws) \<Longrightarrow> UserKey (us_id u) \<in> row_of ` set ws"
  "writes_fit x ws d \<Longrightarrow> u \<in> set (added_users ws) \<Longrightarrow> EmailKey (pg_lower x (us_email u)) \<in> row_of ` set ws"
proof -
  show "OrgKey (or_id r) \<in> row_of ` set ws" if "r \<in> set (added_orgs ws)"
    using that locked [of "NewOrg r" ws] by simp
  show "MemberKey (om_id m) \<in> row_of ` set ws" if "m \<in> set (added_members ws)"
    using that locked [of "NewMember m" ws] by simp
  show "PairKey (om_user_id m) (om_org_id m) \<in> row_of ` set ws"
    if "writes_fit x ws d" "m \<in> set (added_members ws)"
    using that locked [of "Entry (PairKey (om_user_id m) (om_org_id m))" ws] by (simp add: writes_fit_def)
  show "UserKey (us_id u) \<in> row_of ` set ws" if u: "u \<in> set (added_users ws)"
  proof -
    from u obtain w where "NewUser w \<in> set ws" "us_id w = us_id u" by (rule added_userD)
    then show ?thesis using locked [of "NewUser w" ws] by simp
  qed
  show "EmailKey (pg_lower x (us_email u)) \<in> row_of ` set ws" if fit: "writes_fit x ws d" and u: "u \<in> set (added_users ws)"
  proof -
    from u obtain w where "NewUser w \<in> set ws" "us_email w = us_email u" by (rule added_userD)
    with fit locked [of "Entry (EmailKey (pg_lower x (us_email u)))" ws] show ?thesis by (auto simp: writes_fit_def)
  qed
qed

text \<open>Fitting is stable under the commit of another transaction, part by part.\<close>

lemma distinct_both:
  assumes "distinct (map f (xs @ ys))" and "distinct (map f (xs @ zs))" and "f ` set ys \<inter> f ` set zs = {}"
  shows "distinct (map f ((xs @ ys) @ zs))"
  using assms by auto

lemma keys_apart:
  assumes "\<And>y. y \<in> B \<Longrightarrow> K (f y) \<in> R" and "\<And>z. z \<in> C \<Longrightarrow> K (f z) \<in> S" and "S \<inter> R = {}"
  shows "f ` B \<inter> f ` C = {}"
proof -
  have "f y \<noteq> f z" if "y \<in> B" "z \<in> C" for y z
    using assms(1) [OF that(1)] assms(2) [OF that(2)] assms(3) by auto
  then show ?thesis by blast
qed

text \<open>Two sets of writes that fit the same tables and share no row.\<close>

definition apart :: "ext \<Rightarrow> effect list \<Rightarrow> effect list \<Rightarrow> database \<Rightarrow> bool" where
  "apart x ws vs d \<longleftrightarrow> writes_fit x ws d \<and> writes_fit x vs d \<and> row_of ` set ws \<inter> row_of ` set vs = {}"

lemma apartD:
  assumes "apart x ws vs d"
  shows "writes_fit x ws d" "writes_fit x vs d" "row_of ` set ws \<inter> row_of ` set vs = {}"
  using assms by (simp_all add: apart_def)

lemma both_ok: "apart x ws vs d \<Longrightarrow> db_ok x (apply_writes ws d) \<and> db_ok x (apply_writes vs d)"
  by (simp add: apart_def writes_fit_ok)

lemma stable_users:
  assumes "apart x ws vs d"
  shows "users_ok x (apply_writes ws (apply_writes vs d))"
proof -
  note ws = apartD(1) [OF assms] and vs = apartD(2) [OF assms] and excl = apartD(3) [OF assms]
  let ?low = "\<lambda>u. pg_lower x (us_email u)"
  have w: "users_ok x (apply_writes ws d)" and v: "users_ok x (apply_writes vs d)"
    using both_ok [OF assms] by (simp_all add: db_ok_def)
  have "us_id ` set (added_users vs) \<inter> us_id ` set (added_users ws) = {}"
    by (rule keys_apart [where K = UserKey, OF added_locked(4) added_locked(4) excl])
  with w v have ids: "distinct (map us_id ((users d @ added_users vs) @ added_users ws))"
    by (intro distinct_both) (simp_all add: users_ok_def apply_writes_fields o_def)
  have "?low ` set (added_users vs) \<inter> ?low ` set (added_users ws) = {}"
    by (rule keys_apart [where K = EmailKey, OF added_locked(5) [OF vs] added_locked(5) [OF ws] excl])
  with w v have lows: "distinct (map ?low ((users d @ added_users vs) @ added_users ws))"
    by (intro distinct_both) (simp_all add: users_ok_def apply_writes_fields o_def)
  have old: "0 \<le> us_token_version u + bump_count (us_id u) vs + bump_count (us_id u) ws
      \<and> us_token_version u + bump_count (us_id u) vs + bump_count (us_id u) ws \<le> max_int32" if u: "u \<in> set (users d)" for u
  proof -
    have "0 \<le> us_token_version u + bump_count (us_id u) ws \<and> us_token_version u + bump_count (us_id u) ws \<le> max_int32"
      "0 \<le> us_token_version u + bump_count (us_id u) vs \<and> us_token_version u + bump_count (us_id u) vs \<le> max_int32"
      using u version_bounds [OF both_ok [OF assms, THEN conjunct1], of "fold user_write ws u"] version_bounds [OF both_ok [OF assms, THEN conjunct2], of "fold user_write vs u"]
      by (simp_all add: apply_writes_fields version_fold)
    moreover have "bump_count (us_id u) ws = 0 \<or> bump_count (us_id u) vs = 0"
      using bump_count_none [of "us_id u" ws] bump_count_none [of "us_id u" vs] excl by auto
    ultimately show ?thesis by auto
  qed
  have made: "bump_count (us_id u) ws = 0" if u: "u \<in> set (added_users vs)" for u
  proof (rule bump_count_none, rule notI)
    assume "UserRow (us_id u) \<in> row_of ` set ws"
    with ws have "us_id u \<in> us_id ` set (users d) \<union> us_id ` set (added_users ws)"
      by (auto simp: writes_fit_def apply_writes_fields image_Un image_image)
    with ids u show False by auto
  qed
  have "0 \<le> us_token_version u \<and> us_token_version u \<le> max_int32"
    if "u \<in> set (added_users ws) \<union> set (added_users vs)" for u
    using w v that by (auto simp: users_ok_def apply_writes_fields)
  with ids lows old made show ?thesis
    by (auto simp: users_ok_def apply_writes_fields o_def version_fold)
qed

lemma stable_orgs:
  assumes "apart x ws vs d"
  shows "distinct (map or_id (orgs (apply_writes ws (apply_writes vs d))))"
proof -
  note excl = apartD(3) [OF assms]
  have "or_id ` set (added_orgs vs) \<inter> or_id ` set (added_orgs ws) = {}"
    by (rule keys_apart [where K = OrgKey, OF added_locked(1) added_locked(1) excl])
  then show ?thesis
    unfolding apply_writes_fields using both_ok [OF assms]
    by (intro distinct_both) (simp_all add: db_ok_def apply_writes_fields)
qed

lemma stable_refs:
  "us_id ` set (users (apply_writes ws d)) \<union> us_id ` set (users (apply_writes vs d))
     \<subseteq> us_id ` set (users (apply_writes ws (apply_writes vs d)))"
  "or_id ` set (orgs (apply_writes ws d)) \<union> or_id ` set (orgs (apply_writes vs d))
     \<subseteq> or_id ` set (orgs (apply_writes ws (apply_writes vs d)))"
  by (auto simp: apply_writes_fields image_Un image_image)

lemma stable_members:
  assumes "apart x ws vs d"
  shows "memberships_ok (apply_writes ws (apply_writes vs d))"
proof -
  note excl = apartD(3) [OF assms] and vs = apartD(2) [OF assms] and ws = apartD(1) [OF assms]
  let ?pair = "\<lambda>m. (om_user_id m, om_org_id m)"
  have w: "memberships_ok (apply_writes ws d)" and v: "memberships_ok (apply_writes vs d)"
    using both_ok [OF assms] by (simp_all add: db_ok_def)
  have "om_id ` set (added_members vs) \<inter> om_id ` set (added_members ws) = {}"
    by (rule keys_apart [where K = MemberKey, OF added_locked(2) added_locked(2) excl])
  with w v have ids: "distinct (map om_id ((org_memberships d @ added_members vs) @ added_members ws))"
    by (intro distinct_both) (simp_all add: memberships_ok_def apply_writes_fields)
  have "?pair ` set (added_members vs) \<inter> ?pair ` set (added_members ws) = {}"
    by (rule keys_apart [where K = "\<lambda>(i, j). PairKey i j" and R = "row_of ` set vs" and S = "row_of ` set ws"])
      (use added_locked(3) [OF vs] added_locked(3) [OF ws] excl in simp_all)
  with w v have pairs: "distinct (map ?pair ((org_memberships d @ added_members vs) @ added_members ws))"
    by (intro distinct_both) (simp_all add: memberships_ok_def apply_writes_fields)
  have refs: "\<forall>m \<in> set (org_memberships (apply_writes ws (apply_writes vs d))).
      om_user_id m \<in> us_id ` set (users (apply_writes ws (apply_writes vs d)))
      \<and> om_org_id m \<in> or_id ` set (orgs (apply_writes ws (apply_writes vs d))) \<and> om_role m \<in> {''admin'', ''member''}"
  proof
    fix m
    assume "m \<in> set (org_memberships (apply_writes ws (apply_writes vs d)))"
    then have "m \<in> set (org_memberships (apply_writes ws d)) \<or> m \<in> set (org_memberships (apply_writes vs d))"
      by (auto simp: apply_writes_fields(4))
    with w v have "om_user_id m \<in> us_id ` set (users (apply_writes ws d)) \<union> us_id ` set (users (apply_writes vs d))"
      "om_org_id m \<in> or_id ` set (orgs (apply_writes ws d)) \<union> or_id ` set (orgs (apply_writes vs d))"
      "om_role m \<in> {''admin'', ''member''}"
      unfolding memberships_ok_def by blast+
    with stable_refs [of ws d vs] show "om_user_id m \<in> us_id ` set (users (apply_writes ws (apply_writes vs d)))
      \<and> om_org_id m \<in> or_id ` set (orgs (apply_writes ws (apply_writes vs d))) \<and> om_role m \<in> {''admin'', ''member''}"
      by blast
  qed
  have "org_memberships (apply_writes ws (apply_writes vs d)) =
      (org_memberships d @ added_members vs) @ added_members ws" by (simp add: apply_writes_fields)
  with ids pairs refs show ?thesis by (simp only: memberships_ok_def simp_thms)
qed

lemma stable_tokens:
  assumes "apart x ws vs d"
  shows "tokens_ok (apply_writes ws (apply_writes vs d))"
proof -
  note excl = apartD(3) [OF assms]
  have w: "tokens_ok (apply_writes ws d)" and v: "tokens_ok (apply_writes vs d)"
    using both_ok [OF assms] by (simp_all add: db_ok_def)
  have "rt_token ` set (added_rows vs) \<inter> rt_token ` set (added_rows ws) = {}"
    by (rule keys_apart [where K = TokenKey, OF added_row_locked added_row_locked excl]) (rule imageI, assumption)+
  with w v have keys: "distinct (map rt_token ((refresh_tokens d @ added_rows vs) @ added_rows ws))"
    by (intro distinct_both) (simp_all add: tokens_ok_def apply_writes_fields o_def)
  have refs: "rt_user_id k \<in> us_id ` set (users (apply_writes ws (apply_writes vs d)))
      \<and> rt_org_id k \<in> or_id ` set (orgs (apply_writes ws (apply_writes vs d)))"
    if "k \<in> set (refresh_tokens (apply_writes ws d)) \<union> set (refresh_tokens (apply_writes vs d))" for k
    using w v that by (intro conjI stable_refs [THEN subsetD]) (auto simp: tokens_ok_def)
  have same: "\<exists>l \<in> set (refresh_tokens (apply_writes ws d)) \<union> set (refresh_tokens (apply_writes vs d)).
      rt_user_id l = rt_user_id k \<and> rt_org_id l = rt_org_id k"
    if "k \<in> set (refresh_tokens (apply_writes ws (apply_writes vs d)))" for k
    using that unfolding apply_writes_fields by (auto 4 4 simp: image_iff bex_Un)
  have "\<forall>k \<in> set (refresh_tokens (apply_writes ws (apply_writes vs d))).
      rt_user_id k \<in> us_id ` set (users (apply_writes ws (apply_writes vs d)))
      \<and> rt_org_id k \<in> or_id ` set (orgs (apply_writes ws (apply_writes vs d)))"
  proof
    fix k
    assume "k \<in> set (refresh_tokens (apply_writes ws (apply_writes vs d)))"
    from same [OF this] obtain l where "l \<in> set (refresh_tokens (apply_writes ws d)) \<union> set (refresh_tokens (apply_writes vs d))"
      "rt_user_id l = rt_user_id k" "rt_org_id l = rt_org_id k" by blast
    with refs [of l] show "rt_user_id k \<in> us_id ` set (users (apply_writes ws (apply_writes vs d)))
      \<and> rt_org_id k \<in> or_id ` set (orgs (apply_writes ws (apply_writes vs d)))" by simp
  qed
  moreover have "distinct (map rt_token (refresh_tokens (apply_writes ws (apply_writes vs d))))"
    using keys by (simp add: apply_writes_fields o_def)
  ultimately show ?thesis unfolding tokens_ok_def by blast
qed

lemma writes_fit_stable:
  assumes "apart x ws vs d"
  shows "writes_fit x ws (apply_writes vs d)"
proof -
  have "db_ok x (apply_writes ws (apply_writes vs d))"
    using stable_users [OF assms] stable_orgs [OF assms] stable_members [OF assms] stable_tokens [OF assms]
    by (simp add: db_ok_def)
  with apartD(1) [OF assms] stable_refs(1) [of ws d vs] show ?thesis unfolding writes_fit_def by blast
qed

definition integrity :: "ext \<Rightarrow> server \<Rightarrow> bool" where
  "integrity x v \<longleftrightarrow> db_ok x (committed v)
     \<and> (\<forall>i a. active v i = Some a \<longrightarrow> writes_fit x (tx_writes a) (committed v))
     \<and> (\<forall>i j a b. i \<noteq> j \<longrightarrow> active v i = Some a \<longrightarrow> active v j = Some b
          \<longrightarrow> row_of ` set (tx_writes a) \<inter> row_of ` set (tx_writes b) = {})"

lemma active_set [simp]:
  "active (set_txn i a v) j = (if j = i then (if tx_status a = Active then Some a else None) else active v j)"
  "active (v\<lparr>committed := d\<rparr>) j = active v j"
  by (auto simp: active_def)

lemma free_iff: "free v i r \<longleftrightarrow> (\<forall>j a. j \<noteq> i \<longrightarrow> active v j = Some a \<longrightarrow> r \<notin> row_of ` set (tx_writes a))"
  by (auto simp: free_def holds_def active_iff)

interpretation integrity: server_invariant x s "integrity x" for x s
proof
  fix v i now job
  assume "integrity x v"
  then show "integrity x (set_txn i (started_txn x s now job) v)"
    by (auto simp: integrity_def writes_fit_nil)
next
  fix v i a a'
  assume I: "integrity x v" and act: "active v i = Some a" and adv: "advance x v i a a'"
  from advance_writes [OF adv] obtain ws where
    ws: "tx_writes a' = tx_writes a @ ws" "\<And>w. w \<in> set ws \<Longrightarrow> free v i (row_of w)" by blast
  have "tx_status a' = Active" using advance_frame [OF adv] act by (simp add: active_iff)
  moreover have "row_of ` set (tx_writes a') \<inter> row_of ` set (tx_writes b) = {}"
    if "j \<noteq> i" "active v j = Some b" for j b
    using I act that ws by (fastforce simp: integrity_def free_iff)
  moreover have "writes_fit x (tx_writes a') (committed v)"
    using I act advance_fits [OF adv] by (simp add: integrity_def)
  ultimately show "integrity x (set_txn i a' v)"
    using I unfolding integrity_def by (simp add: Int_commute) (metis Int_commute)
next
  fix v i a c
  assume I: "integrity x v" and act: "active v i = Some a"
  then have "writes_fit x (tx_writes b) (view v a)" if "j \<noteq> i" "active v j = Some b" for j b
    using that unfolding view_def by (intro writes_fit_stable) (auto simp: integrity_def apart_def)
  with I act writes_fit_ok [of x "tx_writes a" "committed v"]
  show "integrity x (set_txn i (a\<lparr>tx_status := Committed c\<rparr>) v\<lparr>committed := view v a\<rparr>)"
    by (simp add: integrity_def view_def)
next
  fix v i a e
  assume "integrity x v" and "active v i = Some a"
  then show "integrity x (set_txn i (a\<lparr>tx_status := Aborted e\<rparr>) v)" by (simp add: integrity_def)
qed

subsection \<open>Consumed and registered once\<close>

lemma apply_write_le: "db_le d (apply_write w d)"
proof (cases w)
  case (Bumped i now)
  then show ?thesis by (auto simp: user_le_def bump_row_def intro!: db_le_map_users)
qed (use stmt_le_updates in \<open>auto simp: stmt_le_def db_le_append db_le_refl\<close>)

lemma apply_writes_le: "db_le d (apply_writes ws d)"
  by (induction ws rule: rev_induct) (auto intro: db_le_refl db_le_trans apply_write_le)

text \<open>\<open>gone t d\<close>: there is a row for the token, and it is revoked.\<close>

definition gone :: "string \<Rightarrow> database \<Rightarrow> bool" where
  "gone t d \<longleftrightarrow> t \<in> rt_token ` set (refresh_tokens d)
     \<and> (\<forall>k \<in> set (refresh_tokens d). rt_token k = t \<longrightarrow> rt_revoked k)"

lemma apply_writes_token_keys:
  "rt_token ` set (refresh_tokens (apply_writes ws d)) =
     rt_token ` set (refresh_tokens d) \<union> rt_token ` set (added_rows ws)"
  by (simp add: apply_writes_fields image_Un image_image)

lemma gone_stays:
  assumes "gone t d" and "t \<notin> rt_token ` set (added_rows ws)"
  shows "gone t (apply_writes ws d)"
proof -
  from assms(2) have other: "rt_token k \<noteq> t" if "k \<in> set (added_rows ws)" for k using that by blast
  from assms(1) have "rt_revoked k" if "k \<in> set (refresh_tokens d)" "rt_token k = t" for k
    using that by (simp add: gone_def)
  then have "rt_revoked k" if "k \<in> set (refresh_tokens (apply_writes ws d))" "rt_token k = t" for k
    using that other unfolding apply_writes_fields by (auto simp: revoked_fold)
  moreover from assms(1) have "t \<in> rt_token ` set (refresh_tokens (apply_writes ws d))"
    by (auto simp: gone_def apply_writes_token_keys)
  ultimately show ?thesis by (simp add: gone_def)
qed

lemma gone_not_consumed:
  assumes "gone t d"
  shows "fst (consume_token now t d) = Inl ErrNoRows"
proof -
  from assms have "find (consumable now t) (refresh_tokens d) = None"
    by (auto simp: find_None_iff gone_def consumable_def)
  then show ?thesis by (simp add: consume_token_def one_row_def)
qed

lemma gone_consumed:
  assumes "fst (consume_token now t d) = Inr row"
  shows "gone t (apply_writes [Consumed t] d)"
proof -
  from assms obtain k where "find (consumable now t) (refresh_tokens d) = Some k"
    by (auto simp: consume_token_def one_row_def split: option.splits)
  from find_SomeD [OF this] have "t \<in> rt_token ` set (refresh_tokens d)" by (auto simp: consumable_def)
  moreover have "added_rows [Consumed t] = []" by (simp add: added_rows_def)
  ultimately show ?thesis
    unfolding gone_def apply_writes_token_keys by (auto simp: apply_writes_fields)
qed

lemma gone_stable:
  assumes "gone t (apply_writes ws d)" and "t \<notin> rt_token ` set (added_rows vs)"
  shows "gone t (apply_writes ws (apply_writes vs d))"
proof -
  have revoked: "rt_revoked (fold token_write ws k)"
    if "k \<in> set (refresh_tokens (apply_writes vs d))" "rt_token k = t" for k
  proof -
    from that(1) assms(2) that(2) obtain l where l: "l \<in> set (refresh_tokens d)" "k = fold token_write vs l"
      unfolding apply_writes_fields by auto
    with assms(1) that(2) have "rt_revoked (fold token_write ws l)"
      by (simp add: gone_def apply_writes_fields)
    with l that(2) show ?thesis by (auto simp: revoked_fold)
  qed
  have "rt_revoked k" if "k \<in> set (refresh_tokens (apply_writes ws (apply_writes vs d)))" "rt_token k = t" for k
    using that revoked assms(1) unfolding apply_writes_fields(2) [of ws] by (auto simp: gone_def apply_writes_fields(2) [of ws d])
  moreover from assms(1) have "t \<in> rt_token ` set (refresh_tokens (apply_writes ws (apply_writes vs d)))"
    by (auto simp: gone_def apply_writes_token_keys)
  ultimately show ?thesis by (simp add: gone_def)
qed

lemma gone_added:
  assumes "db_ok x (apply_writes ws d)" and "t \<in> rt_token ` set (refresh_tokens d)"
  shows "t \<notin> rt_token ` set (added_rows ws)"
  using tokens_distinct [OF assms(1)] assms(2) by (auto simp: apply_writes_fields o_def)

text \<open>
  A transaction claims a row that it consumes and the keys of the second indexes that it enters.
  \<open>spent x r d\<close>: nobody can claim \<open>r\<close> in the tables \<open>d\<close> any more.
\<close>

fun claim_of :: "effect \<Rightarrow> row list" where
  "claim_of (Consumed t) = [TokenRow t]"
| "claim_of (Entry r) = [r]"
| "claim_of _ = []"

definition claims :: "effect list \<Rightarrow> row set" where
  "claims ws = set (concat (map claim_of ws))"

lemma claims_simps [simp]: "claims [] = {}" "claims (w # ws) = set (claim_of w) \<union> claims ws"
  "claims (ws @ vs) = claims ws \<union> claims vs"
  by (simp_all add: claims_def)

lemma claims_locked: "claims ws \<subseteq> row_of ` set ws"
proof
  fix r
  assume "r \<in> claims ws"
  then obtain w where "w \<in> set ws" "r \<in> set (claim_of w)" by (auto simp: claims_def)
  moreover from this(2) have "row_of w = r" by (cases w) auto
  ultimately show "r \<in> row_of ` set ws" by blast
qed

definition spent :: "ext \<Rightarrow> row \<Rightarrow> database \<Rightarrow> bool" where
  "spent x r d = (case r of
     TokenRow t \<Rightarrow> gone t d
   | EmailKey e \<Rightarrow> e \<in> (\<lambda>u. pg_lower x (us_email u)) ` set (users d)
   | PairKey i j \<Rightarrow> (i, j) \<in> (\<lambda>m. (om_user_id m, om_org_id m)) ` set (org_memberships d)
   | _ \<Rightarrow> True)"

lemma spent_TokenRow: "spent x (TokenRow t) d = gone t d"
  by (simp add: spent_def)

lemma spent_grows:
  "\<forall>t. r \<noteq> TokenRow t \<Longrightarrow> spent x r d \<Longrightarrow> spent x r (apply_writes ws d)"
  "\<forall>t. r \<noteq> TokenRow t \<Longrightarrow> spent x r (apply_writes ws d) \<Longrightarrow> spent x r (apply_writes ws (apply_writes vs d))"
  by (cases r; auto simp: spent_def apply_writes_fields image_Un image_image)+

lemma spent_stays:
  assumes "spent x r d" and "db_ok x (apply_writes ws d)"
  shows "spent x r (apply_writes ws d)"
proof (cases "\<exists>t. r = TokenRow t")
  case True
  then obtain t where "r = TokenRow t" by blast
  with assms(1) gone_stays [OF _ gone_added [OF assms(2)]] show ?thesis by (simp add: spent_TokenRow gone_def [of t d])
qed (use assms spent_grows(1) in blast)

lemma spent_stable:
  assumes "spent x r (apply_writes ws d)" and "\<And>t. r = TokenRow t \<Longrightarrow> t \<notin> rt_token ` set (added_rows vs)"
  shows "spent x r (apply_writes ws (apply_writes vs d))"
proof (cases "\<exists>t. r = TokenRow t")
  case True
  with assms gone_stable show ?thesis by (auto simp: spent_def)
qed (use assms spent_grows(2) in blast)

lemma statement_claims:
  assumes "statement x ok now d b = Some (ws, b')" and "r \<in> claims ws"
  shows "ok r \<and> \<not> spent x r d \<and> spent x r (apply_writes ws d)"
proof (cases b)
  case (Consume t k)
  with assms obtain row where row: "fst (consume_token now t d) = Inr row" and r: "r = TokenRow t"
      "ws = [Consumed t]" and held: "list_ex (consumable now t) (refresh_tokens d) \<longrightarrow> ok (TokenRow t)"
    by (auto split: sum.splits if_splits)
  with held consumed_live [OF row] r gone_consumed [OF row] gone_not_consumed [of t d now] show ?thesis
    by (auto simp: spent_def)
next
  case (InsertUser i email hash name k)
  with assms have "fst (insert_user x now i email hash name d) \<noteq> Inl unique_violation" and r: "r = EmailKey (pg_lower x email)"
      and ok: "ok r" and ws: "\<exists>u. ws = [NewUser u, Entry r] \<and> us_email u = email"
    by (auto dest: insert_effects split: sum.splits if_splits)
  then have "\<not> list_ex (\<lambda>u. pg_lower x (us_email u) = pg_lower x email) (users d)"
    by (auto simp: insert_user_def split: if_splits)
  with r ok ws show ?thesis by (auto simp: spent_def list_ex_iff apply_writes_def)
next
  case (InsertMembership i u v role k)
  with assms obtain m where ins: "fst (insert_membership now i u v role d) = Inr m" and r: "r = PairKey u v"
      and ok: "ok r" and ws: "ws = [NewMember m, Entry r]"
    by (auto split: sum.splits if_splits)
  from ins have "\<not> list_ex (\<lambda>m. om_user_id m = u \<and> om_org_id m = v) (org_memberships d)"
    by (auto simp: insert_membership_def split: if_splits)
  moreover have "om_user_id m = u" "om_org_id m = v" using insert_effects(3) [OF ins] by auto
  ultimately show ?thesis using r ok ws by (auto simp: spent_def list_ex_iff apply_writes_def)
qed (use assms in \<open>auto split: sum.splits if_splits\<close>)

lemma advance_claims:
  assumes "advance x v i a a'" and "r \<in> claims (tx_writes a')"
  shows "r \<in> claims (tx_writes a) \<or> free v i r \<and> \<not> spent x r (view v a) \<and> spent x r (view v a')"
  using assms(1)
proof cases
  case (statement ws b)
  with assms(2) statement_claims [OF statement(3)] show ?thesis
    by (auto simp: view_def apply_writes_append)
qed (use assms(2) in auto)

lemma advance_spent:
  assumes "advance x v i a a'" and "spent x r (view v a)" and "db_ok x (view v a')"
  shows "spent x r (view v a')"
proof -
  from advance_writes [OF assms(1)] obtain ws where "tx_writes a' = tx_writes a @ ws" by blast
  then have "view v a' = apply_writes ws (view v a)" by (simp add: view_def apply_writes_append)
  with spent_stays [OF assms(2), of ws] assms(3) show ?thesis by simp
qed

text \<open>Of two transactions of which neither is aborted at most one has claimed the row.\<close>

definition unaborted :: "server \<Rightarrow> nat \<Rightarrow> txn \<Rightarrow> bool" where
  "unaborted v i a \<longleftrightarrow> txns v i = Some a \<and> (\<forall>e. tx_status a \<noteq> Aborted e)"

definition claimed_once :: "ext \<Rightarrow> server \<Rightarrow> bool" where
  "claimed_once x v \<longleftrightarrow> integrity x v
     \<and> (\<forall>i a r. unaborted v i a \<longrightarrow> r \<in> claims (tx_writes a) \<longrightarrow>
          spent x r (if tx_status a = Active then view v a else committed v))
     \<and> (\<forall>i j a b r. unaborted v i a \<longrightarrow> unaborted v j b \<longrightarrow> r \<in> claims (tx_writes a)
          \<longrightarrow> r \<in> claims (tx_writes b) \<longrightarrow> i = j)"

lemma claimed_onceD:
  assumes "claimed_once x v" and "unaborted v i a" and "r \<in> claims (tx_writes a)"
  shows "spent x r (if tx_status a = Active then view v a else committed v)"
    and "unaborted v j b \<Longrightarrow> r \<in> claims (tx_writes b) \<Longrightarrow> j = i"
  using assms unfolding claimed_once_def by blast+

lemma claimed_spent:
  assumes "claimed_once x v" and "unaborted v i a" and "r \<in> claims (tx_writes a)"
  shows "tx_status a = Active \<Longrightarrow> spent x r (view v a)"
    and "tx_status a \<noteq> Active \<Longrightarrow> spent x r (committed v)"
  using claimed_onceD(1) [OF assms] by simp_all

lemma claimed_onceI:
  assumes "integrity x v"
    and "\<And>i a r. unaborted v i a \<Longrightarrow> r \<in> claims (tx_writes a)
      \<Longrightarrow> spent x r (if tx_status a = Active then view v a else committed v)"
    and "\<And>i j a b r. unaborted v i a \<Longrightarrow> unaborted v j b \<Longrightarrow> r \<in> claims (tx_writes a)
      \<Longrightarrow> r \<in> claims (tx_writes b) \<Longrightarrow> i = j"
  shows "claimed_once x v"
  using assms unfolding claimed_once_def by blast

lemma unaborted_set:
  "unaborted (set_txn i a v) j b \<longleftrightarrow>
     (if j = i then b = a \<and> (\<forall>e. tx_status a \<noteq> Aborted e) else unaborted v j b)"
  "unaborted (v\<lparr>committed := d\<rparr>) j b = unaborted v j b"
  by (auto simp: unaborted_def)

lemma active_unaborted: "active v i = Some a \<Longrightarrow> unaborted v i a"
  by (simp add: active_iff unaborted_def)

lemma view_frame [simp]: "view (set_txn i a v) b = view v b"
  by (simp add: view_def)

lemma view_ok: "integrity x v \<Longrightarrow> active v i = Some a \<Longrightarrow> db_ok x (view v a)"
  by (simp add: integrity_def view_def writes_fit_ok)

lemma spent_view: "integrity x v \<Longrightarrow> active v i = Some a \<Longrightarrow> spent x r (committed v) \<Longrightarrow> spent x r (view v a)"
  using view_ok [of x v i a] unfolding view_def by (rule spent_stays [rotated])

lemma claimed_once_advance:
  assumes J: "claimed_once x v" and act: "active v i = Some a" and adv: "advance x v i a a'"
  shows "claimed_once x (set_txn i a' v)"
proof -
  have I: "integrity x v" using J by (simp add: claimed_once_def)
  have status: "tx_status a' = Active" using advance_frame [OF adv] act by (simp add: active_iff)
  have I': "integrity x (set_txn i a' v)" by (rule integrity.advance [OF I act adv])
  have ok': "db_ok x (view v a')" using view_ok [OF I', of i a'] status by simp
  note una = active_unaborted [OF act]
  have fresh: "r \<notin> claims (tx_writes b)" if "j \<noteq> i" "unaborted v j b" "r \<in> claims (tx_writes a')" for j b r
  proof
    assume b: "r \<in> claims (tx_writes b)"
    from advance_claims [OF adv that(3)] show False
    proof (elim disjE conjE)
      assume "r \<in> claims (tx_writes a)"
      with claimed_onceD(2) [OF J una _ that(2) b] that(1) show False by simp
    next
      assume fr: "free v i r" and new: "\<not> spent x r (view v a)"
      show False
      proof (cases "tx_status b = Active")
        case True
        with that(1,2) fr have "r \<notin> row_of ` set (tx_writes b)" by (auto simp: free_def holds_def unaborted_def)
        with b claims_locked show False by blast
      next
        case False
        with spent_view [OF I act] claimed_spent(2) [OF J that(2) b] new show False by blast
      qed
    qed
  qed
  have own: "spent x r (view v a')" if r: "r \<in> claims (tx_writes a')" for r
    using advance_claims [OF adv r] claimed_spent(1) [OF J una] act advance_spent [OF adv _ ok']
    by (auto simp: active_iff)
  show ?thesis
  proof (rule claimed_onceI [OF I'])
    fix j b r
    assume "unaborted (set_txn i a' v) j b" and "r \<in> claims (tx_writes b)"
    then show "spent x r (if tx_status b = Active then view (set_txn i a' v) b else committed (set_txn i a' v))"
      using own status claimed_spent [OF J] by (cases "j = i") (auto simp: unaborted_set)
  next
    fix j k b c r
    assume "unaborted (set_txn i a' v) j b" and "unaborted (set_txn i a' v) k c"
      and "r \<in> claims (tx_writes b)" and "r \<in> claims (tx_writes c)"
    then show "j = k"
      using fresh claimed_onceD(2) [OF J]
      by (cases "j = i"; cases "k = i") (auto simp: unaborted_set)
  qed
qed

lemma gone_of_other:
  assumes I: "integrity x v" and "active v i = Some a" and "active v j = Some b" and "j \<noteq> i"
    and "gone t (view v b)"
  shows "t \<notin> rt_token ` set (added_rows (tx_writes a))"
proof
  assume t: "t \<in> rt_token ` set (added_rows (tx_writes a))"
  from assms(5) have "t \<in> rt_token ` set (refresh_tokens (committed v)) \<or> t \<in> rt_token ` set (added_rows (tx_writes b))"
    by (auto simp: gone_def view_def apply_writes_token_keys)
  then show False
  proof
    assume "t \<in> rt_token ` set (refresh_tokens (committed v))"
    with gone_added [of x "tx_writes a" "committed v" t] view_ok [OF I assms(2)] t show False by (simp add: view_def)
  next
    assume "t \<in> rt_token ` set (added_rows (tx_writes b))"
    moreover have "row_of ` set (tx_writes b) \<inter> row_of ` set (tx_writes a) = {}"
      using I assms(2-4) by (simp add: integrity_def)
    ultimately show False using added_row_locked [OF t] added_row_locked [of t "tx_writes b"] by blast
  qed
qed

lemma claimed_once_commit:
  assumes J: "claimed_once x v" and act: "active v i = Some a"
    and I': "integrity x (set_txn i (a\<lparr>tx_status := Committed c\<rparr>) v\<lparr>committed := view v a\<rparr>)"
  shows "claimed_once x (set_txn i (a\<lparr>tx_status := Committed c\<rparr>) v\<lparr>committed := view v a\<rparr>)"
proof -
  have I: "integrity x v" using J by (simp add: claimed_once_def)
  note una = active_unaborted [OF act]
  have own: "spent x r (view v a)" if "r \<in> claims (tx_writes a)" for r
    using claimed_spent(1) [OF J una that] act by (simp add: active_iff)
  have other: "spent x r (if tx_status b = Active then view (v\<lparr>committed := view v a\<rparr>) b else view v a)"
    if "j \<noteq> i" "unaborted v j b" "r \<in> claims (tx_writes b)" for j b r
  proof (cases "tx_status b = Active")
    case True
    with that(2) have b: "active v j = Some b" by (simp add: active_iff unaborted_def)
    have s: "spent x r (view v b)" by (rule claimed_spent(1) [OF J that(2,3) True])
    have "t \<notin> rt_token ` set (added_rows (tx_writes a))" if "r = TokenRow t" for t
      using gone_of_other [OF I act b \<open>j \<noteq> i\<close>] s that by (simp add: spent_TokenRow)
    with spent_stable s True show ?thesis by (simp add: view_def)
  next
    case False
    with spent_view [OF I act] claimed_spent(2) [OF J that(2,3)] show ?thesis by simp
  qed
  let ?w = "set_txn i (a\<lparr>tx_status := Committed c\<rparr>) v\<lparr>committed := view v a\<rparr>"
  show ?thesis
  proof (rule claimed_onceI [OF I'])
    fix j b r
    assume "unaborted ?w j b" and "r \<in> claims (tx_writes b)"
    then show "spent x r (if tx_status b = Active then view ?w b else committed ?w)"
      using own other [of j b r] by (cases "j = i") (auto simp: unaborted_set view_def split: if_splits)
  next
    fix j k b d r
    assume "unaborted ?w j b" and "unaborted ?w k d" and "r \<in> claims (tx_writes b)" and "r \<in> claims (tx_writes d)"
    then show "j = k"
      using una claimed_onceD(2) [OF J]
      by (cases "j = i"; cases "k = i") (auto simp: unaborted_set)
  qed
qed

lemma claimed_once_abort:
  assumes J: "claimed_once x v" and act: "active v i = Some a"
  shows "claimed_once x (set_txn i (a\<lparr>tx_status := Aborted e\<rparr>) v)"
proof (rule claimed_onceI)
  show "integrity x (set_txn i (a\<lparr>tx_status := Aborted e\<rparr>) v)"
    using J act integrity.abort by (simp add: claimed_once_def)
qed (use claimed_spent [OF J] claimed_onceD(2) [OF J] in \<open>auto simp: unaborted_set split: if_splits\<close>)

lemma claimed_once_start:
  assumes J: "claimed_once x v" and new: "txns v i = None"
  shows "claimed_once x (set_txn i (started_txn x s now job) v)"
proof (rule claimed_onceI)
  show "integrity x (set_txn i (started_txn x s now job) v)"
    using J new integrity.start by (simp add: claimed_once_def)
qed (use claimed_spent [OF J] claimed_onceD(2) [OF J] in \<open>auto simp: unaborted_set split: if_splits\<close>)

lemma claimed_once_integrity: "claimed_once x v \<Longrightarrow> integrity x v"
  by (simp add: claimed_once_def)

interpretation claimed_once: server_invariant x s "claimed_once x" for x s
  by unfold_locales
    (blast intro: claimed_once_start claimed_once_advance claimed_once_commit claimed_once_abort
      integrity.commit claimed_once_integrity)+

text \<open>\<open>needs x r b\<close>: every way of the body to a commit claims the row.\<close>

primrec needs :: "ext \<Rightarrow> row \<Rightarrow> script \<Rightarrow> bool" where
  "needs x r (Done q) = (\<exists>e. q = Inl e)"
| "needs x r (Consume t k) = ((\<forall>e. needs x r (k (Inl e))) \<and> (TokenRow t = r \<or> (\<forall>a. needs x r (k (Inr a)))))"
| "needs x r (ReadUser i k) = (\<forall>q. needs x r (k q))"
| "needs x r (ReadMembership u i k) = (\<forall>q. needs x r (k q))"
| "needs x r (InsertToken u i j e k) = (\<forall>q. needs x r (k q))"
| "needs x r (BumpVersion i k) = (\<forall>q. needs x r (k q))"
| "needs x r (StorePassword i h k) = (\<forall>q. needs x r (k q))"
| "needs x r (RevokeAll i k) = (\<forall>q. needs x r (k q))"
| "needs x r (InsertUser i email h n k) = ((\<forall>e. needs x r (k (Inl e)))
     \<and> (EmailKey (pg_lower x email) = r \<or> (\<forall>a. needs x r (k (Inr a)))))"
| "needs x r (InsertOrg i n k) = (\<forall>q. needs x r (k q))"
| "needs x r (InsertMembership i u j role k) = (\<forall>q. needs x r (k q))"

lemma statement_needs:
  "statement x ok now d b = Some (ws, b') \<Longrightarrow> needs x r b \<Longrightarrow> needs x r b' \<or> r \<in> claims ws"
  by (cases b) (auto split: sum.splits if_splits)

lemma advance_needs:
  assumes "advance x v i a a'" and "needs x r (tx_body a) \<or> r \<in> claims (tx_writes a)"
  shows "needs x r (tx_body a') \<or> r \<in> claims (tx_writes a')"
  using assms by cases (auto dest: statement_needs)

text \<open>What a refresh and a registration claim.\<close>

fun job_rows :: "ext \<Rightarrow> job \<Rightarrow> row set" where
  "job_rows x (RefreshJob t new now) = {TokenRow (hashOpaqueToken x t)}"
| "job_rows x (RegisterJob email hash name ids) = {EmailKey (pg_lower x email)}"
| "job_rows x _ = {}"

lemma job_needs: "r \<in> job_rows x job \<Longrightarrow> needs x r (body_of x s job)"
  by (cases job) (auto simp: refresh_body_def register_body_def proceed_def)

definition job_claims :: "ext \<Rightarrow> server \<Rightarrow> bool" where
  "job_claims x v \<longleftrightarrow> (\<forall>i a. unaborted v i a \<longrightarrow> (\<forall>r \<in> job_rows x (tx_job a).
     (tx_status a = Active \<and> needs x r (tx_body a)) \<or> r \<in> claims (tx_writes a)))"

interpretation job_claims: server_invariant x s "job_claims x" for x s
proof
  fix v i now job
  assume "job_claims x v"
  then show "job_claims x (set_txn i (started_txn x s now job) v)"
    by (auto simp: job_claims_def unaborted_set job_needs)
next
  fix v i a a'
  assume I: "job_claims x v" and act: "active v i = Some a" and adv: "advance x v i a a'"
  show "job_claims x (set_txn i a' v)"
    unfolding job_claims_def
  proof (intro allI impI ballI)
    fix j b r
    assume b: "unaborted (set_txn i a' v) j b" "r \<in> job_rows x (tx_job b)"
    show "tx_status b = Active \<and> needs x r (tx_body b) \<or> r \<in> claims (tx_writes b)"
    proof (cases "j = i")
      case True
      with b have "b = a'" by (simp add: unaborted_set)
      with b I active_unaborted [OF act] advance_needs [OF adv] advance_frame [OF adv] act show ?thesis
        unfolding job_claims_def active_iff by metis
    next
      case False
      with b I show ?thesis by (auto simp: job_claims_def unaborted_set)
    qed
  qed
next
  fix v i a c
  assume I: "job_claims x v" and act: "active v i = Some a" and b: "tx_body a = Done (Inr c)"
  from I active_unaborted [OF act] b
  show "job_claims x (set_txn i (a\<lparr>tx_status := Committed c\<rparr>) v\<lparr>committed := view v a\<rparr>)"
    by (fastforce simp: job_claims_def unaborted_set split: if_splits)
next
  fix v i a e
  assume "job_claims x v"
  then show "job_claims x (set_txn i (a\<lparr>tx_status := Aborted e\<rparr>) v)"
    by (auto simp: job_claims_def unaborted_set split: if_splits)
qed

lemma idle_invariants: "db_ok x d \<Longrightarrow> claimed_once x (idle d)" "job_claims x (idle d)"
  by (auto simp: claimed_once_def integrity_def job_claims_def unaborted_def idle_def active_def)

end
