(* ===== verification/ConcurrentProgress.thy ===== *)
theory ConcurrentProgress
  imports ConcurrentProps
begin

text \<open>
  When transactions can go on: what a transaction holds while it waits. Refreshes and single
  inserts take the row of the token they consume and then insert as their last statement; a
  password change takes the row of its user and then rows of tokens of that user; a registration
  takes keys of users, of orgs and of memberships, in that order. These orders are invariants
  (\<open>shaped\<close>), and where only such transactions run there is always one that does not wait.
\<close>

subsection \<open>The order in which rows are taken\<close>

definition is_done :: "script \<Rightarrow> bool" where
  "is_done b \<longleftrightarrow> (\<exists>r. b = Done r)"

text \<open>\<open>inserting T b\<close>: the body reads, and may end with the insert of a token of \<open>T\<close>.\<close>

primrec inserting :: "string set \<Rightarrow> script \<Rightarrow> bool" where
  "inserting T (Done r) = True"
| "inserting T (Consume u k) = False"
| "inserting T (ReadUser i k) = (\<forall>r. inserting T (k r))"
| "inserting T (ReadMembership u i k) = (\<forall>r. inserting T (k r))"
| "inserting T (InsertToken u i j e k) = (u \<in> T \<and> (\<forall>r. is_done (k r)))"
| "inserting T (BumpVersion i k) = False"
| "inserting T (StorePassword i h k) = False"
| "inserting T (RevokeAll i k) = False"
| "inserting T (InsertUser i e h n k) = False"
| "inserting T (InsertOrg i n k) = False"
| "inserting T (InsertMembership i u j role k) = False"

primrec revoking :: "uuid \<Rightarrow> script \<Rightarrow> bool" where
  "revoking u (Done r) = True"
| "revoking u (Consume t k) = False"
| "revoking u (ReadUser i k) = False"
| "revoking u (ReadMembership j i k) = False"
| "revoking u (InsertToken t i j e k) = False"
| "revoking u (BumpVersion i k) = (i = u \<and> (\<forall>r. revoking u (k r)))"
| "revoking u (StorePassword i h k) = False"
| "revoking u (RevokeAll i k) = (i = u \<and> (\<forall>r. is_done (k r)))"
| "revoking u (InsertUser i e h n k) = False"
| "revoking u (InsertOrg i n k) = False"
| "revoking u (InsertMembership i j l role k) = False"

text \<open>The keys that registrations take have levels; \<open>above n b\<close>: the body inserts rows of rising
  levels above \<open>n\<close> only.\<close>

fun level :: "row \<Rightarrow> nat" where
  "level (UserKey i) = 1"
| "level (EmailKey e) = 1"
| "level (OrgKey i) = 2"
| "level (MemberKey i) = 3"
| "level (PairKey u i) = 3"
| "level _ = 0"

primrec above :: "nat \<Rightarrow> script \<Rightarrow> bool" where
  "above n (Done r) = True"
| "above n (Consume t k) = False"
| "above n (ReadUser i k) = False"
| "above n (ReadMembership j i k) = False"
| "above n (InsertToken t i j e k) = False"
| "above n (BumpVersion i k) = False"
| "above n (StorePassword i h k) = False"
| "above n (RevokeAll i k) = False"
| "above n (InsertUser i e h m k) = (n < 1 \<and> (\<forall>r. above 1 (k r)))"
| "above n (InsertOrg i m k) = (n < 2 \<and> (\<forall>r. above 2 (k r)))"
| "above n (InsertMembership i u j role k) = (n < 3 \<and> (\<forall>r. above 3 (k r)))"

lemma done_ok [simp]: "is_done b \<Longrightarrow> inserting T b" "is_done b \<Longrightarrow> revoking u b" "is_done (Done r)"
  by (auto simp: is_done_def)

definition insert_shape :: "string set \<Rightarrow> txn \<Rightarrow> bool" where
  "insert_shape T a \<longleftrightarrow> tx_scan a = None \<and>
     (tx_writes a = [] \<and> (\<exists>t k. tx_body a = Consume t k \<and> (\<forall>r. inserting T (k r)))
      \<or> inserting T (tx_body a) \<and> (\<forall>w \<in> set (tx_writes a).
          (\<exists>t. w = Consumed t) \<or> (\<exists>k. w = Added k \<and> rt_token k \<in> T) \<and> is_done (tx_body a)))"

definition owned :: "string \<Rightarrow> uuid \<Rightarrow> database \<Rightarrow> bool" where
  "owned t u d \<longleftrightarrow> (\<exists>k \<in> set (refresh_tokens d). rt_token k = t \<and> rt_user_id k = u)"

definition user_write_of :: "uuid \<Rightarrow> database \<Rightarrow> effect \<Rightarrow> bool" where
  "user_write_of u d w \<longleftrightarrow> row_of w = UserRow u \<or> (\<exists>t. w = Revoked t \<and> owned t u d)"

definition password_shape :: "uuid \<Rightarrow> database \<Rightarrow> txn \<Rightarrow> bool" where
  "password_shape u d a \<longleftrightarrow>
     (tx_scan a = None \<and> tx_writes a = [] \<and> (\<exists>h k. tx_body a = StorePassword u h k \<and> (\<forall>r. revoking u (k r))))
     \<or> (revoking u (tx_body a) \<and> UserRow u \<in> row_of ` set (tx_writes a)
        \<and> (\<forall>w \<in> set (tx_writes a). user_write_of u d w)
        \<and> (\<forall>ts. tx_scan a = Some ts \<longrightarrow> (\<exists>k. tx_body a = RevokeAll u k) \<and> (\<forall>t \<in> set ts. owned t u d)))"

definition register_shape :: "txn \<Rightarrow> bool" where
  "register_shape a \<longleftrightarrow> tx_scan a = None \<and> (\<exists>n. above n (tx_body a)
     \<and> (\<forall>w \<in> set (tx_writes a). 1 \<le> level (row_of w) \<and> level (row_of w) \<le> n))"

fun new_tokens :: "ext \<Rightarrow> job \<Rightarrow> string set" where
  "new_tokens x (RefreshJob t (Inr n) now) = {hashOpaqueToken x n}"
| "new_tokens x (IssueJob t u r expires) = {t}"
| "new_tokens x _ = {}"

text \<open>\<open>U\<close> are users that are stored.\<close>

definition shape :: "ext \<Rightarrow> uuid set \<Rightarrow> database \<Rightarrow> txn \<Rightarrow> bool" where
  "shape x U d a = (case tx_job a of
     LogoutJob t \<Rightarrow> True
   | PasswordJob u hash \<Rightarrow> u \<in> U \<longrightarrow> password_shape u d a
   | RegisterJob email hash name ids \<Rightarrow> register_shape a
   | job \<Rightarrow> insert_shape (new_tokens x job) a)"

lemma shape_start: "shape x U d (started_txn x s now job)"
proof (cases job)
  case (RegisterJob email hash name ids)
  then show ?thesis
    by (cases ids) (auto simp: shape_def register_shape_def register_body_def proceed_def
        intro!: exI [of _ 0] split: sum.splits)
qed (cases "case job of RefreshJob t new now \<Rightarrow> new | _ \<Rightarrow> Inl ErrRand",
     auto simp: shape_def insert_shape_def password_shape_def refresh_body_def set_password_body_def
       issue_body_def proceed_def split: sum.splits)

lemma statement_insert:
  assumes "statement x ok now d b = Some (ws, b')" and "inserting T b"
  shows "inserting T b' \<and> (\<forall>w \<in> set ws. (\<exists>k. w = Added k \<and> rt_token k \<in> T) \<and> is_done b')"
  using assms by (cases b) (auto simp: inserted_keys split: sum.splits if_splits)

lemma insert_advance:
  assumes "advance x v i a a'" and "insert_shape T a"
  shows "insert_shape T a'"
  using assms(1)
proof cases
  case (statement ws b)
  show ?thesis
  proof (cases "inserting T (tx_body a)")
    case True
    have "is_done (tx_body a) \<Longrightarrow> False" using statement by (auto simp: is_done_def)
    with True statement_insert [OF statement(3) True] statement assms(2) show ?thesis
      by (auto simp: insert_shape_def)
  next
    case False
    with assms(2) obtain t k where "tx_body a = Consume t k" "\<forall>r. inserting T (k r)" "tx_writes a = []"
      by (auto simp: insert_shape_def)
    with statement show ?thesis by (auto simp: insert_shape_def split: sum.splits if_splits)
  qed
qed (use assms(2) in \<open>auto simp: insert_shape_def\<close>)

lemma owned_stays: "owned t u d \<Longrightarrow> owned t u (apply_writes ws d)"
  unfolding owned_def apply_writes_fields by (auto intro!: bexI [where x = "fold token_write ws k" for k])

lemma user_write_stays: "user_write_of u d w \<Longrightarrow> user_write_of u (apply_writes ws d) w"
  by (auto simp: user_write_of_def owned_stays)

lemma statement_revoking:
  assumes "statement x ok now d b = Some (ws, b')" and "revoking u b"
  shows "revoking u b' \<and> (\<forall>w \<in> set ws. row_of w = UserRow u)"
  using assms by (cases b) (auto split: sum.splits if_splits)

lemma no_added: "(\<And>k. Added k \<notin> set ws) \<Longrightarrow> added_rows ws = []"
  using added_keys [of ws] by auto

lemma scanned_owned:
  assumes "\<forall>w \<in> set ws. user_write_of u d w"
    and "t \<in> rt_token ` {k \<in> set (refresh_tokens (apply_writes ws d)). rt_user_id k = u}"
  shows "owned t u d"
proof -
  have "added_rows ws = []"
    by (rule no_added) (use assms(1) in \<open>auto simp: user_write_of_def\<close>)
  with assms(2) show ?thesis by (auto simp: apply_writes_fields owned_def)
qed

lemma password_advance:
  assumes "advance x v i a a'" and "password_shape u (committed v) a" and "find_user u (committed v) \<noteq> None"
  shows "password_shape u (committed v) a'"
  using assms(1)
proof cases
  case (statement ws b)
  show ?thesis
  proof (cases "revoking u (tx_body a)")
    case True
    note s = statement_revoking [OF statement(3) True]
    have "tx_body a \<noteq> StorePassword u h k" for h k using True by auto
    with assms(2) have p: "UserRow u \<in> row_of ` set (tx_writes a)"
      "\<forall>w \<in> set (tx_writes a). user_write_of u (committed v) w"
      by (auto simp: password_shape_def)
    with s have "\<forall>w \<in> set (tx_writes a @ ws). user_write_of u (committed v) w"
      by (auto simp: user_write_of_def)
    moreover have "UserRow u \<in> row_of ` set (tx_writes a @ ws)"
      using p(1) by (auto simp only: set_append image_Un)
    moreover have "revoking u b" using s by blast
    ultimately show ?thesis unfolding statement(1) password_shape_def by (simp add: statement(2))
  next
    case False
    with assms(2) obtain h k where "tx_body a = StorePassword u h k" "\<forall>r. revoking u (k r)" "tx_writes a = []"
      by (auto simp: password_shape_def)
    with statement assms(3) show ?thesis
      by (auto simp: password_shape_def user_write_of_def view_def split: if_splits)
  qed
next
  case (scan w k ts)
  with assms(2) have u: "w = u" and ws: "\<forall>w \<in> set (tx_writes a). user_write_of u (committed v) w"
    by (auto simp: password_shape_def)
  have "\<forall>t \<in> set ts. owned t u (committed v)"
    using scanned_owned [OF ws] scan u by (auto simp: view_def)
  with scan u assms(2) show ?thesis by (auto simp: password_shape_def)
next
  case (write_row ts t)
  then have "set (remove1 t ts) \<subseteq> set ts" by (simp add: set_remove1_subset)
  with write_row assms(2) show ?thesis by (auto simp: password_shape_def user_write_of_def)
next
  case (end_scan w k)
  with assms(2) show ?thesis by (auto simp: password_shape_def)
qed

lemma statement_above:
  assumes "statement x ok now d b = Some (ws, b')" and "above n b"
  shows "\<exists>m \<ge> n. above m b' \<and> (\<forall>w \<in> set ws. 1 \<le> level (row_of w) \<and> level (row_of w) \<le> m)"
proof (cases b)
  case (InsertUser i e h m k)
  with assms show ?thesis by (intro exI [of _ 1]) (auto split: sum.splits if_splits)
next
  case (InsertOrg i m k)
  with assms show ?thesis by (intro exI [of _ 2]) (auto split: sum.splits if_splits)
next
  case (InsertMembership i u j role k)
  with assms show ?thesis by (intro exI [of _ 3]) (auto split: sum.splits if_splits)
qed (use assms in auto)

lemma register_advance:
  assumes "advance x v i a a'" and "register_shape a"
  shows "register_shape a'"
  using assms(1)
proof cases
  case (statement ws b)
  from assms(2) obtain n where n: "above n (tx_body a)"
    "\<forall>w \<in> set (tx_writes a). 1 \<le> level (row_of w) \<and> level (row_of w) \<le> n"
    by (auto simp: register_shape_def)
  from statement_above [OF statement(3) n(1)] obtain m where "n \<le> m" "above m b"
    "\<forall>w \<in> set ws. 1 \<le> level (row_of w) \<and> level (row_of w) \<le> m" by blast
  with n(2) statement show ?thesis by (fastforce simp: register_shape_def)
qed (use assms(2) in \<open>auto simp: register_shape_def\<close>)

definition shaped :: "ext \<Rightarrow> uuid set \<Rightarrow> server \<Rightarrow> bool" where
  "shaped x U v \<longleftrightarrow> (\<forall>u \<in> U. find_user u (committed v) \<noteq> None)
     \<and> (\<forall>i a. active v i = Some a \<longrightarrow> shape x U (committed v) a)"

lemma shape_advance:
  assumes "advance x v i a a'" and "shape x U (committed v) a" and "\<forall>u \<in> U. find_user u (committed v) \<noteq> None"
  shows "shape x U (committed v) a'"
  using assms advance_frame [OF assms(1)]
  by (auto simp: shape_def split: job.splits intro: insert_advance password_advance register_advance)

lemma shape_commit: "shape x U d a \<Longrightarrow> shape x U (apply_writes ws d) a"
  by (auto simp: shape_def password_shape_def owned_stays user_write_stays split: job.splits)

interpretation shaped: server_invariant x s "shaped x U" for x s U
proof
  fix v i a a'
  assume "shaped x U v" and "active v i = Some a" and adv: "advance x v i a a'"
  then show "shaped x U (set_txn i a' v)"
    using shape_advance [OF adv] by (auto simp: shaped_def)
qed (auto simp: shaped_def shape_start view_def view_keys shape_commit split: if_splits)

lemma idle_shaped: "(\<And>u. u \<in> U \<Longrightarrow> find_user u d \<noteq> None) \<Longrightarrow> shaped x U (idle d)"
  by (simp add: shaped_def idle_def active_def)

subsection \<open>Going on\<close>

text \<open>The steps a transaction takes by itself: neither a new one, nor an end from outside.\<close>

fun progress :: "action \<Rightarrow> bool" where
  "progress (Begin i now job) = False"
| "progress (Fail i) = False"
| "progress _ = True"

definition goes :: "ext \<Rightarrow> service \<Rightarrow> server \<Rightarrow> bool" where
  "goes x s v \<longleftrightarrow> (\<exists>ac w. progress ac \<and> act x s ac v = Some w)"

lemma goes_done: "active v i = Some a \<Longrightarrow> is_done (tx_body a) \<Longrightarrow> goes x s v"
  unfolding goes_def is_done_def by (intro exI [of _ "Finish i"]) auto

lemma goes_statement:
  assumes "active v i = Some a" and "tx_scan a = None"
    and "statement x (free v i) (tx_now a) (view v a) (tx_body a) \<noteq> None"
  shows "goes x s v"
  unfolding goes_def using assms by (intro exI [of _ "Statement i"]) auto

lemma not_free:
  assumes "\<not> free v i r"
  obtains j b w where "j \<noteq> i" "active v j = Some b" "w \<in> set (tx_writes b)" "row_of w = r"
  using assms by (auto simp: free_iff)

text \<open>No logout is under way, password changes are of stored users, and no token that is being made
  collides with a stored one.\<close>

definition quiet_server :: "ext \<Rightarrow> uuid set \<Rightarrow> server \<Rightarrow> bool" where
  "quiet_server x U v \<longleftrightarrow> claimed_once x v \<and> shaped x U v
     \<and> (\<forall>j b t. active v j = Some b \<longrightarrow> tx_job b \<noteq> LogoutJob t)
     \<and> (\<forall>j b u h. active v j = Some b \<longrightarrow> tx_job b = PasswordJob u h \<longrightarrow> u \<in> U)
     \<and> (\<forall>j b t. active v j = Some b \<longrightarrow> t \<in> new_tokens x (tx_job b) \<longrightarrow> find_token t (committed v) = None)"

lemma quiet_exclusive:
  assumes "quiet_server x U v" and "j \<noteq> i" and "active v i = Some a" and "active v j = Some b"
  shows "row_of ` set (tx_writes a) \<inter> row_of ` set (tx_writes b) = {}"
proof -
  from assms(1) have "integrity x v" by (simp add: quiet_server_def claimed_once_integrity)
  then show ?thesis unfolding integrity_def using assms(2-4) by blast
qed

lemma quiet_cases:
  assumes "quiet_server x U v" and "active v i = Some a"
  obtains (insert) "insert_shape (new_tokens x (tx_job a)) a"
  | (password) u h where "tx_job a = PasswordJob u h" "password_shape u (committed v) a"
  | (register) "register_shape a"
proof -
  from assms have "shape x U (committed v) a" and "\<And>t. tx_job a \<noteq> LogoutJob t"
    and "\<And>u h. tx_job a = PasswordJob u h \<Longrightarrow> u \<in> U"
    by (auto simp: quiet_server_def shaped_def)
  with that show thesis by (cases "tx_job a") (auto simp: shape_def)
qed

text \<open>Keys of registrations are held by registrations that are past them.\<close>

lemma level_holder:
  assumes q: "quiet_server x U v" and act: "active v i = Some a"
    and w: "w \<in> set (tx_writes a)" "1 \<le> level (row_of w)"
  shows "tx_scan a = None \<and> (\<exists>n \<ge> level (row_of w). above n (tx_body a))"
  using q act
proof (cases rule: quiet_cases)
  case insert
  with w show ?thesis by (auto simp: insert_shape_def)
next
  case (password u h)
  with w(1) have "row_of w = UserRow u \<or> (\<exists>t. row_of w = TokenRow t)"
    by (auto simp: password_shape_def user_write_of_def)
  with w(2) show ?thesis by auto
next
  case register
  with w show ?thesis by (auto simp: register_shape_def)
qed

lemma goes_above:
  assumes q: "quiet_server x U v"
  shows "active v i = Some a \<Longrightarrow> tx_scan a = None \<Longrightarrow> above n (tx_body a) \<Longrightarrow> 1 \<le> n \<Longrightarrow> goes x s v"
proof (induction "3 - n" arbitrary: n i a rule: less_induct)
  case less
  have blocked: "goes x s v" if "\<not> free v i r" "n < level r" "n < 3" for r
  proof -
    from that(1) obtain j b w where b: "active v j = Some b" "w \<in> set (tx_writes b)" "row_of w = r"
      by (rule not_free)
    with level_holder [OF q b(1,2)] that(2) obtain m where m: "tx_scan b = None" "level r \<le> m" "above m (tx_body b)"
      by auto
    show ?thesis by (rule less.hyps [OF _ b(1) m(1,3)]) (use m that less.prems in auto)
  qed
  show ?case
  proof (cases "tx_body a")
    case (Done r)
    then show ?thesis by (auto intro: goes_done [OF less.prems(1)])
  next
    case (InsertOrg j nm k)
    show ?thesis
    proof (cases "free v i (OrgKey j)")
      case True
      with InsertOrg show ?thesis by (intro goes_statement [OF less.prems(1,2)]) (auto split: sum.splits)
    next
      case False
      with InsertOrg less.prems(3) show ?thesis by (intro blocked) auto
    qed
  next
    case (InsertMembership j u r role k)
    show ?thesis
    proof (cases "free v i (MemberKey j) \<and> free v i (PairKey u r)")
      case True
      with InsertMembership show ?thesis by (intro goes_statement [OF less.prems(1,2)]) (auto split: sum.splits)
    next
      case False
      with InsertMembership less.prems(3) blocked [of "MemberKey j"] blocked [of "PairKey u r"] show ?thesis by auto
    qed
  qed (use less.prems in auto)
qed

lemma owned_key: "owned t u d \<Longrightarrow> find_token t d \<noteq> None"
  by (auto simp: owned_def find_token_def find_key_None)

lemma owned_unique:
  assumes "db_ok x d" and "owned t u d" and "owned t w d"
  shows "w = u"
  using assms distinct_map_key_unique [OF tokens_distinct [OF assms(1)]] by (auto simp: owned_def)

lemma claimed_token:
  assumes "claimed_once x v" and "active v i = Some a" and "Consumed t \<in> set (tx_writes a)"
  shows "gone t (view v a)"
proof -
  have "TokenRow t \<in> claims (tx_writes a)" using assms(3) by (force simp: claims_def)
  from claimed_spent(1) [OF assms(1) active_unaborted [OF assms(2)] this] assms(2) show ?thesis
    by (simp add: spent_TokenRow active_iff)
qed

text \<open>The row of a token that is being made, or its key, is held by a transaction that is done.\<close>

lemma token_holder:
  assumes q: "quiet_server x U v" and none: "find_token t (committed v) = None"
    and b: "active v j = Some b" "w \<in> set (tx_writes b)" "row_of w \<in> {TokenKey t, TokenRow t}"
  shows "is_done (tx_body b)"
  using q b(1)
proof (cases rule: quiet_cases)
  case insert
  from insert b(2,3) consider "w = Consumed t" | k where "w = Added k" "is_done (tx_body b)"
    by (cases w) (auto simp: insert_shape_def)
  then show ?thesis
  proof cases
    case 1
    have "gone t (view v b)"
      by (rule claimed_token [OF _ b(1)]) (use 1 b(2) q in \<open>auto simp: quiet_server_def\<close>)
    then have "t \<in> rt_token ` set (added_rows (tx_writes b))"
      using none by (auto simp: gone_def view_def apply_writes_token_keys find_token_def find_key_None)
    then obtain k where "Added k \<in> set (tx_writes b)" unfolding added_keys by auto
    with insert show ?thesis by (auto simp: insert_shape_def)
  qed
next
  case (password u h)
  with b(2,3) have "owned t u (committed v)" by (fastforce simp: password_shape_def user_write_of_def)
  with owned_key none show ?thesis by blast
next
  case register
  with b(2,3) show ?thesis by (fastforce simp: register_shape_def)
qed

lemma goes_inserting:
  assumes q: "quiet_server x U v" and act: "active v i = Some a"
    and shp: "insert_shape (new_tokens x (tx_job a)) a" and ins: "inserting (new_tokens x (tx_job a)) (tx_body a)"
  shows "goes x s v"
proof (cases "tx_body a")
  case (InsertToken t u r e k)
  have sc: "tx_scan a = None" using shp by (simp add: insert_shape_def)
  have none: "find_token t (committed v) = None"
    using q act ins InsertToken by (simp add: quiet_server_def)
  show ?thesis
  proof (cases "free v i (TokenRow t) \<and> free v i (TokenKey t)")
    case True
    with InsertToken sc show ?thesis
      by (intro goes_statement [OF act]) (auto split: sum.splits)
  next
    case False
    then obtain j b w where b: "active v j = Some b" "w \<in> set (tx_writes b)" "row_of w \<in> {TokenKey t, TokenRow t}"
      by (auto elim!: not_free)
    from goes_done [OF b(1) token_holder [OF q none b]] show ?thesis .
  qed
qed (use shp ins in \<open>auto simp: insert_shape_def intro: goes_done [OF act] goes_statement [OF act]\<close>)

text \<open>Otherwise the rows of tokens that are held belong to password changes of their users.\<close>

lemma goes_password:
  assumes q: "quiet_server x U v" and act: "active v i = Some a" and job: "tx_job a = PasswordJob u h"
    and shp: "password_shape u (committed v) a" and rev: "revoking u (tx_body a)"
    and held: "\<And>j b. active v j = Some b \<Longrightarrow> tx_writes b \<noteq> [] \<Longrightarrow>
      \<exists>u h. tx_job b = PasswordJob u h \<and> password_shape u (committed v) b \<and> revoking u (tx_body b)"
  shows "goes x s v"
proof -
  have mine: "UserRow u \<in> row_of ` set (tx_writes a)" using shp rev by (auto simp: password_shape_def)
  have alone: "UserRow u \<notin> row_of ` set (tx_writes b)" if "j \<noteq> i" "active v j = Some b" for j b
    using quiet_exclusive [OF q that(1) act that(2)] mine by blast
  show ?thesis
  proof (cases "tx_scan a")
    case None
    show ?thesis
    proof (cases "tx_body a")
      case (BumpVersion w k)
      have "free v i (UserRow w)"
        using alone BumpVersion rev by (auto simp: free_iff)
      with BumpVersion None show ?thesis by (intro goes_statement [OF act]) (auto split: sum.splits)
    next
      case (RevokeAll w k)
      with act None show ?thesis unfolding goes_def by (intro exI [of _ "Scan i"]) auto
    qed (use rev in \<open>auto intro: goes_done [OF act]\<close>)
  next
    case (Some ts)
    with shp obtain k where body: "tx_body a = RevokeAll u k" and own: "\<forall>t \<in> set ts. owned t u (committed v)"
      by (auto simp: password_shape_def)
    show ?thesis
    proof (cases ts)
      case Nil
      with act Some body show ?thesis unfolding goes_def by (intro exI [of _ "EndScan i"]) auto
    next
      case (Cons t rest)
      have "free v i (TokenRow t)"
      proof (rule ccontr)
        assume "\<not> ?thesis"
        then obtain j b e where b: "j \<noteq> i" "active v j = Some b" "e \<in> set (tx_writes b)" "row_of e = TokenRow t"
          by (rule not_free)
        then have "tx_writes b \<noteq> []" by auto
        from held [OF b(2) this] obtain w where w: "password_shape w (committed v) b" "revoking w (tx_body b)" by blast
        with b(3,4) have "owned t w (committed v)" "UserRow w \<in> row_of ` set (tx_writes b)"
          by (auto simp: password_shape_def user_write_of_def)
        moreover have "db_ok x (committed v)" using q by (simp add: quiet_server_def claimed_once_def integrity_def)
        moreover have "owned t u (committed v)" using own Cons by simp
        ultimately show False using owned_unique alone [OF b(1,2)] by blast
      qed
      with act Some Cons show ?thesis unfolding goes_def by (intro exI [of _ "WriteRow i t"]) auto
    qed
  qed
qed

text \<open>Where nothing is held every statement can run.\<close>

lemma goes_free:
  assumes "active v i = Some a" and "tx_scan a = None" and "\<And>r. free v i r" and "\<And>u k. tx_body a \<noteq> RevokeAll u k"
  shows "goes x s v"
proof (cases "is_done (tx_body a)")
  case False
  with assms(3,4) have "statement x (free v i) (tx_now a) (view v a) (tx_body a) \<noteq> None"
    by (cases "tx_body a") (auto simp: list_ex_iff split: sum.splits)
  with assms(1,2) show ?thesis by (rule goes_statement)
qed (rule goes_done [OF assms(1)])

text \<open>Among refreshes, inserts, password changes and registrations one can always go on.\<close>

lemma quiet_goes:
  assumes q: "quiet_server x U v" and act: "active v i = Some a"
  shows "goes x s v"
proof (rule ccontr)
  assume stuck: "\<not> goes x s v"
  have held: "\<exists>u h. tx_job b = PasswordJob u h \<and> password_shape u (committed v) b \<and> revoking u (tx_body b)"
    if b: "active v j = Some b" and ne: "tx_writes b \<noteq> []" for j b
    using q b
  proof (cases rule: quiet_cases)
    case insert
    with stuck goes_inserting [OF q b insert, where s = s] ne show ?thesis by (auto simp: insert_shape_def)
  next
    case (password u h)
    with ne show ?thesis unfolding password_shape_def by blast
  next
    case register
    from ne obtain w where "w \<in> set (tx_writes b)" by (cases "tx_writes b") auto
    with register obtain n where "tx_scan b = None" "above n (tx_body b)" "1 \<le> n"
      by (fastforce simp: register_shape_def)
    with stuck goes_above [OF q b, where n = n and s = s] show ?thesis by blast
  qed
  have none: "\<not> (\<exists>j b u h. active v j = Some b \<and> tx_job b = PasswordJob u h
      \<and> password_shape u (committed v) b \<and> revoking u (tx_body b))"
  proof (intro notI, elim exE conjE)
    fix j b u h
    assume b: "active v j = Some b" "tx_job b = PasswordJob u h" "password_shape u (committed v) b"
      "revoking u (tx_body b)"
    have "goes x s v" by (rule goes_password [OF q b]) (rule held)
    with stuck show False by blast
  qed
  then have free: "free v i r" for r using held by (fastforce simp: free_iff)
  from q act have "tx_scan a = None \<and> (\<forall>u k. tx_body a \<noteq> RevokeAll u k)"
  proof (cases rule: quiet_cases)
    case insert
    then show ?thesis by (auto simp: insert_shape_def)
  next
    case (password u h)
    with none act show ?thesis unfolding password_shape_def by force
  next
    case register
    then show ?thesis by (auto simp: register_shape_def)
  qed
  with goes_free [OF act _ free] stuck show False by blast
qed

end
