(* ===== verification/ConcurrentSerial.thy ===== *)
theory ConcurrentSerial
  imports ConcurrentProgress
begin

text \<open>
  Transactions run alone. \<open>run_body\<close> runs a script at once on the tables; the scripts of
  Concurrent run so are the transactions of Service, and a transaction that runs alone on the
  server reaches the same end. With this the two models of a transaction agree.
\<close>

subsection \<open>A body run at once\<close>

primrec run_body :: "ext \<Rightarrow> time \<Rightarrow> script \<Rightarrow> database \<Rightarrow> (err + result) \<times> database" where
  "run_body x now (Done r) = (\<lambda>d. (r, d))"
| "run_body x now (Consume t k) = (\<lambda>d. run_body x now (k (fst (consume_token now t d))) (snd (consume_token now t d)))"
| "run_body x now (ReadUser i k) = (\<lambda>d. run_body x now (k (one_row (find_user i d))) d)"
| "run_body x now (ReadMembership u i k) = (\<lambda>d. run_body x now (k (one_row (find_membership u i d))) d)"
| "run_body x now (InsertToken t u i e k) =
     (\<lambda>d. run_body x now (k (fst (insert_token now t u i e d))) (snd (insert_token now t u i e d)))"
| "run_body x now (BumpVersion i k) =
     (\<lambda>d. run_body x now (k (fst (increment_version now i d))) (snd (increment_version now i d)))"
| "run_body x now (StorePassword i hash k) =
     (\<lambda>d. run_body x now (k (fst (update_password now i hash d))) (snd (update_password now i hash d)))"
| "run_body x now (RevokeAll u k) =
     (\<lambda>d. run_body x now (k (fst (revoke_user_tokens u d))) (snd (revoke_user_tokens u d)))"
| "run_body x now (InsertUser i email hash n k) = (\<lambda>d. run_body x now
     (k (fst (insert_user x now i email hash n d))) (snd (insert_user x now i email hash n d)))"
| "run_body x now (InsertOrg i n k) =
     (\<lambda>d. run_body x now (k (fst (insert_org now i n d))) (snd (insert_org now i n d)))"
| "run_body x now (InsertMembership i u r role k) = (\<lambda>d. run_body x now
     (k (fst (insert_membership now i u r role d))) (snd (insert_membership now i u r role d)))"

text \<open>The bodies are the transactions of the service.\<close>

lemma logout_body_run:
  assumes "healthy w"
  shows "map_sum id (\<lambda>_. Finished) (fst (logout_tx x t w)) = fst (run_body x (db_now w) (logout_body x t) (db w))
    \<and> db (snd (logout_tx x t w)) = snd (run_body x (db_now w) (logout_body x t) (db w))
    \<and> healthy (snd (logout_tx x t w))"
  using assms
  by (auto simp: logout_tx_def logout_body_def call_apply attempt_apply query_defs exec_healthy proceed_def
      ret_def fail_def split: sum.splits)

lemma set_password_body_run:
  assumes "healthy w"
  shows "map_sum id (\<lambda>_. Finished) (fst (set_password_tx i h w)) = fst (run_body x (db_now w) (set_password_body i h) (db w))
    \<and> db (snd (set_password_tx i h w)) = snd (run_body x (db_now w) (set_password_body i h) (db w))
    \<and> healthy (snd (set_password_tx i h w))"
  using assms
  by (auto simp: set_password_tx_def set_password_body_def attempt_apply query_defs exec_healthy proceed_def
      revoke_user_tokens_def update_password_def split: sum.splits)

lemma refresh_body_run:
  assumes "healthy w" and "rand_src w (rand_pos w) = Some b"
  shows "map_sum id (\<lambda>(u, n, m). Rotated u n m) (fst (refresh_tx x s t w)) =
      fst (run_body x (db_now w) (refresh_body x s t (Inr (hex_encode b)) (app_now w)) (db w))
    \<and> db (snd (refresh_tx x s t w)) =
      snd (run_body x (db_now w) (refresh_body x s t (Inr (hex_encode b)) (app_now w)) (db w))
    \<and> healthy (snd (refresh_tx x s t w))"
  using assms
  by (auto simp: refresh_tx_def refresh_consumed_def refresh_body_def call_apply attempt_apply query_defs
      exec_healthy proceed_def ret_def fail_def read_world_def GenerateRefreshToken_apply split: sum.splits)

text \<open>The next three values of \<open>gen_random_uuid()\<close>.\<close>

definition next_uuids :: "world \<Rightarrow> uuid \<times> uuid \<times> uuid" where
  "next_uuids w = (uuid_src w (uuid_pos w), uuid_src w (Suc (uuid_pos w)), uuid_src w (Suc (Suc (uuid_pos w))))"

lemma register_body_run:
  assumes "healthy w"
  shows "map_sum id (\<lambda>(u, r). Registered u r) (fst (register_tx x email hash name w)) =
      fst (run_body x (db_now w) (register_body x email hash name (next_uuids w)) (db w))
    \<and> db (snd (register_tx x email hash name w)) =
      snd (run_body x (db_now w) (register_body x email hash name (next_uuids w)) (db w))
    \<and> healthy (snd (register_tx x email hash name w))"
  using assms
  by (auto simp: register_tx_def register_body_def next_uuids_def call_apply attempt_apply query_defs
      gen_random_uuid_def exec_healthy proceed_def ret_def fail_def split: sum.splits)

subsection \<open>A transaction alone\<close>

lemma act_all_append:
  "act_all x s (acs @ bcs) v = (case act_all x s acs v of None \<Rightarrow> None | Some w \<Rightarrow> act_all x s bcs w)"
  by (induction acs arbitrary: v) (auto split: option.splits)

lemma set_txn_twice [simp]: "set_txn i b (set_txn i a v) = set_txn i b v"
  by (simp add: set_txn_def)

lemma set_txn_same: "txns v i = Some a \<Longrightarrow> set_txn i a v = v"
  by (simp add: set_txn_def fun_upd_idem)

definition alone :: "server \<Rightarrow> nat \<Rightarrow> bool" where
  "alone v i \<longleftrightarrow> (\<forall>j. j \<noteq> i \<longrightarrow> active v j = None)"

lemma alone_free [simp]: "alone v i \<Longrightarrow> free v i r"
  by (simp add: alone_def free_iff)

lemma alone_set [simp]: "alone (set_txn i a v) i = alone v i"
  by (simp add: alone_def)

text \<open>The rows of an update of many, one after the other.\<close>

lemma write_rows:
  assumes "active v i = Some a" and "tx_scan a = Some ts" and "\<And>t. t \<in> set ts \<Longrightarrow> free v i (TokenRow t)"
  shows "act_all x s (map (WriteRow i) ts) v =
    Some (set_txn i (a\<lparr>tx_writes := tx_writes a @ map Revoked ts, tx_scan := Some []\<rparr>) v)"
  using assms
proof (induction ts arbitrary: v a)
  case Nil
  then show ?case by (simp add: active_iff set_txn_same)
next
  case (Cons t ts)
  let ?a = "a\<lparr>tx_writes := tx_writes a @ [Revoked t], tx_scan := Some ts\<rparr>"
  have one: "act x s (WriteRow i t) v = Some (set_txn i ?a v)" using Cons.prems by simp
  have "free (set_txn i ?a v) i r = free v i r" for r by (auto simp: free_iff)
  with Cons.IH [of "set_txn i ?a v" ?a] Cons.prems one show ?case by (simp add: active_iff)
qed

lemma apply_revoked:
  "apply_writes (ws @ map Revoked ts) d = (apply_writes ws d)
     \<lparr>refresh_tokens := map (\<lambda>k. if rt_token k \<in> set ts then revoke_row k else k) (refresh_tokens (apply_writes ws d))\<rparr>"
proof (induction ts rule: rev_induct)
  case (snoc t ts)
  have "(if rt_token (if rt_token k \<in> set ts then revoke_row k else k) = t
          then revoke_row (if rt_token k \<in> set ts then revoke_row k else k)
          else if rt_token k \<in> set ts then revoke_row k else k)
      = (if rt_token k \<in> set (ts @ [t]) then revoke_row k else k)" for k
    by (simp add: revoke_row_def)
  with snoc show ?case
    using apply_writes_simps(2) [of "ws @ map Revoked ts" "Revoked t" d] by (simp add: revoke_token_def o_def)
qed simp

lemma revoked_user_tokens:
  assumes "distinct (map rt_token (refresh_tokens d))"
  shows "snd (revoke_user_tokens u d) = d\<lparr>refresh_tokens := map (\<lambda>k.
    if rt_token k \<in> set (map rt_token (filter (\<lambda>k. rt_user_id k = u) (refresh_tokens d)))
    then revoke_row k else k) (refresh_tokens d)\<rparr>"
proof -
  have "rt_token k \<in> set (map rt_token (filter (\<lambda>k. rt_user_id k = u) (refresh_tokens d))) \<longleftrightarrow> rt_user_id k = u"
    if "k \<in> set (refresh_tokens d)" for k
    using that distinct_map_key_unique [OF assms] by auto
  then show ?thesis by (simp add: revoke_user_tokens_def cong: map_cong)
qed

lemma consumed_effect:
  assumes "distinct (map rt_token (refresh_tokens d))"
  shows "snd (consume_token now t d) =
    (case fst (consume_token now t d) of Inl e \<Rightarrow> d | Inr row \<Rightarrow> apply_write (Consumed t) d)"
proof (cases "live_token now t d")
  case None
  then have "find (consumable now t) (refresh_tokens d) = None" using find_consumable [OF assms] by simp
  then have "map (\<lambda>k. if consumable now t k then revoke_row k else k) (refresh_tokens d) = refresh_tokens d"
    by (auto simp: find_None_iff intro!: map_idI)
  with None consume_token_eq [OF assms] show ?thesis by (simp add: one_row_def consume_token_def)
next
  case (Some k)
  from live_tokenD [OF this] find_tokenD
  have "consumable now t l \<longleftrightarrow> rt_token l = t" if "l \<in> set (refresh_tokens d)" for l
    using that distinct_map_key_unique [OF assms] by (metis consumable_def)
  then have "map (\<lambda>k. if consumable now t k then revoke_row k else k) (refresh_tokens d)
      = map (\<lambda>k. if rt_token k = t then revoke_row k else k) (refresh_tokens d)" by simp
  with Some consume_token_eq [OF assms] show ?thesis by (simp add: one_row_def consume_token_def revoke_token_def)
qed

lemma no_user_rows: "find_user i d = None \<Longrightarrow> map (bump_row now i) (users d) = users d"
  "find_user i d = None \<Longrightarrow> map (password_row now i h) (users d) = users d"
  by (auto simp: find_user_def find_None_iff bump_row_def password_row_def intro!: map_idI)

lemma insert_fails:
  "fst (insert_user x now i email hash name d) = Inl e \<Longrightarrow> snd (insert_user x now i email hash name d) = d"
  "fst (insert_org now i name d) = Inl e \<Longrightarrow> snd (insert_org now i name d) = d"
  "fst (insert_membership now i u r role d) = Inl e \<Longrightarrow> snd (insert_membership now i u r role d) = d"
  "fst (insert_token now t u r expires d) = Inl e \<Longrightarrow> snd (insert_token now t u r expires d) = d"
  by (auto simp: insert_user_def insert_org_def insert_membership_def insert_token_def Let_def split: if_splits)

lemma statement_effect:
  assumes "statement x ok now d b = Some (ws, b')" and "distinct (map rt_token (refresh_tokens d))"
  shows "run_body x now b d = run_body x now b' (apply_writes ws d)"
  using assms consumed_effect [OF assms(2)]
  by (cases b) (auto simp: apply_writes_def insert_fails insert_effects increment_version_def update_password_def
      no_user_rows split: sum.splits if_splits)

text \<open>Alone, a transaction reaches the end that running its body at once gives.\<close>

definition reaches_end :: "ext \<Rightarrow> service \<Rightarrow> server \<Rightarrow> nat \<Rightarrow> txn \<Rightarrow> bool" where
  "reaches_end x s v i a \<longleftrightarrow> (\<exists>acs ws. act_all x s acs v = Some (set_txn i (a\<lparr>tx_writes := ws,
        tx_body := Done (fst (run_body x (tx_now a) (tx_body a) (view v a)))\<rparr>) v)
    \<and> apply_writes ws (committed v) = snd (run_body x (tx_now a) (tx_body a) (view v a)))"

lemma reaches_end_step:
  assumes "act_all x s acs v = Some (set_txn i (a\<lparr>tx_writes := ws, tx_body := b\<rparr>) v)"
    and "run_body x (tx_now a) (tx_body a) (view v a) = run_body x (tx_now a) b (apply_writes ws (committed v))"
    and "reaches_end x s (set_txn i (a\<lparr>tx_writes := ws, tx_body := b\<rparr>) v) i (a\<lparr>tx_writes := ws, tx_body := b\<rparr>)"
  shows "reaches_end x s v i a"
proof -
  have now: "view v (a\<lparr>tx_writes := ws, tx_body := b\<rparr>) = apply_writes ws (committed v)" by (simp add: view_def)
  from assms(3) obtain bcs vs where
    "act_all x s bcs (set_txn i (a\<lparr>tx_writes := ws, tx_body := b\<rparr>) v) = Some (set_txn i (a\<lparr>tx_writes := vs,
        tx_body := Done (fst (run_body x (tx_now a) (tx_body a) (view v a)))\<rparr>) v)"
    and "apply_writes vs (committed v) = snd (run_body x (tx_now a) (tx_body a) (view v a))"
    by (auto simp: reaches_end_def assms(2) now)
  then show ?thesis
    unfolding reaches_end_def using assms(1) by (intro exI [of _ "acs @ bcs"] exI [of _ vs]) (simp add: act_all_append)
qed

text \<open>The bodies that may follow a statement.\<close>

fun next_bodies :: "script \<Rightarrow> script set" where
  "next_bodies (Done r) = {}"
| "next_bodies (Consume t k) = range k"
| "next_bodies (ReadUser i k) = range k"
| "next_bodies (ReadMembership u i k) = range k"
| "next_bodies (InsertToken t u i e k) = range k"
| "next_bodies (BumpVersion i k) = range k"
| "next_bodies (StorePassword i h k) = range k"
| "next_bodies (RevokeAll u k) = range k"
| "next_bodies (InsertUser i e h n k) = range k"
| "next_bodies (InsertOrg i n k) = range k"
| "next_bodies (InsertMembership i u j role k) = range k"

lemma statement_total:
  assumes "\<And>r. ok r" and "\<not> is_done b" and "\<And>u k. b \<noteq> RevokeAll u k"
  shows "\<exists>ws b'. statement x ok now d b = Some (ws, b') \<and> b' \<in> next_bodies b"
  using assms by (cases b) (auto simp: is_done_def list_ex_iff split: sum.splits)

lemma writes_fit_revokes: "writes_fit x ws d \<Longrightarrow> writes_fit x (ws @ map Revoked ts) d"
proof (induction ts rule: rev_induct)
  case (snoc t ts)
  with writes_fit_revoke [of x "ws @ map Revoked ts" d t] show ?case by simp
qed simp

lemma alone_step:
  assumes ok: "db_ok x (committed v)" and al: "alone v i" and act: "active v i = Some a"
    and sc: "tx_scan a = None" and fit: "writes_fit x (tx_writes a) (committed v)" and nd: "\<not> is_done (tx_body a)"
  shows "\<exists>acs ws b. act_all x s acs v = Some (set_txn i (a\<lparr>tx_writes := ws, tx_body := b\<rparr>) v)
    \<and> run_body x (tx_now a) (tx_body a) (view v a) = run_body x (tx_now a) b (apply_writes ws (committed v))
    \<and> b \<in> next_bodies (tx_body a) \<and> writes_fit x ws (committed v)"
proof -
  have dist: "distinct (map rt_token (refresh_tokens (view v a)))"
    using tokens_distinct [OF writes_fit_ok [OF fit]] by (simp add: view_def)
  show ?thesis
  proof (cases "\<exists>u k. tx_body a = RevokeAll u k")
    case True
    then obtain u k where body: "tx_body a = RevokeAll u k" by blast
    define ts where "ts = map rt_token (filter (\<lambda>k. rt_user_id k = u) (refresh_tokens (view v a)))"
    let ?b = "a\<lparr>tx_scan := Some ts\<rparr>" and ?ws = "tx_writes a @ map Revoked ts"
    have "act_all x s (map (WriteRow i) ts) (set_txn i ?b v) =
        Some (set_txn i (?b\<lparr>tx_writes := ?ws, tx_scan := Some []\<rparr>) v)"
      using write_rows [of "set_txn i ?b v" i ?b ts x s] act al by (simp add: active_iff)
    moreover have "act x s (Scan i) v = Some (set_txn i ?b v)" using act sc body by (simp add: ts_def)
    moreover have "act x s (EndScan i) (set_txn i (?b\<lparr>tx_writes := ?ws, tx_scan := Some []\<rparr>) v) =
        Some (set_txn i (a\<lparr>tx_writes := ?ws, tx_body := k (Inr ())\<rparr>) v)"
      using act sc body by (cases a) (simp add: active_iff)
    ultimately have "act_all x s (Scan i # map (WriteRow i) ts @ [EndScan i]) v =
        Some (set_txn i (a\<lparr>tx_writes := ?ws, tx_body := k (Inr ())\<rparr>) v)"
      by (simp add: act_all_append)
    moreover have "apply_writes ?ws (committed v) = snd (revoke_user_tokens u (view v a))"
      using revoked_user_tokens [OF dist, of u] unfolding ts_def apply_revoked by (simp add: view_def)
    moreover have "fst (revoke_user_tokens u (view v a)) = Inr ()" by (simp add: revoke_user_tokens_def)
    ultimately show ?thesis using body writes_fit_revokes [OF fit]
      by (intro exI [of _ "Scan i # map (WriteRow i) ts @ [EndScan i]"] exI [of _ ?ws]
          exI [of _ "k (Inr ())"] conjI) simp_all
  next
    case False
    then obtain ws b where st: "statement x (free v i) (tx_now a) (view v a) (tx_body a) = Some (ws, b)"
      and nb: "b \<in> next_bodies (tx_body a)"
      using statement_total [of "free v i" "tx_body a" x "tx_now a" "view v a"] al nd by auto
    have "act_all x s [Statement i] v = Some (set_txn i (a\<lparr>tx_writes := tx_writes a @ ws, tx_body := b\<rparr>) v)"
      using act sc st by simp
    with statement_effect [OF st dist] nb statement_fits [OF st [unfolded view_def] fit] show ?thesis
      by (intro exI [of _ "[Statement i]"] exI [of _ "tx_writes a @ ws"] exI [of _ b] conjI)
         (simp_all add: view_def apply_writes_append)
  qed
qed

lemma alone_reaches_end:
  assumes "db_ok x (committed v)" and "alone v i" and "active v i = Some a" and "tx_scan a = None"
    and "writes_fit x (tx_writes a) (committed v)" and "tx_body a = b"
  shows "reaches_end x s v i a"
proof -
  have stop: "reaches_end x s v i a" if "active v i = Some a" "tx_body a = Done r" for v :: server and a r
  proof -
    from that have "act_all x s [] v = Some (set_txn i (a\<lparr>tx_writes := tx_writes a, tx_body := Done r\<rparr>) v)"
      by (simp add: active_iff set_txn_same)
    with that(2) show ?thesis unfolding reaches_end_def
      by (intro exI [of _ "[]"] exI [of _ "tx_writes a"]) (simp add: view_def)
  qed
  have step: "reaches_end x s v i a"
    if ih: "\<And>c (w :: server) a. c \<in> next_bodies b \<Longrightarrow> db_ok x (committed w) \<Longrightarrow> alone w i \<Longrightarrow> active w i = Some a
        \<Longrightarrow> tx_scan a = None \<Longrightarrow> writes_fit x (tx_writes a) (committed w) \<Longrightarrow> tx_body a = c \<Longrightarrow> reaches_end x s w i a"
      and p: "db_ok x (committed v)" "alone v i" "active v i = Some a" "tx_scan a = None"
        "writes_fit x (tx_writes a) (committed v)" "tx_body a = b" "\<not> is_done b" for v :: server and a b
  proof -
    from alone_step [OF p(1-5)] p(6,7) obtain acs ws c where c:
      "act_all x s acs v = Some (set_txn i (a\<lparr>tx_writes := ws, tx_body := c\<rparr>) v)"
      "run_body x (tx_now a) (tx_body a) (view v a) = run_body x (tx_now a) c (apply_writes ws (committed v))"
      "c \<in> next_bodies b" "writes_fit x ws (committed v)" by blast
    show ?thesis
      by (rule reaches_end_step [OF c(1,2)], rule ih [OF c(3)]) (use p c in \<open>auto simp: active_iff\<close>)
  qed
  show ?thesis using assms
  proof (induction b arbitrary: a v)
    case (Done r)
    then show ?case by (intro stop)
  next
    case (Consume t k)
    show ?case by (rule step [OF _ Consume.prems]) (auto simp: is_done_def intro: Consume.IH)
  next
    case (ReadUser j k)
    show ?case by (rule step [OF _ ReadUser.prems]) (auto simp: is_done_def intro: ReadUser.IH)
  next
    case (ReadMembership u j k)
    show ?case by (rule step [OF _ ReadMembership.prems]) (auto simp: is_done_def intro: ReadMembership.IH)
  next
    case (InsertToken t u j e k)
    show ?case by (rule step [OF _ InsertToken.prems]) (auto simp: is_done_def intro: InsertToken.IH)
  next
    case (BumpVersion j k)
    show ?case by (rule step [OF _ BumpVersion.prems]) (auto simp: is_done_def intro: BumpVersion.IH)
  next
    case (StorePassword j h k)
    show ?case by (rule step [OF _ StorePassword.prems]) (auto simp: is_done_def intro: StorePassword.IH)
  next
    case (RevokeAll u k)
    show ?case by (rule step [OF _ RevokeAll.prems]) (auto simp: is_done_def intro: RevokeAll.IH)
  next
    case (InsertUser j e h n k)
    show ?case by (rule step [OF _ InsertUser.prems]) (auto simp: is_done_def intro: InsertUser.IH)
  next
    case (InsertOrg j n k)
    show ?case by (rule step [OF _ InsertOrg.prems]) (auto simp: is_done_def intro: InsertOrg.IH)
  next
    case (InsertMembership j u r role k)
    show ?case by (rule step [OF _ InsertMembership.prems]) (auto simp: is_done_def intro: InsertMembership.IH)
  qed
qed

end
