(* ===== verification/ConcurrentEnd.thy ===== *)
theory ConcurrentEnd
  imports ConcurrentSerial
begin

text \<open>
  That transactions end. Every step but the start of a transaction makes a pair of measures
  smaller: the statements left, and the rows left of updates under way (\<open>work_falls\<close>). Where
  nothing can deadlock this stays so while the transactions run (\<open>tidy\<close>), so that they can
  only stop when all have ended.
\<close>

subsection \<open>Statements left\<close>

text \<open>\<open>within b n\<close>: the body sends at most \<open>n\<close> statements.\<close>

primrec within :: "script \<Rightarrow> nat \<Rightarrow> bool" where
  "within (Done r) = (\<lambda>n. True)"
| "within (Consume t k) = (\<lambda>n. 0 < n \<and> (\<forall>r. within (k r) (n - 1)))"
| "within (ReadUser i k) = (\<lambda>n. 0 < n \<and> (\<forall>r. within (k r) (n - 1)))"
| "within (ReadMembership u i k) = (\<lambda>n. 0 < n \<and> (\<forall>r. within (k r) (n - 1)))"
| "within (InsertToken t u i e k) = (\<lambda>n. 0 < n \<and> (\<forall>r. within (k r) (n - 1)))"
| "within (BumpVersion i k) = (\<lambda>n. 0 < n \<and> (\<forall>r. within (k r) (n - 1)))"
| "within (StorePassword i h k) = (\<lambda>n. 0 < n \<and> (\<forall>r. within (k r) (n - 1)))"
| "within (RevokeAll u k) = (\<lambda>n. 0 < n \<and> (\<forall>r. within (k r) (n - 1)))"
| "within (InsertUser i e h m k) = (\<lambda>n. 0 < n \<and> (\<forall>r. within (k r) (n - 1)))"
| "within (InsertOrg i m k) = (\<lambda>n. 0 < n \<and> (\<forall>r. within (k r) (n - 1)))"
| "within (InsertMembership i u j role k) = (\<lambda>n. 0 < n \<and> (\<forall>r. within (k r) (n - 1)))"

lemma within_body: "within (body_of x s job) 4"
proof (cases job)
  case (RegisterJob email hash name ids)
  then show ?thesis by (cases ids) (auto simp: register_body_def proceed_def split: sum.splits)
qed (auto simp: refresh_body_def logout_body_def set_password_body_def issue_body_def proceed_def split: sum.splits)

lemma within_next: "b' \<in> next_bodies b \<Longrightarrow> within b n \<Longrightarrow> 0 < n \<and> within b' (n - 1)"
  by (cases b) auto

definition depth :: "script \<Rightarrow> nat" where
  "depth b = (LEAST n. within b n)"

lemma depth_next:
  assumes "b' \<in> next_bodies b" and "within b n"
  shows "depth b' < depth b"
proof -
  have "within b (depth b)" unfolding depth_def by (rule LeastI [where P = "within b" and k = n, OF assms(2)])
  from within_next [OF assms(1) this] have "0 < depth b" "depth b' \<le> depth b - 1"
    by (auto simp: depth_def [of b'] intro: Least_le)
  then show ?thesis by linarith
qed

lemma statement_next: "statement x ok now d b = Some (ws, b') \<Longrightarrow> b' \<in> next_bodies b"
  by (cases b) (auto split: sum.splits if_splits)

definition bounded :: "server \<Rightarrow> bool" where
  "bounded v \<longleftrightarrow> finite {i. active v i \<noteq> None} \<and> (\<forall>i a. active v i = Some a \<longrightarrow> (\<exists>n. within (tx_body a) n))"

lemma active_indexes:
  "{j. active (set_txn i a v) j \<noteq> None} =
     (if tx_status a = Active then insert i {j. active v j \<noteq> None} else {j. active v j \<noteq> None} - {i})"
  by auto

lemma advance_within: "advance x v i a a' \<Longrightarrow> within (tx_body a) n \<Longrightarrow> \<exists>m. within (tx_body a') m"
  by (induction rule: advance.induct) (auto dest!: statement_next dest: within_next)

interpretation bounded: server_invariant x s bounded for x s
proof
  fix v i now job
  assume "bounded v"
  then show "bounded (set_txn i (started_txn x s now job) v)"
    unfolding bounded_def active_indexes by (auto intro: exI [of _ 4] within_body)
next
  fix v i a a'
  assume b: "bounded v" and a: "active v i = Some a" "advance x v i a a'"
  from b a have "\<exists>n. within (tx_body a') n" unfolding bounded_def by (blast dest: advance_within)
  with b show "bounded (set_txn i a' v)"
    unfolding bounded_def active_indexes by auto
next
  fix v i a c
  assume "bounded v"
  then show "bounded (set_txn i (a\<lparr>tx_status := Committed c\<rparr>) v\<lparr>committed := view v a\<rparr>)"
    unfolding bounded_def active_set(2) active_indexes by auto
next
  fix v i a e
  assume "bounded v"
  then show "bounded (set_txn i (a\<lparr>tx_status := Aborted e\<rparr>) v)"
    unfolding bounded_def active_indexes by auto
qed

lemma idle_bounded: "bounded (idle d)"
  by (simp add: bounded_def idle_def active_def)

subsection \<open>The measures\<close>

definition turns :: "txn option \<Rightarrow> nat" where
  "turns q = (case q of None \<Rightarrow> 0 | Some a \<Rightarrow> 2 * depth (tx_body a) + (if tx_scan a = None then 2 else 1))"

definition rows_left :: "txn option \<Rightarrow> nat" where
  "rows_left q = (case q of None \<Rightarrow> 0 | Some a \<Rightarrow> length (case tx_scan a of None \<Rightarrow> [] | Some ts \<Rightarrow> ts))"

definition work :: "server \<Rightarrow> nat \<times> nat" where
  "work v = (\<Sum>i \<in> {i. active v i \<noteq> None}. turns (active v i), \<Sum>i \<in> {i. active v i \<noteq> None}. rows_left (active v i))"

lemma advance_falls:
  assumes "advance x v i a a'" and "within (tx_body a) n"
  shows "(turns (Some a'), turns (Some a)) \<in> less_than
    \<or> turns (Some a') = turns (Some a) \<and> rows_left (Some a') < rows_left (Some a)"
  using assms(1)
proof cases
  case (statement ws b)
  with depth_next [OF statement_next assms(2)] show ?thesis by (auto simp: turns_def)
next
  case (write_row ts t)
  then have "length (remove1 t ts) < length ts"
    using length_pos_if_in_set [of t ts] by (simp add: length_remove1)
  with write_row show ?thesis by (simp add: turns_def rows_left_def)
next
  case (end_scan u k)
  have "depth (k (Inr ())) < depth (tx_body a)" by (rule depth_next [OF _ assms(2)]) (simp add: end_scan)
  with end_scan show ?thesis by (simp add: turns_def)
qed (auto simp: turns_def)

lemma sum_apart:
  fixes g :: "nat \<Rightarrow> nat"
  assumes "finite A" and "i \<in> A"
  shows "sum g A = g i + sum g (A - {i})"
  using assms by (rule sum.remove)

lemma work_at:
  assumes "bounded v" and "active v i = Some a" and "\<And>j. j \<noteq> i \<Longrightarrow> active w j = active v j"
  shows "\<exists>m n. work v = (turns (Some a) + m, rows_left (Some a) + n)
    \<and> work w = (turns (active w i) + m, rows_left (active w i) + n)"
proof -
  let ?A = "{j. active v j \<noteq> None}" and ?B = "{j. active w j \<noteq> None}"
  have rest: "?B - {i} = ?A - {i}" using assms(3) by auto
  have fin: "finite ?A" using assms(1) by (simp add: bounded_def)
  then have "finite (?B - {i})" unfolding rest by simp
  then have finB: "finite ?B" by simp
  have same: "(\<Sum>j \<in> ?B - {i}. g (active w j)) = (\<Sum>j \<in> ?A - {i}. g (active v j))" for g :: "txn option \<Rightarrow> nat"
    unfolding rest by (rule sum.cong) (auto simp: assms(3))
  have "(\<Sum>j \<in> ?A. g (active v j)) = g (Some a) + (\<Sum>j \<in> ?A - {i}. g (active v j))" for g :: "txn option \<Rightarrow> nat"
    using sum_apart [OF fin, of i "\<lambda>j. g (active v j)"] assms(2) by simp
  moreover have "(\<Sum>j \<in> ?B. g (active w j)) = g (active w i) + (\<Sum>j \<in> ?A - {i}. g (active v j))"
    if "g None = 0" for g :: "txn option \<Rightarrow> nat"
  proof (cases "active w i = None")
    case True
    then have "?B = ?B - {i}" by auto
    with same [of g] True that show ?thesis by simp
  next
    case False
    with sum_apart [OF finB, of i "\<lambda>j. g (active w j)"] same [of g] show ?thesis by simp
  qed
  ultimately show ?thesis unfolding work_def
    by (intro exI [of _ "\<Sum>j \<in> ?A - {i}. turns (active v j)"] exI [of _ "\<Sum>j \<in> ?A - {i}. rows_left (active v j)"])
       (simp add: turns_def [of None] rows_left_def [of None])
qed

lemma work_falls:
  assumes "bounded v" and "act x s ac v = Some w" and "\<And>i now job. ac \<noteq> Begin i now job"
  shows "(work w, work v) \<in> less_than <*lex*> less_than"
proof -
  have ended: "(work w, work v) \<in> less_than <*lex*> less_than"
    if "active v i = Some a" "\<And>j. active w j = (if j = i then None else active v j)" for i a
    using work_at [OF assms(1) that(1), of w] that(2) by (auto simp: turns_def)
  show ?thesis using assms(2)
  proof (cases rule: act_cases)
    case (advance i a a')
    then obtain n where "within (tx_body a) n" using assms(1) by (auto simp: bounded_def)
    note falls = advance_falls [OF advance(2) this]
    have "active w j = active v j" if "j \<noteq> i" for j using that by (simp add: advance(3))
    from work_at [OF assms(1) advance(1) this] obtain m n where
      "work v = (turns (Some a) + m, rows_left (Some a) + n)"
      "work w = (turns (active w i) + m, rows_left (active w i) + n)" by blast
    moreover have "active w i = Some a'"
      using advance advance_frame [OF advance(2)] by (simp add: active_iff)
    ultimately show ?thesis using falls by auto
  next
    case (commit i a c)
    then show ?thesis by (intro ended [OF commit(1)]) simp
  next
    case (abort i a e)
    then show ?thesis by (intro ended [OF abort(1)]) simp
  qed (use assms(3) in blast)
qed

text \<open>So there is no infinite run without new transactions.\<close>

lemma no_infinite_run:
  assumes "bounded (f 0)"
    and "\<And>n. \<exists>ac. (\<forall>i now job. ac \<noteq> Begin i now job) \<and> act x s ac (f n) = Some (f (Suc n))"
  shows False
proof -
  have ok: "bounded (f n)" for n
  proof (induction n)
    case (Suc n)
    with assms(2) [of n] bounded.act_keeps show ?case by blast
  qed (rule assms(1))
  have "(f (Suc n), f n) \<in> inv_image (less_than <*lex*> less_than) work" for n
    using assms(2) [of n] work_falls [OF ok] by (auto simp: in_inv_image)
  moreover have "wf (inv_image (less_than <*lex*> less_than) work)" by (intro wf_inv_image wf_lex_prod wf_less_than)
  ultimately show False using wf_iff_no_infinite_down_chain by blast
qed

subsection \<open>Transactions that cannot deadlock\<close>

definition tidy :: "ext \<Rightarrow> uuid set \<Rightarrow> server \<Rightarrow> bool" where
  "tidy x U v \<longleftrightarrow> quiet_server x U v
     \<and> (\<forall>i j a b. i \<noteq> j \<longrightarrow> active v i = Some a \<longrightarrow> active v j = Some b
          \<longrightarrow> new_tokens x (tx_job a) \<inter> new_tokens x (tx_job b) = {})"

lemma added_new_tokens:
  assumes "quiet_server x U v" and "active v i = Some a" and "Added k \<in> set (tx_writes a)"
  shows "rt_token k \<in> new_tokens x (tx_job a)"
  using assms(1,2)
proof (cases rule: quiet_cases)
  case insert
  with assms(3) show ?thesis by (auto simp: insert_shape_def)
next
  case (password u h)
  with assms(3) have "user_write_of u (committed v) (Added k)" by (auto simp: password_shape_def)
  then show ?thesis by (simp add: user_write_of_def)
next
  case register
  with assms(3) show ?thesis by (force simp: register_shape_def)
qed

lemma progress_active:
  assumes "act x s ac v = Some w" and "progress ac" and "active w j = Some b"
  shows "\<exists>a. active v j = Some a \<and> tx_job a = tx_job b"
  using assms(1)
proof (cases rule: act_cases)
  case (advance i a a')
  with assms(3) advance_frame [OF advance(2)] show ?thesis by (auto split: if_splits)
qed (use assms in \<open>auto split: if_splits\<close>)

lemma progress_tokens:
  assumes "tidy x U v" and "act x s ac v = Some w" and "progress ac"
    and "active w j = Some b" and "t \<in> new_tokens x (tx_job b)"
  shows "find_token t (committed w) = None"
proof -
  from progress_active [OF assms(2-4)] assms(5) obtain e where
    e: "active v j = Some e" "tx_job e = tx_job b" "t \<in> new_tokens x (tx_job e)" by auto
  have q: "quiet_server x U v" using assms(1) by (simp add: tidy_def)
  with e have none: "find_token t (committed v) = None" by (auto simp: quiet_server_def)
  from assms(2) show ?thesis
  proof (cases rule: act_cases)
    case (commit i a c)
    then have "j \<noteq> i" using assms(4) by auto
    with assms(1) e(1,3) commit(1) have "t \<notin> new_tokens x (tx_job a)" unfolding tidy_def by blast
    then have "t \<notin> rt_token ` set (added_rows (tx_writes a))"
      using added_new_tokens [OF q commit(1)] unfolding added_keys by auto
    with none commit(3) show ?thesis by (simp add: view_def view_keys)
  qed (use none assms(3) in auto)
qed

lemma tidy_step:
  assumes "tidy x U v" and "act x s ac v = Some w" and "progress ac"
  shows "tidy x U w"
proof -
  have q: "quiet_server x U v" using assms(1) by (simp add: tidy_def)
  then have "claimed_once x w" "shaped x U w"
    using claimed_once.act_keeps [OF _ assms(2)] shaped.act_keeps [OF _ assms(2)] by (auto simp: quiet_server_def)
  moreover have "\<forall>j b t. active w j = Some b \<longrightarrow> tx_job b \<noteq> LogoutJob t"
    using q progress_active [OF assms(2,3)] unfolding quiet_server_def by metis
  moreover have "\<forall>j b u h. active w j = Some b \<longrightarrow> tx_job b = PasswordJob u h \<longrightarrow> u \<in> U"
    using q progress_active [OF assms(2,3)] unfolding quiet_server_def by metis
  ultimately have "quiet_server x U w"
    using progress_tokens [OF assms] by (simp add: quiet_server_def)
  moreover have "new_tokens x (tx_job a) \<inter> new_tokens x (tx_job b) = {}"
    if "i \<noteq> j" "active w i = Some a" "active w j = Some b" for i j a b
    using assms(1) progress_active [OF assms(2,3) that(2)] progress_active [OF assms(2,3) that(3)] that(1)
    unfolding tidy_def by metis
  ultimately show ?thesis by (simp add: tidy_def)
qed

lemma tidy_run:
  "act_all x s acs v = Some w \<Longrightarrow> list_all progress acs \<Longrightarrow> tidy x U v \<Longrightarrow> tidy x U w"
  by (induction acs arbitrary: v) (auto split: option.splits intro: tidy_step)

lemma tidy_stuck:
  assumes "tidy x U w" and "\<And>ac. progress ac \<Longrightarrow> act x s ac w = None"
  shows "active w i = None"
proof (rule ccontr)
  assume "active w i \<noteq> None"
  then obtain a where a: "active w i = Some a" by blast
  from assms(1) have q: "quiet_server x U w" by (simp add: tidy_def)
  from quiet_goes [OF q a, where s = s] assms(2) show False by (auto simp: goes_def)
qed

end
