(* ===== verification/ConcurrentTheorems.thy ===== *)
theory ConcurrentTheorems
  imports ConcurrentEnd Sample
begin

text \<open>
  What holds of transactions that run at the same time, and two runs in which they get in each
  other's way: a deadlock of a logout and a password change, and a refresh that outlives a
  password change.
\<close>

subsection \<open>A transaction alone\<close>

text \<open>Started alone on the server, the transaction can end with the given result and tables.\<close>

definition ends_as :: "ext \<Rightarrow> service \<Rightarrow> server \<Rightarrow> nat \<Rightarrow> time \<Rightarrow> job \<Rightarrow> err + result \<Rightarrow> database \<Rightarrow> bool" where
  "ends_as x s v i now job r d \<longleftrightarrow> (\<exists>acs w a. act_all x s (Begin i now job # acs) v = Some w
     \<and> committed w = d \<and> txns w i = Some a
     \<and> tx_status a = (case r of Inl e \<Rightarrow> Aborted e | Inr c \<Rightarrow> Committed c))"

lemma ends_as_run:
  assumes "db_ok x (committed v)" and "\<And>j. active v j = None" and "txns v i = None"
  shows "ends_as x s v i now job (fst (run_body x now (body_of x s job) (committed v)))
    (case fst (run_body x now (body_of x s job) (committed v)) of
       Inl e \<Rightarrow> committed v | Inr c \<Rightarrow> snd (run_body x now (body_of x s job) (committed v)))"
proof -
  let ?a = "started_txn x s now job" and ?w = "set_txn i (started_txn x s now job) v"
  let ?r = "run_body x now (body_of x s job) (committed v)"
  have view: "view v ?a = committed v" by (simp add: view_def)
  have "reaches_end x s ?w i ?a"
    by (rule alone_reaches_end) (use assms in \<open>auto simp: alone_def writes_fit_nil\<close>)
  then obtain acs ws where run: "act_all x s acs ?w = Some (set_txn i (?a\<lparr>tx_writes := ws, tx_body := Done (fst ?r)\<rparr>) v)"
    and eff: "apply_writes ws (committed v) = snd ?r"
    by (auto simp: reaches_end_def view)
  have fst_act: "act x s (Begin i now job) v = Some ?w" using assms(3) by (simp add: started_txn_def)
  let ?b = "?a\<lparr>tx_writes := ws, tx_body := Done (fst ?r)\<rparr>"
  have "act_all x s (Begin i now job # acs @ [Finish i]) v = Some (finish_txn i ?b (fst ?r) (set_txn i ?b v))"
    using fst_act run by (simp add: act_all_append)
  with eff show ?thesis unfolding ends_as_def
    by (intro exI [of _ "acs @ [Finish i]"] exI [of _ "finish_txn i ?b (fst ?r) (set_txn i ?b v)"])
       (simp add: finish_txn_def view_def split: sum.splits)
qed

lemma WithTx_run:
  assumes "healthy w"
    and "map_sum id f (fst (fn (next_fault w))) = fst (run_body x (db_now (next_fault w)) b (db (next_fault w)))
      \<and> db (snd (fn (next_fault w))) = snd (run_body x (db_now (next_fault w)) b (db (next_fault w)))
      \<and> healthy (snd (fn (next_fault w)))"
  shows "map_sum id f (fst (WithTxQueries fn w)) = fst (run_body x (db_now w) b (db w))
    \<and> db (snd (WithTxQueries fn w)) = (case fst (run_body x (db_now w) b (db w)) of
       Inl e \<Rightarrow> db w | Inr c \<Rightarrow> snd (run_body x (db_now w) b (db w)))"
  using assms(2) WithTx_healthy [OF assms(1), of fn]
  by (cases "fst (fn (next_fault w))"; cases "fst (run_body x (db_now w) b (db w))")
     (auto simp: WithTxQueries_def split: prod.splits)

text \<open>C13: Transactions that run at the same time are those of the sequential model when they are
  alone: the statements of a logout, a password change, a refresh and a registration, sent one by one, can end as
  the operation of the service does, with its result and its tables.\<close>

theorem transaction_alone:
  assumes "healthy w" and "db_ok x (db w)" and "rand_src w (rand_pos w) = Some b"
    and "committed v = db w" and "\<And>j. active v j = None" and "txns v i = None"
  shows "ends_as x s v i (db_now w) (LogoutJob t)
      (map_sum id (\<lambda>_. Finished) (fst (Logout x t w))) (db (snd (Logout x t w)))
    \<and> ends_as x s v i (db_now w) (PasswordJob u h)
      (map_sum id (\<lambda>_. Finished) (fst (WithTxQueries (set_password_tx u h) w)))
      (db (snd (WithTxQueries (set_password_tx u h) w)))
    \<and> ends_as x s v i (db_now w) (RefreshJob t (Inr (hex_encode b)) (app_now w))
      (map_sum id (\<lambda>(u, n, m). Rotated u n m) (fst (WithTxQueries (refresh_tx x s t) w)))
      (db (snd (WithTxQueries (refresh_tx x s t) w)))
    \<and> ends_as x s v i (db_now w) (RegisterJob email hash name (next_uuids w))
      (map_sum id (\<lambda>(u, r). Registered u r) (fst (WithTxQueries (register_tx x email hash name) w)))
      (db (snd (WithTxQueries (register_tx x email hash name) w)))"
proof -
  have h: "healthy (next_fault w)" using assms(1) by simp
  have "rand_src (next_fault w) (rand_pos (next_fault w)) = Some b" using assms(3) by simp
  note rows = WithTx_run [OF assms(1), of "\<lambda>_. Finished" "logout_tx x t", OF logout_body_run [OF h]]
    WithTx_run [OF assms(1), of "\<lambda>_. Finished" "set_password_tx u h", OF set_password_body_run [OF h]]
    WithTx_run [OF assms(1), of "\<lambda>(u, n, m). Rotated u n m" "refresh_tx x s t", OF refresh_body_run [OF h this]]
    WithTx_run [OF assms(1), of "\<lambda>(u, r). Registered u r" "register_tx x email hash name", OF register_body_run [OF h]]
  have ends: "ends_as x s v i (db_now w) job r d"
    if "r = fst (run_body x (db_now w) (body_of x s job) (db w))
      \<and> d = (case fst (run_body x (db_now w) (body_of x s job) (db w)) of
        Inl e \<Rightarrow> db w | Inr c \<Rightarrow> snd (run_body x (db_now w) (body_of x s job) (db w)))" for job r d
    using ends_as_run [of x v i s "db_now w" job, unfolded assms(4), OF assms(2,5,6)] that by simp
  show ?thesis
    by (intro conjI ends) (simp_all only: body_of.simps Logout_def rows next_uuids_def next_fault_simps simp_thms)
qed


subsection \<open>Two transactions that wait for each other\<close>

definition grows :: "database \<Rightarrow> server \<Rightarrow> bool" where
  "grows d v \<longleftrightarrow> db_le d (committed v)"

interpretation grows: server_invariant x s "grows d" for x s d
  by unfold_locales (auto simp: grows_def view_def intro: db_le_trans apply_writes_le)

lemma act_user:
  assumes "act x s ac v = Some w" and "find_user u (committed v) \<noteq> None"
  shows "find_user u (committed w) \<noteq> None"
proof -
  have le: "grows (committed v) w"
    by (rule grows.act_keeps [OF _ assms(1)]) (simp add: grows_def db_le_refl)
  from assms(2) obtain y where "find_user u (committed v) = Some y" by blast
  with le obtain z where "find_user u (committed w) = Some z" unfolding grows_def db_le_def by blast
  then show ?thesis by simp
qed

text \<open>One has the row of a token and wants the row of the user, the other has that one and wants the first.\<close>

definition deadlocked :: "nat \<Rightarrow> nat \<Rightarrow> server \<Rightarrow> bool" where
  "deadlocked i j v \<longleftrightarrow> i \<noteq> j \<and> (\<exists>a b u t k l ts. active v i = Some a \<and> active v j = Some b
     \<and> tx_scan a = None \<and> tx_body a = BumpVersion u k \<and> find_user u (committed v) \<noteq> None \<and> TokenRow t \<in> row_of ` set (tx_writes a)
     \<and> tx_scan b = Some ts \<and> t \<in> set ts \<and> tx_body b = RevokeAll u l \<and> UserRow u \<in> row_of ` set (tx_writes b))"

lemma deadlocked_stays:
  assumes "deadlocked i j v" and "act x s ac v = Some w" and "ac \<noteq> Fail i" and "ac \<noteq> Fail j"
  shows "deadlocked i j w"
proof -
  from assms(1) obtain a b u t k l ts where ij: "i \<noteq> j" and a: "active v i = Some a" "tx_scan a = None"
      "tx_body a = BumpVersion u k" "TokenRow t \<in> row_of ` set (tx_writes a)" "find_user u (committed v) \<noteq> None"
    and b: "active v j = Some b" "tx_scan b = Some ts" "t \<in> set ts" "tx_body b = RevokeAll u l"
      "UserRow u \<in> row_of ` set (tx_writes b)"
    unfolding deadlocked_def by blast
  have blocked: "\<not> free v i (UserRow u)" "\<not> free v j (TokenRow t)" "find_user u (view v a) \<noteq> None"
    using a b ij by (auto simp: free_iff view_def view_keys)
  have other: "deadlocked i j w" if "active w i = active v i" "active w j = active v j"
    unfolding deadlocked_def using ij a b that act_user [OF assms(2) a(5)] by metis
  show ?thesis
  proof (cases ac)
    case (Begin n now job)
    with assms(2) a b have "w = set_txn n (started_txn x s now job) v" "n \<noteq> i" "n \<noteq> j"
      by (auto simp: started_txn_def active_iff split: if_splits)
    then show ?thesis by (intro other) auto
  next
    case (Statement n)
    with assms(2) a b blocked have "n \<noteq> i \<and> n \<noteq> j" by auto
    with Statement assms(2) show ?thesis by (intro other) (auto split: option.splits if_splits)
  next
    case (Scan n)
    with assms(2) a b have "n \<noteq> i \<and> n \<noteq> j" by auto
    with Scan assms(2) show ?thesis by (intro other) (auto split: option.splits script.splits)
  next
    case (EndScan n)
    with assms(2) a b have "n \<noteq> i \<and> n \<noteq> j" by (auto split: list.splits)
    with EndScan assms(2) show ?thesis
      by (intro other) (auto split: option.splits script.splits list.splits)
  next
    case (Finish n)
    with assms(2) a b have "n \<noteq> i \<and> n \<noteq> j" by auto
    with Finish assms(2) show ?thesis
      by (intro other) (auto simp: finish_txn_def split: option.splits script.splits sum.splits)
  next
    case (Fail n)
    with assms show ?thesis by (intro other) (auto split: option.splits)
  next
    case (WriteRow n r)
    show ?thesis
    proof (cases "n = j")
      case True
      with WriteRow assms(2) b blocked have "r \<noteq> t" "w = set_txn j (b\<lparr>tx_writes := tx_writes b @ [Revoked r],
          tx_scan := Some (remove1 r ts)\<rparr>) v" by (auto split: if_splits)
      with ij a b show ?thesis by (auto simp: deadlocked_def active_iff)
    next
      case False
      with WriteRow assms(2) a have "n \<noteq> i \<and> n \<noteq> j" by auto
      with WriteRow assms(2) show ?thesis by (intro other) (auto split: option.splits if_splits)
    qed
  qed
qed

lemma deadlocked_run:
  assumes "act_all x s acs v = Some w" and "deadlocked i j v" and "Fail i \<notin> set acs" and "Fail j \<notin> set acs"
  shows "deadlocked i j w"
  using assms
proof (induction acs arbitrary: v)
  case (Cons ac acs)
  from Cons.prems(1) obtain u where "act x s ac v = Some u" "act_all x s acs u = Some w"
    by (auto split: option.splits)
  with Cons deadlocked_stays [of i j v x s ac u] show ?case by auto
qed simp

lemma consume_live_row:
  assumes "db_ok x d" and "live_token now t d = Some k"
  shows "fst (consume_token now t d) = Inr (revoke_row k)"
  using consume_token_eq [OF tokens_distinct [OF assms(1)]] assms(2) by (simp add: one_row_def)

lemma bump_left:
  assumes "version_left i d"
  shows "fst (increment_version now i (apply_writes [Stored i now' h] d)) = Inr ()"
proof -
  have "users (apply_writes [Stored i now' h] d) = map (password_row now' i h) (users d)"
    by (simp add: apply_writes_def update_password_def)
  with assms show ?thesis by (force simp: increment_version_def version_left_def list_ex_iff)
qed

text \<open>Two transactions at once.\<close>

definition two :: "database \<Rightarrow> txn \<Rightarrow> txn \<Rightarrow> server" where
  "two d a b = \<lparr>committed = d, txns = [0 \<mapsto> a, 1 \<mapsto> b]\<rparr>"

lemma two_simps [simp]:
  "committed (two d a b) = d" "view (two d a b) c = apply_writes (tx_writes c) d"
  "txns (two d a b) 0 = Some a" "txns (two d a b) (Suc 0) = Some b"
  "set_txn 0 c (two d a b) = two d c b" "set_txn (Suc 0) c (two d a b) = two d a c"
  "two d a b\<lparr>committed := e\<rparr> = two e a b"
  by (auto simp: two_def view_def set_txn_def)

lemma two_active [simp]:
  "active (two d a b) 0 = (if tx_status a = Active then Some a else None)"
  "active (two d a b) (Suc 0) = (if tx_status b = Active then Some b else None)"
  by (simp_all add: active_def)

lemma two_free [simp]:
  "free (two d a b) 0 r \<longleftrightarrow> \<not> holds b r" "free (two d a b) (Suc 0) r \<longleftrightarrow> \<not> holds a r"
  by (auto simp: free_def two_def)

lemma two_begin:
  "act_all x s (Begin 0 now job # Begin 1 now' job' # acs) (idle d) =
    act_all x s acs (two d (started_txn x s now job) (started_txn x s now' job'))"
  by (simp add: idle_def two_def set_txn_def started_txn_def)

subsection \<open>Rows as a transaction sees them\<close>

lemma find_user_view:
  "find_user i (apply_writes ws d) = (case find_user i d of
     Some u \<Rightarrow> Some (fold user_write ws u) | None \<Rightarrow> find (\<lambda>u. us_id u = i) (added_users ws))"
  using row_update.find_upd [of us_id "fold user_write ws" i "users d"]
  by (auto simp: row_update_def find_user_def apply_writes_fields find_append split: option.splits)

lemma find_token_view:
  "find_token t (apply_writes ws d) = (case find_token t d of
     Some k \<Rightarrow> Some (fold token_write ws k) | None \<Rightarrow> find (\<lambda>k. rt_token k = t) (added_rows ws))"
  using row_update.find_upd [of rt_token "fold token_write ws" t "refresh_tokens d"]
  by (auto simp: row_update_def find_token_def apply_writes_fields find_append split: option.splits)

subsection \<open>A refresh and a password change, step by step\<close>

definition consumed_refresh :: "ext \<Rightarrow> service \<Rightarrow> time \<Rightarrow> string \<Rightarrow> string \<Rightarrow> time \<Rightarrow> refresh_token \<Rightarrow> txn" where
  "consumed_refresh x s now0 t n now k = (started_txn x s now0 (RefreshJob t (Inr n) now))
     \<lparr>tx_writes := [Consumed (hashOpaqueToken x t)],
      tx_body := ReadUser (rt_user_id k) (proceed no_rows_is_invalid_token (\<lambda>u.
        ReadMembership (us_id u) (rt_org_id k) (proceed no_rows_is_invalid_token (\<lambda>m.
        InsertToken (hashOpaqueToken x n) (us_id u) (om_org_id m) (now + refreshExpiry s)
          (proceed id (\<lambda>_. Done (Inr (Rotated u n m))))))))\<rparr>"

definition rotated_refresh ::
    "ext \<Rightarrow> service \<Rightarrow> time \<Rightarrow> string \<Rightarrow> string \<Rightarrow> time \<Rightarrow> user \<Rightarrow> org_membership \<Rightarrow> txn" where
  "rotated_refresh x s now0 t n now u m = (started_txn x s now0 (RefreshJob t (Inr n) now))
     \<lparr>tx_writes := [Consumed (hashOpaqueToken x t), Added (new_token_row now0 (hashOpaqueToken x n)
        (us_id u) (om_org_id m) (now + refreshExpiry s))],
      tx_body := Done (Inr (Rotated u n m)), tx_status := Committed (Rotated u n m)\<rparr>"

lemma refresh_first:
  assumes "db_ok x d" and "live_token now0 (hashOpaqueToken x t) d = Some k"
    and "\<not> holds b (TokenRow (hashOpaqueToken x t))"
  shows "act x s (Statement 0) (two d (started_txn x s now0 (RefreshJob t (Inr n) now)) b)
    = Some (two d (consumed_refresh x s now0 t n now k) b)"
  using consume_live_row [OF assms(1,2)] assms(3)
  by (simp add: refresh_body_def proceed_def consumed_refresh_def)

lemma refresh_rest:
  assumes "find_user (rt_user_id k) d = Some u" and "find_membership (rt_user_id k) (rt_org_id k) d = Some m"
    and "find_org (om_org_id m) d \<noteq> None" and "find_token (hashOpaqueToken x n) d = None"
    and "\<not> holds b (TokenRow (hashOpaqueToken x n))" and "\<not> holds b (TokenKey (hashOpaqueToken x n))"
  shows "act_all x s [Statement 0, Statement 0, Statement 0, Finish 0] (two d (consumed_refresh x s now0 t n now k) b)
    = Some (two (apply_writes (tx_writes (rotated_refresh x s now0 t n now u m)) d)
        (rotated_refresh x s now0 t n now u m) b)"
proof -
  have ids: "rt_user_id k = us_id u" using find_userD [OF assms(1)] by simp
  let ?i = "\<lambda>u m. InsertToken (hashOpaqueToken x n) (us_id u) (om_org_id m) (now + refreshExpiry s)
    (proceed id (\<lambda>_. Done (Inr (Rotated u n m))))"
  let ?a = "consumed_refresh x s now0 t n now k"
  let ?a1 = "?a\<lparr>tx_body := ReadMembership (us_id u) (rt_org_id k) (proceed no_rows_is_invalid_token (?i u))\<rparr>"
  let ?a2 = "?a\<lparr>tx_body := ?i u m\<rparr>"
  let ?a3 = "(rotated_refresh x s now0 t n now u m)\<lparr>tx_status := Active\<rparr>"
  have s1: "act x s (Statement 0) (two d ?a b) = Some (two d ?a1 b)"
    using assms(1) ids by (simp add: consumed_refresh_def find_user_view one_row_def proceed_def)
  have s2: "act x s (Statement 0) (two d ?a1 b) = Some (two d ?a2 b)"
    using assms(2) ids by (simp add: consumed_refresh_def find_membership_view one_row_def proceed_def)
  have "fst (insert_token now0 (hashOpaqueToken x n) (us_id u) (om_org_id m) (now + refreshExpiry s)
      (apply_writes [Consumed (hashOpaqueToken x t)] d))
      = Inr (new_token_row now0 (hashOpaqueToken x n) (us_id u) (om_org_id m) (now + refreshExpiry s))"
    using assms(1,3,4) ids
    by (subst insert_token_ok) (simp_all add: find_token_view view_keys added_rows_def new_token_row_def)
  then have s3: "act x s (Statement 0) (two d ?a2 b) = Some (two d ?a3 b)"
    using assms(5,6) by (simp add: consumed_refresh_def rotated_refresh_def proceed_def started_txn_def)
  have s4: "act x s (Finish 0) (two d ?a3 b) = Some (two (apply_writes (tx_writes ?a3) d)
      (rotated_refresh x s now0 t n now u m) b)"
    by (simp add: finish_txn_def rotated_refresh_def)
  show ?thesis by (simp only: option.case act_all.simps s1 s2 s3 s4) (simp add: rotated_refresh_def)
qed

definition user_rows :: "uuid \<Rightarrow> database \<Rightarrow> string list" where
  "user_rows i d = map rt_token (filter (\<lambda>k. rt_user_id k = i) (refresh_tokens d))"

definition scanning :: "ext \<Rightarrow> service \<Rightarrow> time \<Rightarrow> uuid \<Rightarrow> string \<Rightarrow> string list \<Rightarrow> txn" where
  "scanning x s now1 i hash ts = (started_txn x s now1 (PasswordJob i hash))
     \<lparr>tx_writes := [Stored i now1 hash, Bumped i now1],
      tx_body := RevokeAll i (proceed id (\<lambda>_. Done (Inr Finished))), tx_scan := Some ts\<rparr>"

definition changed :: "ext \<Rightarrow> service \<Rightarrow> time \<Rightarrow> uuid \<Rightarrow> string \<Rightarrow> string list \<Rightarrow> txn" where
  "changed x s now1 i hash ts = (started_txn x s now1 (PasswordJob i hash))
     \<lparr>tx_writes := [Stored i now1 hash, Bumped i now1] @ map Revoked ts,
      tx_body := Done (Inr Finished), tx_status := Committed Finished\<rparr>"

lemma password_first:
  assumes "find_user i d = Some u" and "version_left i d" and "\<not> holds a (UserRow i)"
  shows "act_all x s [Statement 1, Statement 1, Scan 1] (two d a (started_txn x s now1 (PasswordJob i hash)))
    = Some (two d a (scanning x s now1 i hash (user_rows i d)))"
proof -
  let ?b = "started_txn x s now1 (PasswordJob i hash)"
  let ?done = "proceed id (\<lambda>_. Done (Inr Finished))"
  let ?b1 = "?b\<lparr>tx_writes := [Stored i now1 hash], tx_body := BumpVersion i (proceed id (\<lambda>_. RevokeAll i ?done))\<rparr>"
  let ?b2 = "?b\<lparr>tx_writes := [Stored i now1 hash, Bumped i now1], tx_body := RevokeAll i ?done\<rparr>"
  have s1: "act x s (Statement 1) (two d a ?b) = Some (two d a ?b1)"
    using assms(1,3) by (simp add: set_password_body_def proceed_def)
  have s2: "act x s (Statement 1) (two d a ?b1) = Some (two d a ?b2)"
    using assms(1,3) bump_left [OF assms(2), of now1 now1 hash] by (simp add: proceed_def view_keys)
  have s3: "act x s (Scan 1) (two d a ?b2) = Some (two d a (scanning x s now1 i hash (user_rows i d)))"
    by (simp add: apply_writes_def update_password_def user_rows_def scanning_def)
  show ?thesis by (simp only: option.case act_all.simps s1 s2 s3)
qed

lemma password_rest:
  assumes "\<And>t. t \<in> set ts \<Longrightarrow> \<not> holds a (TokenRow t)"
  shows "act_all x s (map (WriteRow 1) ts @ [EndScan 1, Finish 1]) (two d a (scanning x s now1 i hash ts))
    = Some (two (apply_writes (tx_writes (changed x s now1 i hash ts)) d) a (changed x s now1 i hash ts))"
proof -
  let ?b = "scanning x s now1 i hash ts" and ?c = "changed x s now1 i hash ts"
  let ?b1 = "?b\<lparr>tx_writes := tx_writes ?c, tx_scan := Some []\<rparr>" and ?b2 = "?c\<lparr>tx_status := Active\<rparr>"
  have s1: "act_all x s (map (WriteRow 1) ts) (two d a ?b) = Some (two d a ?b1)"
    using write_rows [of "two d a ?b" 1 ?b ts x s] assms by (simp add: scanning_def changed_def)
  have s2: "act x s (EndScan 1) (two d a ?b1) = Some (two d a ?b2)"
    by (simp add: scanning_def changed_def proceed_def started_txn_def)
  have s3: "act x s (Finish 1) (two d a ?b2) = Some (two (apply_writes (tx_writes ?c) d) a ?c)"
    by (simp add: finish_txn_def changed_def)
  show ?thesis by (simp only: act_all_append option.case act_all.simps s1 s2 s3)
qed

text \<open>C28: A logout and a password change of the same user can wait for each other: the logout has
  the row of its token and wants that of the user, the password change has the user's and wants
  those of all tokens. From there neither ends, whatever else runs, until the server aborts one.\<close>

theorem logout_password_deadlock:
  assumes "db_ok x d" and "live_token now (hashOpaqueToken x t) d = Some k" and "version_left (rt_user_id k) d"
  shows "\<exists>v. act_all x s [Begin 0 now (LogoutJob t), Begin 1 now' (PasswordJob (rt_user_id k) hash),
      Statement 0, Statement 1, Statement 1, Scan 1] (idle d) = Some v
    \<and> (\<forall>acs w. act_all x s acs v = Some w \<longrightarrow> Fail 0 \<notin> set acs \<longrightarrow> Fail 1 \<notin> set acs
         \<longrightarrow> active w 0 \<noteq> None \<and> active w 1 \<noteq> None)"
proof -
  let ?u = "rt_user_id k" and ?t = "hashOpaqueToken x t"
  have k: "k \<in> set (refresh_tokens d)" "rt_token k = ?t"
    using live_tokenD [OF assms(2)] find_tokenD by (auto simp: consumable_def)
  obtain u where user: "find_user ?u d = Some u"
    using db_ok_foreign_keys(1) [OF assms(1) k(1)] find_user_None_iff [of ?u d] by auto
  let ?a = "started_txn x s now (LogoutJob t)" and ?b = "started_txn x s now' (PasswordJob ?u hash)"
  let ?a1 = "?a\<lparr>tx_writes := [Consumed ?t], tx_body := BumpVersion ?u
    (proceed id (\<lambda>_. RevokeAll ?u (proceed id (\<lambda>_. Done (Inr Finished)))))\<rparr>"
  let ?b1 = "scanning x s now' ?u hash (user_rows ?u d)"
  have s1: "act x s (Statement 0) (two d ?a ?b) = Some (two d ?a1 ?b)"
    using consume_live_row [OF assms(1,2)] by (simp add: logout_body_def holds_def proceed_def)
  have "\<not> holds ?a1 (UserRow ?u)" by (simp add: holds_def)
  note s2 = password_first [OF user assms(3) this]
  have run: "act_all x s [Begin 0 now (LogoutJob t), Begin 1 now' (PasswordJob ?u hash),
      Statement 0, Statement 1, Statement 1, Scan 1] (idle d) = Some (two d ?a1 ?b1)"
    unfolding two_begin act_all.simps(2) [of x s "Statement 0"] s1 option.case by (rule s2)
  have dead: "deadlocked 0 1 (two d ?a1 ?b1)"
    using k user by (force simp: deadlocked_def scanning_def user_rows_def)
  have "active w 0 \<noteq> None \<and> active w 1 \<noteq> None" if "deadlocked 0 1 w" for w
    using that unfolding deadlocked_def by auto
  with run dead deadlocked_run [of x s _ _ _ 0 1] show ?thesis by blast
qed

lemma rotated_changed_sessions:
  assumes "find_user (us_id u) d = Some u" and "find_token (hashOpaqueToken x n) d = None"
    and "hashOpaqueToken x n \<noteq> hashOpaqueToken x t"
  shows "(\<exists>e. sessions_of (apply_writes (tx_writes (changed x s now1 (us_id u) hash (user_rows (us_id u) d)))
      (apply_writes (tx_writes (rotated_refresh x s now0 t n now u m)) d)) h = Open (us_id u) r e)
    \<longleftrightarrow> h = hashOpaqueToken x n \<and> r = om_org_id m"
proof (cases "find_token h d")
  case (Some l)
  then have l: "rt_token l = h" "l \<in> set (refresh_tokens d)" using find_tokenD by auto
  have "h \<noteq> hashOpaqueToken x n" using Some assms(2) by auto
  moreover have "h \<in> set (user_rows (us_id u) d)" if "rt_user_id l = us_id u"
    using l that by (auto simp: user_rows_def)
  ultimately show ?thesis
    using Some l by (auto simp: sessions_of_def find_token_view revoked_fold changed_def)
next
  case None
  have "hashOpaqueToken x n \<notin> set (user_rows (us_id u) d)"
    using assms(2) by (auto simp: find_token_def find_key_None user_rows_def)
  moreover have "added_rows (tx_writes (rotated_refresh x s now0 t n now u m)) =
      [new_token_row now0 (hashOpaqueToken x n) (us_id u) (om_org_id m) (now + refreshExpiry s)]"
    using assms(3) by (simp add: added_rows_def rotated_refresh_def)
  moreover have "added_rows (tx_writes (changed x s now1 (us_id u) hash (user_rows (us_id u) d))) = []"
    by (rule no_added) (auto simp: changed_def)
  ultimately show ?thesis
    using None assms(3)
    by (auto simp: sessions_of_def find_token_view revoked_fold new_token_row_def changed_def)
qed

lemma rotated_changed_user:
  assumes "find_user (us_id u) d = Some u"
  shows "find_user (us_id u) (apply_writes (tx_writes (changed x s now1 (us_id u) hash ts))
      (apply_writes (tx_writes (rotated_refresh x s now0 t n now u m)) d))
    = Some (u\<lparr>us_password_hash := hash, us_updated_at := now1, us_token_version := us_token_version u + 1\<rparr>)"
proof -
  have "fold user_write (map Revoked ts) = id" by (induction ts) simp_all
  with assms show ?thesis
    by (simp add: find_user_view changed_def rotated_refresh_def password_row_def bump_row_def)
qed

text \<open>C26: A password change ends the sessions its update of the tokens finds. A refresh of the same
  user that has consumed its token before and commits while that update waits for the row leaves
  the one session the user then has, under the new password and version.\<close>

theorem refresh_outlives_password:
  assumes "db_ok x d" and "live_token now0 (hashOpaqueToken x t) d = Some k"
    and "find_user (rt_user_id k) d = Some u" and "find_membership (rt_user_id k) (rt_org_id k) d = Some m"
    and "version_left (us_id u) d" and "find_token (hashOpaqueToken x n) d = None"
  shows "\<exists>v a b. act_all x s ([Begin 0 now0 (RefreshJob t (Inr n) now), Begin 1 now1 (PasswordJob (us_id u) hash),
      Statement 0, Statement 1, Statement 1, Scan 1, Statement 0, Statement 0, Statement 0, Finish 0]
      @ map (WriteRow 1) (user_rows (us_id u) d) @ [EndScan 1, Finish 1]) (idle d) = Some v
    \<and> txns v 0 = Some a \<and> tx_status a = Committed (Rotated u n m)
    \<and> txns v 1 = Some b \<and> tx_status b = Committed Finished
    \<and> find_user (us_id u) (committed v) = Some (u\<lparr>us_password_hash := hash, us_updated_at := now1,
        us_token_version := us_token_version u + 1\<rparr>)
    \<and> (\<exists>e. sessions_of (committed v) h = Open (us_id u) r e)
        = (h = hashOpaqueToken x n \<and> r = om_org_id m)"
proof -
  let ?t = "hashOpaqueToken x t" and ?n = "hashOpaqueToken x n" and ?ts = "user_rows (us_id u) d"
  let ?c = "consumed_refresh x s now0 t n now k" and ?a = "rotated_refresh x s now0 t n now u m"
  let ?b = "scanning x s now1 (us_id u) hash ?ts" and ?e = "changed x s now1 (us_id u) hash ?ts"
  have user: "find_user (us_id u) d = Some u" using assms(3) find_userD by fastforce
  have org: "find_org (om_org_id m) d \<noteq> None"
    using db_ok_foreign_keys(3) [OF assms(1)] find_membershipD [OF assms(4)] unfolding find_org_None_iff by blast
  have differ: "?n \<noteq> ?t" using assms(6) live_tokenD [OF assms(2)] by auto
  have unheld: "?n \<notin> set ?ts" "\<not> holds (started_txn x s now1 (PasswordJob (us_id u) hash)) r"
    "\<not> holds ?c (UserRow i)" "\<not> holds ?b (TokenRow h)" "\<not> holds ?a r" "\<not> holds ?b (TokenKey h)" for r i h
    using assms(6)
    by (auto simp: holds_def find_token_def find_key_None user_rows_def consumed_refresh_def scanning_def rotated_refresh_def)
  note steps = refresh_first [OF assms(1,2) unheld(2)] password_first [OF user assms(5) unheld(3)]
    refresh_rest [OF assms(3,4) org assms(6) unheld(4,6)] password_rest [OF unheld(5)]
  have "act_all x s (Begin 0 now0 (RefreshJob t (Inr n) now) # Begin 1 now1 (PasswordJob (us_id u) hash) #
      Statement 0 # [Statement 1, Statement 1, Scan 1] @ [Statement 0, Statement 0, Statement 0, Finish 0]
      @ (map (WriteRow 1) ?ts @ [EndScan 1, Finish 1])) (idle d)
    = Some (two (apply_writes (tx_writes ?e) (apply_writes (tx_writes ?a) d)) ?a ?e)"
    unfolding two_begin act_all.simps(2) [of x s "Statement 0" "[Statement 1, Statement 1, Scan 1] @ bcs" for bcs]
      act_all_append [of x s "[Statement 1, Statement 1, Scan 1]"]
      act_all_append [of x s "[Statement 0, Statement 0, Statement 0, Finish 0]"] steps option.case ..
  with rotated_changed_sessions [OF user assms(6) differ] rotated_changed_user [OF user]
  show ?thesis
    by (intro exI [of _ "two (apply_writes (tx_writes ?e) (apply_writes (tx_writes ?a) d)) ?a ?e"]
        exI [of _ ?a] exI [of _ ?e]) (simp add: rotated_refresh_def [THEN arg_cong [where f = tx_status]]
        changed_def [THEN arg_cong [where f = tx_status]])
qed


subsection \<open>Two registrations of one e-mail\<close>

definition new_user_row :: "time \<Rightarrow> uuid \<Rightarrow> string \<Rightarrow> string \<Rightarrow> string \<Rightarrow> user" where
  "new_user_row now i e h n = \<lparr>us_id = i, us_email = e, us_password_hash = h, us_full_name = n,
     us_created_at = now, us_updated_at = now, us_token_version = 0\<rparr>"

definition new_org_row :: "time \<Rightarrow> uuid \<Rightarrow> org" where
  "new_org_row now j = \<lparr>or_id = j, or_name = '''', or_created_at = now\<rparr>"

definition new_admin_row :: "time \<Rightarrow> uuid \<Rightarrow> uuid \<Rightarrow> uuid \<Rightarrow> org_membership" where
  "new_admin_row now l i j = \<lparr>om_id = l, om_user_id = i, om_org_id = j, om_role = RoleAdmin, om_created_at = now\<rparr>"

lemmas new_rows = new_user_row_def new_org_row_def new_admin_row_def

lemma new_rows_simps [simp]:
  "us_id (new_user_row now i e h n) = i" "us_email (new_user_row now i e h n) = e" "or_id (new_org_row now j) = j"
  by (simp_all add: new_rows)

text \<open>The first registration, statement by statement.\<close>

definition registering :: "ext \<Rightarrow> service \<Rightarrow> time \<Rightarrow> string \<Rightarrow> string \<Rightarrow> string \<Rightarrow> uuid \<times> uuid \<times> uuid \<Rightarrow> nat \<Rightarrow> txn" where
  "registering x s now e h n ids k = (case ids of (i, j, l) \<Rightarrow>
     let u = new_user_row now i e h n; r = new_org_row now j; m = new_admin_row now l i j;
         last = InsertMembership l i j RoleAdmin (proceed id (\<lambda>_. Done (Inr (Registered u r))));
         a = started_txn x s now (RegisterJob e h n ids); key = EmailKey (pg_lower x e)
     in if k = 1 then a\<lparr>tx_writes := [NewUser u, Entry key],
          tx_body := InsertOrg j '''' (proceed id (\<lambda>org. InsertMembership l (us_id u) (or_id org) RoleAdmin
            (proceed id (\<lambda>_. Done (Inr (Registered u org))))))\<rparr>
        else if k = 2 then a\<lparr>tx_writes := [NewUser u, Entry key, NewOrg r], tx_body := last\<rparr>
        else a\<lparr>tx_writes := [NewUser u, Entry key, NewOrg r, NewMember m, Entry (PairKey i j)],
          tx_body := Done (Inr (Registered u r))\<rparr>)"

definition registrable :: "ext \<Rightarrow> string \<Rightarrow> uuid \<times> uuid \<times> uuid \<Rightarrow> database \<Rightarrow> bool" where
  "registrable x e ids d \<longleftrightarrow> (case ids of (i, j, l) \<Rightarrow>
     db_ok x d \<and> find_user_email x e d = None \<and> find_user i d = None \<and> find_org j d = None
     \<and> (\<forall>m \<in> set (org_memberships d). om_id m \<noteq> l))"

lemma register_first:
  assumes "registrable x e (i, j, l) d" and b: "\<And>r. \<not> holds b r"
  shows "act x s (Statement 0) (two d (started_txn x s now (RegisterJob e h n (i, j, l))) b)
    = Some (two d (registering x s now e h n (i, j, l) 1) b)"
proof -
  from assms(1) have no_email: "find_user_email x e d = None" and fresh: "find_user i d = None"
    by (simp_all add: registrable_def)
  have "pg_lower x (us_email u) \<noteq> pg_lower x e" if "u \<in> set (users d)" for u
    using no_email that by (auto simp: find_user_email_def find_None_iff)
  then have "us_email u \<noteq> e" "pg_lower x (us_email u) \<noteq> pg_lower x e" "us_id u \<noteq> i" if "u \<in> set (users d)" for u
    using that fresh by (auto simp: find_user_None_iff)
  then have "fst (insert_user x now i e h n d) = Inr (new_user_row now i e h n)"
    by (auto simp: insert_user_def new_rows Let_def list_ex_iff)
  with b show ?thesis
    by (simp add: register_body_def registering_def proceed_def list_ex_iff Let_def)
qed

lemma register_second:
  assumes "registrable x e (i, j, l) d" and b: "\<And>r. \<not> holds b r"
  shows "act x s (Statement 0) (two d (registering x s now e h n (i, j, l) 1) b)
    = Some (two d (registering x s now e h n (i, j, l) 2) b)"
proof -
  have "or_id r \<noteq> j" if "r \<in> set (orgs d)" for r using that assms(1) by (auto simp: registrable_def find_org_None_iff)
  then have "fst (insert_org now j '''' (apply_writes ws d)) = Inr (new_org_row now j)"
    if "added_orgs ws = []" for ws
    using that by (auto simp: insert_org_def new_rows Let_def list_ex_iff apply_writes_fields)
  with b show ?thesis by (simp add: registering_def proceed_def Let_def added_orgs_def)
qed

lemma register_third:
  assumes "registrable x e (i, j, l) d" and b: "\<And>r. \<not> holds b r"
  shows "act x s (Statement 0) (two d (registering x s now e h n (i, j, l) 2) b)
    = Some (two d (registering x s now e h n (i, j, l) 3) b)"
proof -
  let ?ws = "tx_writes (registering x s now e h n (i, j, l) 2)"
  have ws: "?ws = [NewUser (new_user_row now i e h n), Entry (EmailKey (pg_lower x e)), NewOrg (new_org_row now j)]"
    by (simp add: registering_def Let_def)
  have "om_user_id m \<noteq> i" if "m \<in> set (org_memberships d)" for m
    using that assms(1) by (auto simp: registrable_def db_ok_def memberships_ok_def find_user_None_iff)
  moreover have "find_user i (apply_writes ?ws d) \<noteq> None" "find_org j (apply_writes ?ws d) \<noteq> None"
    unfolding view_keys ws by (simp_all add: added_users_def added_orgs_def)
  ultimately have "fst (insert_membership now l i j RoleAdmin (apply_writes ?ws d)) = Inr (new_admin_row now l i j)"
    using assms(1) by (auto simp: registrable_def insert_membership_def new_rows Let_def list_ex_iff RoleAdmin_def
        apply_writes_fields added_members_def ws)
  with b show ?thesis by (simp add: ws) (simp add: registering_def proceed_def Let_def)
qed

lemma register_tables:
  "apply_writes (tx_writes (registering x s now e h n (i, j, l) 3)) d =
    d\<lparr>users := users d @ [new_user_row now i e h n], orgs := orgs d @ [new_org_row now j],
      org_memberships := org_memberships d @ [new_admin_row now l i j]\<rparr>"
  by (simp add: registering_def Let_def apply_writes_def)

lemma registered_run:
  assumes "db_ok x d" and "find_user_email x e d = None" and "pg_lower x e' = pg_lower x e"
    and "find_user i d = None" and "find_org j d = None" and "\<And>m. m \<in> set (org_memberships d) \<Longrightarrow> om_id m \<noteq> l"
  shows "\<exists>v. act_all x s [Begin 0 now (RegisterJob e h n (i, j, l)), Begin 1 now' (RegisterJob e' h' n' ids), Statement 0]
        (idle d) = Some v
    \<and> act x s (Statement 1) v = None
    \<and> (\<exists>w a b. act_all x s [Statement 0, Statement 0, Finish 0, Statement 1, Finish 1] v = Some w
        \<and> txns w 0 = Some a \<and> tx_job a = RegisterJob e h n (i, j, l)
        \<and> tx_status a = Committed (Registered (new_user_row now i e h n) (new_org_row now j))
        \<and> txns w 1 = Some b \<and> tx_status b = Aborted ErrEmailExists
        \<and> committed w = d\<lparr>users := users d @ [new_user_row now i e h n], orgs := orgs d @ [new_org_row now j],
            org_memberships := org_memberships d @ [new_admin_row now l i j]\<rparr>)"
proof -
  let ?b = "started_txn x s now' (RegisterJob e' h' n' ids)"
  let ?a = "registering x s now e h n (i, j, l)"
  let ?d = "apply_writes (tx_writes (?a 3)) d"
  let ?c = "?a 3\<lparr>tx_status := Committed (Registered (new_user_row now i e h n) (new_org_row now j))\<rparr>"
  let ?e = "?b\<lparr>tx_body := Done (Inl ErrEmailExists), tx_status := Aborted ErrEmailExists\<rparr>"
  obtain i' j' l' where ids: "ids = (i', j', l')" by (cases ids)
  have b: "\<not> holds ?b r" for r by (simp add: holds_def)
  have "registrable x e (i, j, l) d" using assms(1,2,4-6) by (simp add: registrable_def)
  note steps = register_first [OF this b] register_second [OF this b] register_third [OF this b]
  have s1: "act_all x s [Begin 0 now (RegisterJob e h n (i, j, l)), Begin 1 now' (RegisterJob e' h' n' ids), Statement 0]
      (idle d) = Some (two d (?a 1) ?b)"
    unfolding two_begin by (simp only: act_all.simps steps option.case)
  have "holds (?a 1) (EmailKey (pg_lower x e))" by (simp add: holds_def registering_def Let_def)
  then have s2: "act x s (Statement 1) (two d (?a 1) ?b) = None"
    using assms(3) by (simp add: ids register_body_def)
  have s3: "act x s (Finish 0) (two d (?a 3) ?b) = Some (two ?d ?c ?b)"
    by (simp add: finish_txn_def registering_def Let_def)
  have "\<not> holds ?c r" for r by (simp add: holds_def)
  moreover have "fst (insert_user x now' i' e' h' n' ?d) = Inl unique_violation"
    using assms(3) by (simp add: insert_user_def register_tables list_ex_iff)
  ultimately have s4: "act x s (Statement 1) (two ?d ?c ?b) = Some (two ?d ?c (?b\<lparr>tx_body := Done (Inl ErrEmailExists)\<rparr>))"
    by (simp add: ids register_body_def proceed_def list_ex_iff isUniqueEmailViolation_def unique_violation_def apply_writes_def started_txn_def)
  have s5: "act x s (Finish 1) (two ?d ?c (?b\<lparr>tx_body := Done (Inl ErrEmailExists)\<rparr>))
      = Some (two ?d ?c ?e)"
    by (simp add: finish_txn_def)
  have job: "tx_job (?a 3) = RegisterJob e h n (i, j, l)" by (simp add: registering_def Let_def)
  have "act_all x s [Statement 0, Statement 0, Finish 0, Statement 1, Finish 1] (two d (?a 1) ?b)
      = Some (two ?d ?c ?e)"
    by (simp only: act_all.simps steps s3 s4 s5 option.case)
  note run = s1 s2 this register_tables
  show ?thesis
    by (rule exI [of _ "two d (?a 1) ?b"], intro conjI exI [of _ ?c] exI [of _ "two ?d ?c ?e"] exI [of _ ?e])
       (use run job in \<open>simp_all del: act_all.simps act.simps\<close>)
qed

text \<open>C27: Two registrations that have both found no user with their e-mail, and whose e-mails differ
  at most in case: once the first has inserted its user the second waits; after the first has
  committed its user, org and membership the second fails with \<open>ErrEmailExists\<close>, as it would
  have had it come later, and leaves nothing.\<close>

theorem register_race:
  assumes "db_ok x d" and "find_user_email x e d = None" and "pg_lower x e' = pg_lower x e"
    and "find_user i d = None" and "find_org j d = None" and "\<And>m. m \<in> set (org_memberships d) \<Longrightarrow> om_id m \<noteq> l"
  shows "\<exists>v. act_all x s [Begin 0 now (RegisterJob e h n (i, j, l)), Begin 1 now' (RegisterJob e' h' n' ids), Statement 0]
        (idle d) = Some v
    \<and> act x s (Statement 1) v = None
    \<and> (\<exists>w a b. act_all x s [Statement 0, Statement 0, Finish 0, Statement 1, Finish 1] v = Some w
        \<and> txns w 0 = Some a \<and> tx_status a = Committed (Registered (new_user_row now i e h n) (new_org_row now j))
        \<and> txns w 1 = Some b \<and> tx_status b = Aborted ErrEmailExists
        \<and> committed w = d\<lparr>users := users d @ [new_user_row now i e h n], orgs := orgs d @ [new_org_row now j],
            org_memberships := org_memberships d @ [new_admin_row now l i j]\<rparr>)"
  using registered_run [OF assms, of s now h n now' h' n' ids] by blast

subsection \<open>All runs\<close>

lemma runs_act_all: "act_all x s acs v = Some w \<Longrightarrow> runs x s u v \<Longrightarrow> runs x s u w"
  by (induction acs arbitrary: v) (auto intro: runs_step split: option.splits)

lemma runs_invariants:
  assumes "db_ok x d" and "runs x s (idle d) v"
  shows "claimed_once x v" "job_claims x v" "grows d v" "integrity x v"
    and "(\<And>u. u \<in> U \<Longrightarrow> find_user u d \<noteq> None) \<Longrightarrow> shaped x U v"
proof -
  have "grows d (idle d)" by (simp add: grows_def idle_def db_le_refl)
  with assms(2) show "grows d v" by (rule grows.runs_keeps)
  show claimed: "claimed_once x v" "job_claims x v"
    using idle_invariants(1) [OF assms(1)] idle_invariants(2) assms(2)
    by (auto intro: claimed_once.runs_keeps job_claims.runs_keeps)
  then show "integrity x v" by (simp add: claimed_once_integrity)
  show "shaped x U v" if "\<And>u. u \<in> U \<Longrightarrow> find_user u d \<noteq> None"
    using assms(2) idle_shaped [OF that] by (rule shaped.runs_keeps)
qed

text \<open>Two jobs of which each claims the row do not both commit.\<close>

lemma claim_committed:
  assumes "claimed_once x v" and "job_claims x v"
    and "txns v i = Some a" and "tx_status a = Committed c" and "r \<in> job_rows x (tx_job a)"
  shows "spent x r (committed v)"
    and "txns v j = Some b \<Longrightarrow> tx_status b = Committed c' \<Longrightarrow> r \<in> job_rows x (tx_job b) \<Longrightarrow> j = i"
proof -
  have claims: "unaborted v k e \<and> r \<in> claims (tx_writes e)"
    if "txns v k = Some e" "tx_status e = Committed c''" "r \<in> job_rows x (tx_job e)" for k e c''
    using assms(2) that by (fastforce simp: job_claims_def unaborted_def)
  note a = claims [OF assms(3-5)]
  show "spent x r (committed v)" using claimed_spent(2) [OF assms(1)] a assms(4) by auto
  show "j = i" if "txns v j = Some b" "tx_status b = Committed c'" "r \<in> job_rows x (tx_job b)"
    using claimed_onceD(2) [OF assms(1)] a claims [OF that] by blast
qed

text \<open>C11: Whatever transactions run at the same time and whichever of them fail, the committed tables
  keep their integrity and only evolve, and each transaction works on tables that have it.\<close>

theorem concurrent_integrity:
  assumes "db_ok x d" and "runs x s (idle d) v"
  shows "db_ok x (committed v) \<and> db_le d (committed v)
    \<and> (\<forall>i a. active v i = Some a \<longrightarrow> db_ok x (view v a))"
  using runs_invariants [OF assms] writes_fit_ok
  by (auto simp: integrity_def grows_def view_def)

text \<open>C3: However many refreshes present the same token at the same time, at most one commits; from
  then on the token is revoked in the committed tables.\<close>

theorem concurrent_refresh_once:
  assumes "db_ok x d" and "runs x s (idle d) v"
    and "txns v i = Some a" and "tx_job a = RefreshJob t new now" and "tx_status a = Committed c"
  shows "gone (hashOpaqueToken x t) (committed v)
    \<and> (\<forall>j b t' new' now' c'. j \<noteq> i \<longrightarrow> txns v j = Some b \<longrightarrow> tx_job b = RefreshJob t' new' now'
         \<longrightarrow> hashOpaqueToken x t' = hashOpaqueToken x t \<longrightarrow> tx_status b \<noteq> Committed c')"
proof -
  note once = claim_committed [OF runs_invariants(1,2) [OF assms(1,2)] assms(3,5), of "TokenRow (hashOpaqueToken x t)"]
  have "gone (hashOpaqueToken x t) (committed v)" using once(1) assms(4) by (simp add: spent_TokenRow)
  moreover have "tx_status b \<noteq> Committed c'"
    if "j \<noteq> i" "txns v j = Some b" "tx_job b = RefreshJob t' new' now'" "hashOpaqueToken x t' = hashOpaqueToken x t"
    for j b t' new' now' c'
    using once(2) [of j b c'] that assms(4) by auto
  ultimately show ?thesis by blast
qed

text \<open>C4: Of registrations with the same e-mail, up to case, that run at the same time at most one
  commits, although each has looked for the e-mail before and may have found none; there is then
  exactly one user with it.\<close>

theorem concurrent_register_once:
  assumes "db_ok x d" and "runs x s (idle d) v"
    and "txns v i = Some a" and "tx_job a = RegisterJob email hash name ids" and "tx_status a = Committed c"
  shows "(\<exists>!u. u \<in> set (users (committed v)) \<and> pg_lower x (us_email u) = pg_lower x email)
    \<and> (\<forall>j b email' hash' name' ids' c'. j \<noteq> i \<longrightarrow> txns v j = Some b \<longrightarrow> tx_job b = RegisterJob email' hash' name' ids'
         \<longrightarrow> pg_lower x email' = pg_lower x email \<longrightarrow> tx_status b \<noteq> Committed c')"
proof -
  note once = claim_committed [OF runs_invariants(1,2) [OF assms(1,2)] assms(3,5), of "EmailKey (pg_lower x email)"]
  have "db_ok x (committed v)" using runs_invariants(4) [OF assms(1,2)] by (simp add: integrity_def)
  then have "distinct (map (\<lambda>u. pg_lower x (us_email u)) (users (committed v)))"
    by (simp add: db_ok_def users_ok_def)
  note only = distinct_map_key_unique [OF this]
  obtain u where u: "u \<in> set (users (committed v))" "pg_lower x (us_email u) = pg_lower x email"
    using once(1) assms(4) by (auto simp: spent_def)
  have "\<exists>!u. u \<in> set (users (committed v)) \<and> pg_lower x (us_email u) = pg_lower x email"
    by (rule ex1I [of _ u]) (use u only in auto)
  moreover have "tx_status b \<noteq> Committed c'"
    if "j \<noteq> i" "txns v j = Some b" "tx_job b = RegisterJob email' hash' name' ids'" "pg_lower x email' = pg_lower x email"
    for j b email' hash' name' ids' c'
    using once(2) [of j b c'] that assms(4) by auto
  ultimately show ?thesis by blast
qed

text \<open>C8: Refreshes, logins, registrations and password changes do not deadlock: as long as no logout
  is under way, password changes are of stored users and no token being made collides with a
  stored one, some active transaction can take its next step.\<close>

theorem no_deadlock_without_logout:
  assumes "db_ok x d" and "runs x s (idle d) v" and "active v i = Some a"
    and "\<And>j b t. active v j = Some b \<Longrightarrow> tx_job b \<noteq> LogoutJob t"
    and "\<And>j b u h. active v j = Some b \<Longrightarrow> tx_job b = PasswordJob u h \<Longrightarrow> find_user u d \<noteq> None"
    and "\<And>j b t. active v j = Some b \<Longrightarrow> t \<in> new_tokens x (tx_job b) \<Longrightarrow> find_token t (committed v) = None"
  shows "\<exists>ac w. progress ac \<and> act x s ac v = Some w"
proof -
  have "quiet_server x {u. find_user u d \<noteq> None} v"
    unfolding quiet_server_def mem_Collect_eq
    by (intro conjI runs_invariants(1,5) [OF assms(1,2)] allI impI) (use assms(4-6) in \<open>simp_all\<close>)
  from quiet_goes [OF this assms(3)] show ?thesis unfolding goes_def by blast
qed

text \<open>C9: Transactions end. Whatever is under way, there is no infinite run without new transactions;
  and where refreshes, logins, registrations and password changes are under way as above, and no
  two of them make the same token, a run in which no more step can be taken has ended them all.\<close>

theorem transactions_end:
  assumes "db_ok x d" and "runs x s (idle d) v"
    and "\<And>j b t. active v j = Some b \<Longrightarrow> tx_job b \<noteq> LogoutJob t"
    and "\<And>j b u h. active v j = Some b \<Longrightarrow> tx_job b = PasswordJob u h \<Longrightarrow> find_user u d \<noteq> None"
    and "\<And>j b t. active v j = Some b \<Longrightarrow> t \<in> new_tokens x (tx_job b) \<Longrightarrow> find_token t (committed v) = None"
    and "\<And>i j a b. i \<noteq> j \<Longrightarrow> active v i = Some a \<Longrightarrow> active v j = Some b
      \<Longrightarrow> new_tokens x (tx_job a) \<inter> new_tokens x (tx_job b) = {}"
  shows "(\<nexists>f. f 0 = v \<and> (\<forall>n. \<exists>ac. (\<forall>i now job. ac \<noteq> Begin i now job) \<and> act x s ac (f n) = Some (f (Suc n))))
    \<and> (\<forall>acs w. act_all x s acs v = Some w \<longrightarrow> list_all progress acs \<longrightarrow> (\<forall>ac. progress ac \<longrightarrow> act x s ac w = None)
         \<longrightarrow> (\<forall>i. active w i = None))"
proof -
  have "tidy x {u. find_user u d \<noteq> None} v"
    unfolding tidy_def quiet_server_def mem_Collect_eq
    by (intro conjI runs_invariants(1,5) [OF assms(1,2)] allI impI) (use assms(3-6) in simp_all)
  moreover have "bounded v" by (rule bounded.runs_keeps [OF assms(2) idle_bounded])
  ultimately show ?thesis using no_infinite_run [of _ x s] tidy_run tidy_stuck by blast
qed

subsection \<open>Examples\<close>

lemma refresh_outlives_password_witness:
  "\<exists>acs v e. act_all sample_ext sample_service acs (idle sample_db) = Some v
     \<and> find_user 1 (committed v) = Some (ann\<lparr>us_password_hash := ''h'', us_updated_at := 0, us_token_version := 1\<rparr>)
     \<and> sessions_of (committed v) (hashOpaqueToken sample_ext (hex_encode [char_of (0::nat)])) = Open 1 2 e"
  using refresh_outlives_password [of sample_ext sample_db 0 "''tok''" ann_token ann ann_admin
      "hex_encode [char_of (0::nat)]" sample_service 0 0 "''h''"
      "hashOpaqueToken sample_ext (hex_encode [char_of (0::nat)])" 2]
  by (simp del: act.simps act_all.simps) blast

lemma logout_password_deadlock_witness:
  "\<exists>v. act_all sample_ext sample_service [Begin 0 0 (LogoutJob ''tok''), Begin 1 0 (PasswordJob 1 ''h''),
      Statement 0, Statement 1, Statement 1, Scan 1] (idle sample_db) = Some v
    \<and> active v 0 \<noteq> None \<and> active v 1 \<noteq> None"
proof -
  from logout_password_deadlock [of sample_ext sample_db 0 "''tok''" ann_token sample_service 0 "''h''"]
  obtain v where "act_all sample_ext sample_service [Begin 0 0 (LogoutJob ''tok''), Begin 1 0 (PasswordJob 1 ''h''),
      Statement 0, Statement 1, Statement 1, Scan 1] (idle sample_db) = Some v"
    and "\<And>acs w. act_all sample_ext sample_service acs v = Some w \<Longrightarrow> Fail 0 \<notin> set acs \<Longrightarrow> Fail 1 \<notin> set acs
      \<Longrightarrow> active w 0 \<noteq> None \<and> active w 1 \<noteq> None" by auto
  from this(1) this(2) [of "[]" v] show ?thesis by auto
qed


text \<open>Ann's token refreshed twice at once: the first consumes it, the second waits and is refused.\<close>

lemma sample_two_refreshes:
  "\<exists>v a b. act_all sample_ext sample_service ([Begin 0 0 (RefreshJob ''tok'' (Inr ''n'') 0),
      Begin 1 0 (RefreshJob ''tok'' (Inr ''m'') 0), Statement 0]
      @ [Statement 0, Statement 0, Statement 0, Finish 0]) (idle sample_db) = Some v
    \<and> txns v 0 = Some a \<and> tx_job a = RefreshJob ''tok'' (Inr ''n'') 0
    \<and> tx_status a = Committed (Rotated ann ''n'' ann_admin)
    \<and> txns v 1 = Some b \<and> active v 1 = Some b \<and> tx_job b = RefreshJob ''tok'' (Inr ''m'') 0"
proof -
  let ?b = "started_txn sample_ext sample_service 0 (RefreshJob ''tok'' (Inr ''m'') 0)"
  have b: "\<not> holds ?b r" for r by (simp add: holds_def)
  have n: "find_token (hashOpaqueToken sample_ext ''n'') sample_db = None"
    by (simp add: find_token_def sample_rows hash_sample hex_encode_def)
  have o: "find_org 2 sample_db \<noteq> None" by (simp add: find_org_def sample_rows)
  have "act_all sample_ext sample_service (Begin 0 0 (RefreshJob ''tok'' (Inr ''n'') 0) #
      Begin 1 0 (RefreshJob ''tok'' (Inr ''m'') 0) # Statement 0
      # [Statement 0, Statement 0, Statement 0, Finish 0]) (idle sample_db)
    = Some (two (apply_writes (tx_writes (rotated_refresh sample_ext sample_service 0 ''tok'' ''n'' 0 ann ann_admin)) sample_db)
        (rotated_refresh sample_ext sample_service 0 ''tok'' ''n'' 0 ann ann_admin) ?b)"
    unfolding two_begin act_all.simps(2) [of _ _ "Statement 0" "[Statement 0, Statement 0, Statement 0, Finish 0]"]
      refresh_first [OF sample_db_ok sample_live_token b] option.case
    by (rule refresh_rest) (use b n o in simp_all)
  then show ?thesis
    by (intro exI [of _ "two (apply_writes (tx_writes (rotated_refresh sample_ext sample_service 0 ''tok'' ''n'' 0 ann ann_admin)) sample_db)
        (rotated_refresh sample_ext sample_service 0 ''tok'' ''n'' 0 ann ann_admin) ?b"]
        exI [of _ "rotated_refresh sample_ext sample_service 0 ''tok'' ''n'' 0 ann ann_admin"] exI [of _ ?b])
       (simp add: rotated_refresh_def)
qed

lemma concurrent_refresh_once_witness:
  "\<exists>v b. runs sample_ext sample_service (idle sample_db) v \<and> txns v 1 = Some b
    \<and> tx_job b = RefreshJob ''tok'' (Inr ''m'') 0 \<and> gone (hashOpaqueToken sample_ext ''tok'') (committed v)
    \<and> (\<forall>c. tx_status b \<noteq> Committed c)"
proof -
  from sample_two_refreshes obtain v a b where v:
    "runs sample_ext sample_service (idle sample_db) v" "txns v 0 = Some a" "tx_job a = RefreshJob ''tok'' (Inr ''n'') 0"
    "tx_status a = Committed (Rotated ann ''n'' ann_admin)" "txns v 1 = Some b" "tx_job b = RefreshJob ''tok'' (Inr ''m'') 0"
    using runs_act_all [OF _ runs_refl] by blast
  from concurrent_refresh_once [OF sample_db_ok v(1-4)] v(5,6) show ?thesis using v(1) by fastforce
qed

lemma concurrent_integrity_witness:
  "\<exists>v b. active v 1 = Some b \<and> db_ok sample_ext (committed v) \<and> db_ok sample_ext (view v b)"
proof -
  from sample_two_refreshes obtain v b where "runs sample_ext sample_service (idle sample_db) v" "active v 1 = Some b"
    using runs_act_all [OF _ runs_refl] by blast
  with concurrent_integrity [OF sample_db_ok this(1)] show ?thesis by blast
qed

text \<open>A refresh with Ann's token and a change of her password, both begun.\<close>

definition sample_server :: server where
  "sample_server = two sample_db (started_txn sample_ext sample_service 0 (RefreshJob ''tok'' (Inr ''n'') 0))
     (started_txn sample_ext sample_service 0 (PasswordJob 1 ''h''))"

lemma sample_server_runs: "runs sample_ext sample_service (idle sample_db) sample_server"
proof -
  have "act_all sample_ext sample_service [Begin 0 0 (RefreshJob ''tok'' (Inr ''n'') 0), Begin 1 0 (PasswordJob 1 ''h'')]
      (idle sample_db) = Some sample_server"
    unfolding two_begin sample_server_def by simp
  then show ?thesis by (rule runs_act_all [OF _ runs_refl])
qed

lemma sample_server_active:
  "active sample_server j = Some b \<longleftrightarrow>
     (j = 0 \<and> b = started_txn sample_ext sample_service 0 (RefreshJob ''tok'' (Inr ''n'') 0))
     \<or> (j = 1 \<and> b = started_txn sample_ext sample_service 0 (PasswordJob 1 ''h''))"
  by (auto simp: sample_server_def two_def active_def)

lemma sample_server_tokens:
  "t \<in> new_tokens sample_ext (RefreshJob ''tok'' (Inr ''n'') 0) \<Longrightarrow> find_token t (committed sample_server) = None"
  by (simp add: sample_server_def find_token_def sample_rows hash_sample hex_encode_def)

lemma no_deadlock_without_logout_witness:
  "active sample_server 1 \<noteq> None \<and> (\<exists>ac w. progress ac \<and> act sample_ext sample_service ac sample_server = Some w)"
proof -
  let ?b = "started_txn sample_ext sample_service 0 (PasswordJob 1 ''h'')"
  have a: "active sample_server 1 = Some ?b" by (simp only: sample_server_active) simp
  have "\<exists>ac w. progress ac \<and> act sample_ext sample_service ac sample_server = Some w"
    by (rule no_deadlock_without_logout [OF sample_db_ok sample_server_runs a])
       (auto simp: sample_server_active sample_server_tokens)
  with a show ?thesis by simp
qed

lemma transactions_end_witness:
  "(\<nexists>f. f 0 = sample_server \<and> (\<forall>n. \<exists>ac. (\<forall>i now job. ac \<noteq> Begin i now job)
      \<and> act sample_ext sample_service ac (f n) = Some (f (Suc n))))
   \<and> (\<nexists>acs w i. act_all sample_ext sample_service acs sample_server = Some w \<and> list_all progress acs
      \<and> (\<nexists>ac u. progress ac \<and> act sample_ext sample_service ac w = Some u) \<and> active w i \<noteq> None)"
proof -
  note ends = transactions_end [OF sample_db_ok sample_server_runs]
  show ?thesis
  proof (intro conjI notI)
    assume "\<exists>f. f 0 = sample_server \<and> (\<forall>n. \<exists>ac. (\<forall>i now job. ac \<noteq> Begin i now job)
      \<and> act sample_ext sample_service ac (f n) = Some (f (Suc n)))"
    then show False by (rule notE [OF ends [THEN conjunct1], rotated -1])
      (auto simp: sample_server_active sample_server_tokens)
  next
    assume "\<exists>acs w i. act_all sample_ext sample_service acs sample_server = Some w \<and> list_all progress acs
      \<and> (\<nexists>ac u. progress ac \<and> act sample_ext sample_service ac w = Some u) \<and> active w i \<noteq> None"
    then obtain acs w i where w: "act_all sample_ext sample_service acs sample_server = Some w" "list_all progress acs"
      "\<forall>ac. progress ac \<longrightarrow> act sample_ext sample_service ac w = None" "active w i \<noteq> None" by auto
    have "active w i = None"
      by (rule ends [THEN conjunct2, rule_format, OF _ _ _ _ w(1,2)])
         (use w(3) in \<open>auto simp: sample_server_active sample_server_tokens\<close>)
    with w(4) show False by simp
  qed
qed

text \<open>Bob registers twice at once.\<close>

lemma sample_fresh:
  "find_user_email sample_ext ''bob@x.io'' sample_db = None" "find_user 3 sample_db = None" "find_org 4 sample_db = None"
  "m \<in> set (org_memberships sample_db) \<Longrightarrow> om_id m \<noteq> 5"
  by (auto simp: find_user_email_def find_user_def find_org_def sample_rows sample_ext_def lower_byte_def)

lemma register_race_witness:
  "\<exists>v w b. act_all sample_ext sample_service [Begin 0 0 (RegisterJob ''bob@x.io'' ''h'' ''Bob'' (3, 4, 5)),
        Begin 1 0 (RegisterJob ''bob@x.io'' ''g'' ''B'' (6, 7, 8)), Statement 0] (idle sample_db) = Some v
    \<and> act sample_ext sample_service (Statement 1) v = None
    \<and> act_all sample_ext sample_service [Statement 0, Statement 0, Finish 0, Statement 1, Finish 1] v = Some w
    \<and> txns w 1 = Some b \<and> tx_status b = Aborted ErrEmailExists"
  using register_race [OF sample_db_ok sample_fresh(1) refl sample_fresh(2,3,4),
      of sample_service 0 "''h''" "''Bob''" 0 "''g''" "''B''" "(6, 7, 8)"]
  by blast

lemma concurrent_register_once_witness:
  "\<exists>v b. runs sample_ext sample_service (idle sample_db) v \<and> txns v 1 = Some b
    \<and> (\<exists>!u. u \<in> set (users (committed v)) \<and> pg_lower sample_ext (us_email u) = pg_lower sample_ext ''bob@x.io'')"
proof -
  obtain v w a b where run: "act_all sample_ext sample_service [Begin 0 0 (RegisterJob ''bob@x.io'' ''h'' ''Bob'' (3, 4, 5)),
        Begin 1 0 (RegisterJob ''bob@x.io'' ''g'' ''B'' (6, 7, 8)), Statement 0] (idle sample_db) = Some v"
      "act_all sample_ext sample_service [Statement 0, Statement 0, Finish 0, Statement 1, Finish 1] v = Some w"
    and a: "txns w 0 = Some a" "tx_job a = RegisterJob ''bob@x.io'' ''h'' ''Bob'' (3, 4, 5)" "tx_status a = Committed (Registered (new_user_row 0 3 ''bob@x.io'' ''h'' ''Bob'') (new_org_row 0 4))"
    and b: "txns w 1 = Some b"
    using registered_run [OF sample_db_ok sample_fresh(1) refl sample_fresh(2,3,4),
      of sample_service 0 "''h''" "''Bob''" 0 "''g''" "''B''" "(6, 7, 8)"] by blast
  have r: "runs sample_ext sample_service (idle sample_db) w"
    by (rule runs_act_all [OF run(2) runs_act_all [OF run(1) runs_refl]])
  from concurrent_register_once [OF sample_db_ok r a] r b show ?thesis by blast
qed

lemma transaction_alone_witness:
  "ends_as sample_ext sample_service (idle sample_db) 0 0 (LogoutJob ''tok'')
     (map_sum id (\<lambda>_. Finished) (fst (Logout sample_ext ''tok'' sample_world)))
     (db (snd (Logout sample_ext ''tok'' sample_world)))"
proof -
  have "ends_as sample_ext sample_service (idle sample_db) 0 (db_now sample_world) (LogoutJob ''tok'')
     (map_sum id (\<lambda>_. Finished) (fst (Logout sample_ext ''tok'' sample_world)))
     (db (snd (Logout sample_ext ''tok'' sample_world)))"
    by (rule transaction_alone [of sample_world sample_ext "[char_of (0::nat)]" "idle sample_db" 0, THEN conjunct1])
       (simp_all add: active_def idle_def)
  then show ?thesis by simp
qed

end
