(* ===== verification/Writers.thy ===== *)
theory Writers
  imports Http
begin

text \<open>
  \<open>wrappedWriter\<close> of \<open>internal/middleware/logging.go\<close> with all its methods: a writer of the
  server, or a wrapper around a writer that records the status. Which of the optional interfaces
  \<open>http.Flusher\<close>, \<open>http.Hijacker\<close>, \<open>http.Pusher\<close> and \<open>io.ReaderFrom\<close> the server's
  writer implements depends on the protocol; a wrapper has the methods of all four and asks the
  writer below when it is called. Http keeps of a stack of wrappers only the recorded codes.
\<close>

subsection \<open>Writers\<close>

record base_writer =
  bw_flusher :: bool
  bw_hijacker :: bool
  bw_pusher :: bool
  bw_reader_from :: bool
  bw_response :: response
  bw_flushes :: nat
  bw_pushed :: "string list"
  bw_hijacked :: bool

text \<open>A wrapper holds the writer below and \<open>statusCode\<close>.\<close>

datatype wrappedWriter = Base base_writer | Wrapped wrappedWriter nat


fun writer_WriteHeader :: "nat \<Rightarrow> wrappedWriter \<Rightarrow> wrappedWriter" where
  "writer_WriteHeader code (Base b) =
     Base (if bw_hijacked b then b else b\<lparr>bw_response := send_status code (bw_response b)\<rparr>)"
| "writer_WriteHeader code (Wrapped w statusCode) = Wrapped (writer_WriteHeader code w) code"











subsection \<open>Calls through a stack of wrappers\<close>

fun base_of :: "wrappedWriter \<Rightarrow> base_writer" where
  "base_of (Base b) = b" | "base_of (Wrapped w c) = base_of w"

fun statuses :: "wrappedWriter \<Rightarrow> nat list" where
  "statuses (Base b) = []" | "statuses (Wrapped w c) = c # statuses w"

fun wrap_all :: "nat list \<Rightarrow> base_writer \<Rightarrow> wrappedWriter" where
  "wrap_all [] b = Base b" | "wrap_all (c # cs) b = Wrapped (wrap_all cs b) c"


lemma parts_wrap_all [simp]: "base_of (wrap_all cs b) = b" "statuses (wrap_all cs b) = cs"
  by (induction cs) simp_all









text \<open>What Http keeps of the wrappers is what they record.\<close>

lemma write_header_wrappers:
  assumes "bw_response b = ev_response e" and "\<not> bw_hijacked b"
  shows "writer_WriteHeader c (wrap_all (ev_writers e) b) =
    wrap_all (ev_writers (write_header c e)) (b\<lparr>bw_response := ev_response (write_header c e)\<rparr>)"
proof -
  have "writer_WriteHeader c (wrap_all cs b) = wrap_all (map (\<lambda>_. c) cs) (base_of (writer_WriteHeader c (Base b)))" for cs
    by (induction cs) simp_all
  with assms show ?thesis by (simp add: write_header_def)
qed


end
