(* ===== verification/Spec2Isabelle.thy ===== *)
theory Spec2Isabelle
  imports ServerTheorems StartupTheorems RaceTheorems ConcurrentTheorems Writers
begin

text \<open>
  A model of the backend scaffold in \<open>src/\<close> and the theorems about it: an HTTP server with
  registration, login, token refresh, logout and password reset over Postgres and Redis.

  The program. \<open>cmd/server/main.go\<close> loads the configuration (\<open>internal/config\<close>),
  connects to Postgres (\<open>internal/platform/database\<close>) and Redis
  (\<open>internal/platform/cache\<close>), builds the authentication service
  (\<open>internal/auth/service.go\<close>) and its handlers (\<open>handler.go\<close>), puts them behind the
  router and the middleware (\<open>internal/server/router.go\<close>, \<open>internal/middleware\<close>) and runs
  the HTTP server until a signal (\<open>internal/server/server.go\<close>). The service reads and writes
  four tables through generated queries (\<open>db/gen/auth.sql.go\<close>), in transactions where several
  belong together, keeps reset tokens in Redis, where the rate limiter has its counters too, and
  sends mail (\<open>internal/notification\<close>).

  The state. A \<open>world\<close> (Runtime) has the tables, the Redis keyspace, the outbox, the clocks of
  the process, of Postgres and of Redis, and the oracles: which remote call fails, before or after
  its effect, what the random source and \<open>gen_random_uuid()\<close> give. An operation is a function
  from worlds to a value or an error and a new world; every early return of the code is a branch. A
  request in flight is an \<open>env\<close> (Http): a world, the response so far, the log and the counters;
  a handler maps a request and an \<open>env\<close> to an outcome, which may be a panic, and an \<open>env\<close>;
  a middleware maps handlers to handlers.

  The theories, from the bottom up.
  Prelude: lemmas on keyed lists and the collections of rules. GoStrings: bytes, UTF-8,
  \<open>strings\<close> and \<open>html\<close> functions. Runtime: errors, world, calls, the rules for
  operations that preserve an invariant or evolve along an order.
  Db, DbProps, Transactions: tables with the constraints of \<open>db/migrations\<close>, the queries, the
  transactions of \<open>tx.go\<close>; their integrity \<open>db_ok\<close> and the order \<open>db_le\<close> in which
  they evolve. Cache: Redis commands and the script of the limiter.
  NetIP: \<open>net.ParseIP\<close>, \<open>ParseCIDR\<close>, \<open>Contains\<close>, \<open>SplitHostPort\<close>.
  Security, Tokens, Identity, Notification: \<open>security.go\<close>, \<open>tokens.go\<close>,
  \<open>context.go\<close> with \<open>roles.go\<close> and \<open>policy.go\<close>, and the senders.
  Service: the eight operations. ServiceInv: the service as a state machine (\<open>step\<close>,
  \<open>steps\<close>) with its invariant. Sessions, Accounts, Passwords: the lemmas about one group of
  operations each. SessionSpec: the abstract specification of sessions and the refinement.
  RaceTheorems: a login that overlaps with a password reset. Concurrent: the transactions of
  registration, refresh, logout and password change and the insert of \<open>issueTokens\<close>, as trees
  of their statements, and a server that runs the statements of many of them in any order under the
  rules of READ COMMITTED (row locks, inserts that wait for the same key, snapshots per statement).
  ConcurrentProps: its invariants, the last that a row or a key that a transaction claims is claimed
  by no other one (\<open>claimed_once\<close>). ConcurrentProgress: who waits for whom. ConcurrentSerial:
  that a tree that runs alone is the transaction of Service. ConcurrentEnd: that transactions end.
  Json, JsonProps: what the program uses of \<open>encoding/json\<close> (lexer and parser as state
  machines, strict decoding, encoding), and that the parser reads what the encoder writes.
  Http: requests, responses, \<open>internal/platform/response\<close>. Writers: the writers that the
  logging and metrics middleware wrap around the response. Middleware, RateLimit, RateWindow:
  \<open>internal/middleware\<close>, the limiter and its windows over time. Handlers: \<open>handler.go\<close>
  over the interface \<open>Servicer\<close>. Config: \<open>config.go\<close> with the parsers it uses. Router:
  \<open>routes.go\<close>, \<open>router.go\<close>, \<open>internal/platform/health\<close>, the example domain.
  RouterProps: that everything behind the stack answers once. ServerSpec: a request as at most one
  call of the service. Startup: \<open>main.go\<close>, \<open>database.go\<close>, \<open>redis.go\<close>.
  Lifecycle: \<open>server.go\<close>.
  Sample: a concrete world for the examples. The theories named Theorems hold the properties, each
  after a text that states it, and its example.

  Interfaces. What one part relies on in another is a locale, interpreted on the model of the
  code: \<open>world_order\<close> (preorders on worlds along which calls compose; integrity, accounts,
  tokens, counters, tables), \<open>mail_sender\<close> (a sender touches neither tables nor cache),
  \<open>servicer_contract\<close> (what the handlers need of the service to keep an invariant),
  \<open>guard\<close>, \<open>strict_guard\<close> and \<open>quiet_guard\<close> (a middleware lets a request through or
  answers it; Auth, RequireRole, RequireOrgAccess, CORS and RateLimit are guards),
  \<open>server_invariant\<close> (a property of servers that each kind of step keeps holds of every
  reachable server; integrity, evolution, single claims, progress, bounded work).

  The properties. Sessions and accounts: single use of refresh and reset tokens, what a logout, a
  reset, a password change and a registration do and that they do it whole or not at all, also
  when calls fail in the middle; round trips from registering to logging in and from the reset mail
  to the new password. Transactions at the same time: integrity, one winner among refreshes with
  the same token and among registrations with the same e-mail, who can deadlock, that the others
  end, and what a refresh that began before a reset still gets.
  Access: who gets through the middleware, that logouts and resets end access
  in every later state, how long a token lives. Requests: the refinement of the service by the
  server, invariants over all sequences of requests, strict decoding, uniform answers, records of
  every request, wrapped writers that show the client what the bare one would. Limits: the bound on requests in a window, the trust in proxies. Process: what a
  started server has, who reads the metrics, that a shutdown ends.

  Code outside the repository is a parameter with its documented behaviour as named hypotheses:
  the record \<open>ext\<close> (bcrypt, uuid, golang-jwt, SHA-256, Unicode tables, Postgres's LOWER, which
  strings the Prometheus client takes as values of labels; with
  \<open>jwt_sound\<close>, \<open>bcrypt_sound\<close>, \<open>bcrypt_limited\<close>, \<open>uuid_roundtrip\<close>,
  \<open>numeric_date_floor\<close>, \<open>labels_documented\<close>), \<open>chi\<close> (with \<open>chi_documented\<close>), the drivers of Postgres
  and Redis, the metrics page. The examples instantiate them with invertible stand-ins.
  \<open>assembled\<close> says that a router is built as \<open>main\<close> builds it; \<open>healthy\<close> that no
  further call fails.

  Bounds and fuel. \<open>token_version\<close> is an INTEGER column: its increment fails at the largest
  value. The counter of the limiter is an int64. The loop of \<open>ParseDuration\<close> has as much fuel as
  the text has bytes, which is enough since every round reads one; the nesting of JSON is limited
  to 10000 as in the library. All other loops are structural recursions.

  Not modelled. Log lines other than those of requests and panics. Timeouts of the HTTP server and
  of health checks, other than as failing calls. Interleaving: in a \<open>world\<close> operations run one
  after the other and transactions are serial. RaceTheorems splits \<open>Login\<close> at a point at which
  others commit, and Concurrent interleaves the statements of all transactions, each statement as one
  step in which an insert makes its entries in all indexes. The server's deadlock detector is one of
  the ways a transaction may \<open>Fail\<close>. The registration and the buckets of the Prometheus
  collectors. Of \<open>net/mail\<close> only bare addresses: \<open>normalizeEmail\<close> rejects every form whose
  address is not the text itself. Generated plumbing, tests, scripts
  and build files.
\<close>

end
